(* ===== verification/Prelude.thy ===== *)
theory Prelude
  imports Main
begin

text \<open>
  What every component of the model shares: C++ exceptions as values, statements and
  programs as state transformers that keep the state they reached when an exception
  leaves them, the frame and invariant calculus over these programs, and a locale for
  invariants of transition systems.
\<close>

section \<open>Exceptions\<close>

text \<open>
  The exceptions that the program throws or that reach it from a library. The message is
  what \<^verbatim>\<open>what()\<close> returns. \<open>UndefinedBehaviour\<close> is not an exception of the program: it
  marks an execution about which the language promises nothing (a float to integer
  conversion out of range), so that such an execution is never mistaken for a result.
\<close>

datatype exn =
    RuntimeError string
  | InvalidArgument string
  | LibException string
  | OutOfRange string
  | BadOptionalAccess
  | FutureError
  | UndefinedBehaviour

type_synonym ('s, 'a) prog = "'s \<Rightarrow> 's \<times> (exn + 'a)"
type_synonym 's stmt = "'s \<Rightarrow> 's \<times> (exn + unit)"

section \<open>Programs over a state\<close>

definition return :: "'a \<Rightarrow> ('s, 'a) prog" where
  "return x s = (s, Inr x)"

definition skip :: "'s stmt" where
  "skip s = (s, Inr ())"

definition throw :: "exn \<Rightarrow> ('s, 'a) prog" where
  "throw e s = (s, Inl e)"

definition act :: "('s \<Rightarrow> 's) \<Rightarrow> 's stmt" where
  "act f s = (f s, Inr ())"

definition get :: "('s \<Rightarrow> 'a) \<Rightarrow> ('s, 'a) prog" where
  "get f s = (s, Inr (f s))"

definition lift_result :: "exn + 'a \<Rightarrow> ('s, 'a) prog" where
  "lift_result r s = (s, r)"

definition bindp :: "('s, 'a) prog \<Rightarrow> ('a \<Rightarrow> ('s, 'b) prog) \<Rightarrow> ('s, 'b) prog" where
  "bindp m k s =
     (case snd (m s) of Inl e \<Rightarrow> (fst (m s), Inl e) | Inr x \<Rightarrow> k x (fst (m s)))"

definition branch :: "('s \<Rightarrow> bool) \<Rightarrow> ('s, 'a) prog \<Rightarrow> ('s, 'a) prog \<Rightarrow> ('s, 'a) prog" where
  "branch b t e s = (if b s then t s else e s)"

fun block :: "'s stmt list \<Rightarrow> 's stmt" where
  "block [] s = (s, Inr ())"
| "block (c # cs) s =
     (case snd (c s) of Inl e \<Rightarrow> (fst (c s), Inl e) | Inr _ \<Rightarrow> block cs (fst (c s)))"

text \<open>
  \<^verbatim>\<open>catch (const std::exception& e)\<close>: the handler runs in the state the exception left;
  undefined behaviour is not caught.
\<close>

definition catching :: "('s, 'a) prog \<Rightarrow> (exn \<Rightarrow> ('s, 'a) prog) \<Rightarrow> ('s, 'a) prog" where
  "catching m h s =
     (case snd (m s) of
        Inl e \<Rightarrow> if e = UndefinedBehaviour then (fst (m s), Inl e) else h e (fst (m s))
      | Inr x \<Rightarrow> (fst (m s), Inr x))"

text \<open>A program over a part of the state, run on the whole state.\<close>

definition zoom :: "('s \<Rightarrow> 't) \<Rightarrow> ('t \<Rightarrow> 's \<Rightarrow> 's) \<Rightarrow> ('t, 'a) prog \<Rightarrow> ('s, 'a) prog" where
  "zoom g p m s = (p (fst (m (g s))) s, snd (m (g s)))"

text \<open>Evaluation of the first statement of every list element in order.\<close>

fun map_result :: "('a \<Rightarrow> exn + 'b) \<Rightarrow> 'a list \<Rightarrow> exn + 'b list" where
  "map_result f [] = Inr []"
| "map_result f (x # xs) =
     (case f x of
        Inl e \<Rightarrow> Inl e
      | Inr y \<Rightarrow> (case map_result f xs of Inl e \<Rightarrow> Inl e | Inr ys \<Rightarrow> Inr (y # ys)))"

named_theorems prog_defs \<open>unfolding of the program combinators\<close>

lemmas [prog_defs] =
  return_def skip_def throw_def act_def get_def lift_result_def bindp_def branch_def
  catching_def zoom_def

lemma block_append:
  "block (xs @ ys) s =
     (case snd (block xs s) of
        Inl e \<Rightarrow> (fst (block xs s), Inl e) | Inr _ \<Rightarrow> block ys (fst (block xs s)))"
  by (induction xs arbitrary: s) (auto split: sum.splits)

lemma block_Cons_Inr: "snd (c s) = Inr () \<Longrightarrow> block (c # cs) s = block cs (fst (c s))"
  by simp

lemma block_Cons_Inl: "snd (c s) = Inl e \<Longrightarrow> block (c # cs) s = (fst (c s), Inl e)"
  by simp

lemma block_single: "block [c] s = c s"
  by (cases "c s") (simp split: sum.split)

lemma snd_unit_cases: "snd (m s) = Inr () \<or> (\<exists>e. snd (m s) = Inl (e::exn))"
  by (cases "snd (m s)") auto

lemma map_result_Inr_length: "map_result f xs = Inr ys \<Longrightarrow> length ys = length xs"
  by (induction xs arbitrary: ys) (auto split: sum.splits)

lemma map_result_Inr_nth:
  "map_result f xs = Inr ys \<Longrightarrow> i < length xs \<Longrightarrow> f (xs ! i) = Inr (ys ! i)"
proof (induction xs arbitrary: ys i)
  case Nil
  then show ?case by simp
next
  case (Cons x xs)
  then show ?case by (cases i) (auto split: sum.splits)
qed

lemma map_result_Inl: "map_result f xs = Inl e \<Longrightarrow> \<exists>x \<in> set xs. f x = Inl e"
  by (induction xs) (auto split: sum.splits)

lemma map_result_total:
  "(\<And>x. x \<in> set xs \<Longrightarrow> f x = Inr (g x)) \<Longrightarrow> map_result f xs = Inr (map g xs)"
  by (induction xs) auto

lemma map_result_Inr_iff:
  "(\<exists>ys. map_result f xs = Inr ys) \<longleftrightarrow> (\<forall>x \<in> set xs. \<exists>y. f x = Inr y)"
  by (induction xs) (auto split: sum.split)

section \<open>Frames: what a program leaves alone\<close>

definition frame :: "('s \<Rightarrow> 'b) \<Rightarrow> ('s, 'a) prog \<Rightarrow> bool" where
  "frame f m \<longleftrightarrow> (\<forall>s. f (fst (m s)) = f s)"

named_theorems frames \<open>introduction rules for frame conditions\<close>

lemma frameD: "frame f m \<Longrightarrow> f (fst (m s)) = f s"
  by (simp add: frame_def)

lemma frame_skip [frames]: "frame f skip"
  by (simp add: frame_def prog_defs)

lemma frame_return [frames]: "frame f (return x)"
  by (simp add: frame_def prog_defs)

lemma frame_throw [frames]: "frame f (throw e)"
  by (simp add: frame_def prog_defs)

lemma frame_get [frames]: "frame f (get g)"
  by (simp add: frame_def prog_defs)

lemma frame_lift_result [frames]: "frame f (lift_result r)"
  by (simp add: frame_def prog_defs)

lemma frame_act [frames]: "(\<And>s. f (g s) = f s) \<Longrightarrow> frame f (act g)"
  by (simp add: frame_def prog_defs)

lemma frame_bindp [frames]: "frame f m \<Longrightarrow> (\<And>x. frame f (k x)) \<Longrightarrow> frame f (bindp m k)"
  by (auto simp: frame_def prog_defs split: sum.splits)

lemma frame_branch [frames]: "frame f t \<Longrightarrow> frame f e \<Longrightarrow> frame f (branch b t e)"
  by (auto simp: frame_def prog_defs)

lemma frame_catching [frames]:
  "frame f m \<Longrightarrow> (\<And>e. frame f (h e)) \<Longrightarrow> frame f (catching m h)"
  by (auto simp: frame_def prog_defs split: sum.splits)

lemma frame_if [frames]:
  "(b \<Longrightarrow> frame f t) \<Longrightarrow> (\<not> b \<Longrightarrow> frame f e) \<Longrightarrow> frame f (if b then t else e)"
  by simp

lemma frame_block: "(\<And>c. c \<in> set cs \<Longrightarrow> frame f c) \<Longrightarrow> frame f (block cs)"
proof (induction cs)
  case Nil
  then show ?case by (simp add: frame_def)
next
  case (Cons c cs)
  then have "frame f c" and "frame f (block cs)" by auto
  then show ?case by (auto simp: frame_def split: sum.splits)
qed

lemma frame_block_Nil [frames]: "frame f (block [])"
  by (simp add: frame_def)

lemma frame_block_Cons [frames]: "frame f c \<Longrightarrow> frame f (block cs) \<Longrightarrow> frame f (block (c # cs))"
  by (auto simp: frame_def split: sum.splits)

lemma frame_zoom [frames]:
  "(\<And>t s. f (p t s) = f s) \<Longrightarrow> frame f (zoom g p m)"
  by (simp add: frame_def prog_defs)

text \<open>A frame of the part is a frame of the whole that looks at the part only.\<close>

lemma frame_zoom_part:
  "frame h m \<Longrightarrow> (\<And>t s. g (p t s) = t) \<Longrightarrow> frame (\<lambda>s. h (g s)) (zoom g p m)"
  by (simp add: frame_def prog_defs)

section \<open>Invariants of programs\<close>

definition keeps :: "('s \<Rightarrow> bool) \<Rightarrow> ('s, 'a) prog \<Rightarrow> bool" where
  "keeps P m \<longleftrightarrow> (\<forall>s. P s \<longrightarrow> P (fst (m s)))"

named_theorems kept \<open>introduction rules for invariants of programs\<close>

lemma keepsD: "keeps P m \<Longrightarrow> P s \<Longrightarrow> P (fst (m s))"
  by (simp add: keeps_def)

lemma keeps_frame: "frame f m \<Longrightarrow> keeps (\<lambda>s. Q (f s)) m"
  by (simp add: frame_def keeps_def)

lemma keeps_simple [kept]:
  "keeps P skip" "keeps P (return x)" "keeps P (throw e)" "keeps P (get g)"
  "keeps P (lift_result r)"
  by (simp_all add: keeps_def prog_defs)

lemma keeps_act [kept]: "(\<And>s. P s \<Longrightarrow> P (g s)) \<Longrightarrow> keeps P (act g)"
  by (simp add: keeps_def prog_defs)

lemma keeps_bindp [kept]: "keeps P m \<Longrightarrow> (\<And>x. keeps P (k x)) \<Longrightarrow> keeps P (bindp m k)"
  by (auto simp: keeps_def prog_defs split: sum.splits)

lemma keeps_branch [kept]: "keeps P t \<Longrightarrow> keeps P e \<Longrightarrow> keeps P (branch b t e)"
  by (auto simp: keeps_def prog_defs)

lemma keeps_catching [kept]:
  "keeps P m \<Longrightarrow> (\<And>e. keeps P (h e)) \<Longrightarrow> keeps P (catching m h)"
  by (auto simp: keeps_def prog_defs split: sum.splits)

lemma keeps_if [kept]:
  "(b \<Longrightarrow> keeps P t) \<Longrightarrow> (\<not> b \<Longrightarrow> keeps P e) \<Longrightarrow> keeps P (if b then t else e)"
  by simp

lemma keeps_block_Nil [kept]: "keeps P (block [])"
  by (simp add: keeps_def)

lemma keeps_block_Cons [kept]: "keeps P c \<Longrightarrow> keeps P (block cs) \<Longrightarrow> keeps P (block (c # cs))"
  by (auto simp: keeps_def split: sum.splits)

section \<open>How a program may move the state\<close>

text \<open>A relation between the state before and after, for relations that compose.\<close>

definition moves :: "('s \<Rightarrow> 's \<Rightarrow> bool) \<Rightarrow> ('s, 'a) prog \<Rightarrow> bool" where
  "moves R m \<longleftrightarrow> (\<forall>s. R s (fst (m s)))"

lemma movesD: "moves R m \<Longrightarrow> R s (fst (m s))"
  by (simp add: moves_def)

lemma moves_simple:
  "reflp R \<Longrightarrow> moves R skip" "reflp R \<Longrightarrow> moves R (return x)" "reflp R \<Longrightarrow> moves R (throw e)"
  "reflp R \<Longrightarrow> moves R (get g)" "reflp R \<Longrightarrow> moves R (lift_result r)" "reflp R \<Longrightarrow> moves R (block [])"
  by (simp_all add: moves_def prog_defs reflpD)

lemma moves_act: "(\<And>s. R s (g s)) \<Longrightarrow> moves R (act g)"
  by (simp add: moves_def prog_defs)

lemma moves_bindp: "transp R \<Longrightarrow> moves R m \<Longrightarrow> (\<And>x. moves R (k x)) \<Longrightarrow> moves R (bindp m k)"
  by (auto simp: moves_def prog_defs split: sum.splits elim: transpE)

lemma moves_branch: "moves R t \<Longrightarrow> moves R e \<Longrightarrow> moves R (branch b t e)"
  by (auto simp: moves_def prog_defs)

lemma moves_catching:
  "transp R \<Longrightarrow> moves R m \<Longrightarrow> (\<And>e. moves R (h e)) \<Longrightarrow> moves R (catching m h)"
  by (auto simp: moves_def prog_defs split: sum.splits elim: transpE)

lemma moves_if:
  "(b \<Longrightarrow> moves R t) \<Longrightarrow> (\<not> b \<Longrightarrow> moves R e) \<Longrightarrow> moves R (if b then t else e)"
  by simp

lemma moves_block_Cons:
  "transp R \<Longrightarrow> moves R c \<Longrightarrow> moves R (block cs) \<Longrightarrow> moves R (block (c # cs))"
  by (auto simp: moves_def split: sum.splits elim: transpE)

lemma moves_frame: "moves (\<lambda>s t. f t = f s) m \<longleftrightarrow> frame f m"
  by (simp add: moves_def frame_def)

lemmas moved =
  moves_simple moves_act moves_branch moves_if moves_bindp moves_catching moves_block_Cons

section \<open>Programs that return\<close>

definition succeeds :: "('s, 'a) prog \<Rightarrow> 's \<Rightarrow> bool" where
  "succeeds m s \<longleftrightarrow> (\<exists>x. snd (m s) = Inr x)"

lemma succeeds_unit [simp]: "succeeds (m :: 's stmt) s \<longleftrightarrow> snd (m s) = Inr ()"
  by (simp add: succeeds_def)

text \<open>Programs that return from every state.\<close>

definition returns :: "('s, 'a) prog \<Rightarrow> bool" where
  "returns m \<longleftrightarrow> (\<forall>s. \<exists>x. snd (m s) = Inr x)"

named_theorems returning \<open>introduction rules for programs that return\<close>

lemma returnsD: "returns m \<Longrightarrow> \<exists>x. snd (m s) = Inr x"
  by (simp add: returns_def)

lemma returns_simple [returning]:
  "returns skip" "returns (return x)" "returns (act f)" "returns (get f)" "returns (lift_result (Inr x))"
  by (simp_all add: returns_def prog_defs)

lemma returns_bindp [returning]: "returns m \<Longrightarrow> (\<And>x. returns (k x)) \<Longrightarrow> returns (bindp m k)"
  unfolding returns_def bindp_def
proof (intro allI)
  fix s
  assume "\<forall>s. \<exists>x. snd (m s) = Inr x" and k: "\<And>x. \<forall>s. \<exists>y. snd (k x s) = Inr y"
  then obtain x where "snd (m s) = Inr x" by blast
  with k [of x] show "\<exists>y. snd (case snd (m s) of Inl e \<Rightarrow> (fst (m s), Inl e) | Inr x \<Rightarrow> k x (fst (m s))) = Inr y"
    by simp
qed

lemma returns_block [returning]:
  "returns (block [])" "returns c \<Longrightarrow> returns (block cs) \<Longrightarrow> returns (block (c # cs))"
  by (simp_all add: returns_def)

lemma returns_zoom [returning]: "returns m \<Longrightarrow> returns (zoom g p m)"
  by (simp add: returns_def zoom_def)

section \<open>Integer division of C++: truncation towards zero\<close>

definition cdiv :: "int \<Rightarrow> int \<Rightarrow> int" where
  "cdiv a b = sgn a * sgn b * (\<bar>a\<bar> div \<bar>b\<bar>)"

lemma cdiv_mult: "0 < b \<Longrightarrow> cdiv (a * b) b = a"
  by (simp add: cdiv_def abs_mult sgn_mult sgn_mult_abs)

lemma cdiv_nonneg: "0 \<le> a \<Longrightarrow> 0 < b \<Longrightarrow> cdiv a b = a div b"
  by (cases "a = 0") (simp_all add: cdiv_def sgn_if)

section \<open>Invariants of transition systems\<close>

text \<open>
  A set of start states, a step relation and an invariant: what every component with
  concurrent steps instantiates with its own step relation.
\<close>

locale safety =
  fixes init :: "'s \<Rightarrow> bool"
    and step :: "'s \<Rightarrow> 's \<Rightarrow> bool"
    and inv :: "'s \<Rightarrow> bool"
  assumes init_inv: "init s \<Longrightarrow> inv s"
    and step_inv: "step s t \<Longrightarrow> inv s \<Longrightarrow> inv t"
begin

lemma steps_inv: "step\<^sup>*\<^sup>* s t \<Longrightarrow> inv s \<Longrightarrow> inv t"
  by (induction rule: rtranclp_induct) (auto intro: step_inv)

lemma reachable_inv: "init s \<Longrightarrow> step\<^sup>*\<^sup>* s t \<Longrightarrow> inv t"
  using init_inv steps_inv by blast

end

end
