(* ===== verification/Labels.thy ===== *)
theory Labels
  imports Prelude
begin

text \<open>
  The component labels of \<^verbatim>\<open>config/libopenpresso_config_labels.hpp\<close>. They name the hardware
  components both when the device configuration is written (\<open>ConfigMaker\<close>) and when
  the daemon looks its devices up (\<open>Leds\<close>, \<open>StatusManager\<close>, \<open>StateManager\<close>,
  \<open>Buttons\<close>, \<open>MetricsReactor\<close>).
\<close>

type_synonym label = string

definition PRESSURE_SENSOR_LABEL :: label where
  "PRESSURE_SENSOR_LABEL = ''pressure_sensor''"
definition TEMPERATURE_SENSOR_LABEL :: label where
  "TEMPERATURE_SENSOR_LABEL = ''temperature_sensor''"
definition AC_SENSOR_LABEL :: label where
  "AC_SENSOR_LABEL = ''ac_sensor''"
definition WEIGHT_SENSOR_LABEL :: label where
  "WEIGHT_SENSOR_LABEL = ''weight_sensor''"
definition INTERNAL_FLOW_SENSOR_LABEL :: label where
  "INTERNAL_FLOW_SENSOR_LABEL = ''flow_sensor''"

definition POWER_BUTTON_LABEL :: label where
  "POWER_BUTTON_LABEL = ''power_button''"
definition BREW_BUTTON_LABEL :: label where
  "BREW_BUTTON_LABEL = ''brew_button''"
definition STEAM_BUTTON_LABEL :: label where
  "STEAM_BUTTON_LABEL = ''steam_button''"

definition POWER_LED_LABEL :: label where
  "POWER_LED_LABEL = ''power_led''"
definition BREW_LED_LABEL :: label where
  "BREW_LED_LABEL = ''brew_led''"
definition STEAM_LED_LABEL :: label where
  "STEAM_LED_LABEL = ''steam_led''"

definition PUMP_DRIVER_LABEL :: label where
  "PUMP_DRIVER_LABEL = ''pump_driver''"
definition HEATER_DRIVER_LABEL :: label where
  "HEATER_DRIVER_LABEL = ''heater_driver''"
definition VALVE_DRIVER_LABEL :: label where
  "VALVE_DRIVER_LABEL = ''valve_driver''"

definition PUMP_POWER_CONTROLLER_LABEL :: label where
  "PUMP_POWER_CONTROLLER_LABEL = ''pump_power_controller''"
definition HEATER_POWER_CONTROLLER_LABEL :: label where
  "HEATER_POWER_CONTROLLER_LABEL = ''heater_power_controller''"

definition PRESSURE_CONTROLLER_LABEL :: label where
  "PRESSURE_CONTROLLER_LABEL = ''pressure_controller''"
definition FLOW_RATE_CONTROLLER_LABEL :: label where
  "FLOW_RATE_CONTROLLER_LABEL = ''flow_rate_controller''"
definition INTERNAL_FLOW_RATE_CONTROLLER_LABEL :: label where
  "INTERNAL_FLOW_RATE_CONTROLLER_LABEL = ''internal_flow_rate_controller''"
definition BREW_TEMPERATURE_CONTROLLER_LABEL :: label where
  "BREW_TEMPERATURE_CONTROLLER_LABEL = ''brew_temperature_controller''"
definition STEAM_PREHEAT_TEMPERATURE_CONTROLLER_LABEL :: label where
  "STEAM_PREHEAT_TEMPERATURE_CONTROLLER_LABEL = ''steam_preheat_temperature_controller''"
definition STEAM_ACTIVE_TEMPERATURE_CONTROLLER_LABEL :: label where
  "STEAM_ACTIVE_TEMPERATURE_CONTROLLER_LABEL = ''steam_active_temperature_controller''"

definition BREW_PROFILER_LABEL :: label where
  "BREW_PROFILER_LABEL = ''brew_profiler''"
definition STEAM_CONTROLLER_LABEL :: label where
  "STEAM_CONTROLLER_LABEL = ''steam_controller''"

lemmas label_defs =
  PRESSURE_SENSOR_LABEL_def TEMPERATURE_SENSOR_LABEL_def AC_SENSOR_LABEL_def
  WEIGHT_SENSOR_LABEL_def INTERNAL_FLOW_SENSOR_LABEL_def POWER_BUTTON_LABEL_def
  BREW_BUTTON_LABEL_def STEAM_BUTTON_LABEL_def POWER_LED_LABEL_def BREW_LED_LABEL_def
  STEAM_LED_LABEL_def PUMP_DRIVER_LABEL_def HEATER_DRIVER_LABEL_def VALVE_DRIVER_LABEL_def
  PUMP_POWER_CONTROLLER_LABEL_def HEATER_POWER_CONTROLLER_LABEL_def
  PRESSURE_CONTROLLER_LABEL_def FLOW_RATE_CONTROLLER_LABEL_def
  INTERNAL_FLOW_RATE_CONTROLLER_LABEL_def BREW_TEMPERATURE_CONTROLLER_LABEL_def
  STEAM_PREHEAT_TEMPERATURE_CONTROLLER_LABEL_def STEAM_ACTIVE_TEMPERATURE_CONTROLLER_LABEL_def
  BREW_PROFILER_LABEL_def STEAM_CONTROLLER_LABEL_def

text \<open>The labels the state manager and the LED handler work with are different.\<close>

lemma led_labels_distinct [simp]:
  "POWER_LED_LABEL \<noteq> BREW_LED_LABEL" "BREW_LED_LABEL \<noteq> POWER_LED_LABEL"
  "POWER_LED_LABEL \<noteq> STEAM_LED_LABEL" "STEAM_LED_LABEL \<noteq> POWER_LED_LABEL"
  "BREW_LED_LABEL \<noteq> STEAM_LED_LABEL" "STEAM_LED_LABEL \<noteq> BREW_LED_LABEL"
  by (simp_all add: POWER_LED_LABEL_def BREW_LED_LABEL_def STEAM_LED_LABEL_def)

lemma actuator_labels_distinct [simp]:
  "BREW_PROFILER_LABEL \<noteq> STEAM_CONTROLLER_LABEL"
  "STEAM_CONTROLLER_LABEL \<noteq> BREW_PROFILER_LABEL"
  "BREW_PROFILER_LABEL \<noteq> BREW_TEMPERATURE_CONTROLLER_LABEL"
  "BREW_TEMPERATURE_CONTROLLER_LABEL \<noteq> BREW_PROFILER_LABEL"
  "STEAM_CONTROLLER_LABEL \<noteq> BREW_TEMPERATURE_CONTROLLER_LABEL"
  "BREW_TEMPERATURE_CONTROLLER_LABEL \<noteq> STEAM_CONTROLLER_LABEL"
  by (simp_all add: BREW_PROFILER_LABEL_def STEAM_CONTROLLER_LABEL_def
      BREW_TEMPERATURE_CONTROLLER_LABEL_def)

lemma led_actuator_labels_distinct [simp]:
  "l \<in> {POWER_LED_LABEL, BREW_LED_LABEL, STEAM_LED_LABEL} \<Longrightarrow>
   l \<notin> {BREW_PROFILER_LABEL, STEAM_CONTROLLER_LABEL, BREW_TEMPERATURE_CONTROLLER_LABEL}"
  by (auto simp: label_defs)

end
