(* ===== verification/CFloat.thy ===== *)
theory CFloat
  imports Prelude Complex_Main
begin

text \<open>
  The binary32 arithmetic behind the \<^verbatim>\<open>float\<close> values of the program: rounding to nearest
  even of an exact rational result, division and multiplication with infinities and
  not-a-number, \<^verbatim>\<open>std::ceil\<close>, and the conversions to integers, which are undefined
  behaviour out of range. The last two sections bound the error of one rounding, and of the
  quotient of two converted integers the way the status manager computes it. Signed zeros are not told apart: no operation of the program
  observes the sign of a zero.
\<close>

datatype float32 = Finite rat | Infinite bool | NotANumber

section \<open>Rounding\<close>

definition pow2 :: "int \<Rightarrow> rat" where
  "pow2 e = (if 0 \<le> e then 2 ^ nat e else 1 / 2 ^ nat (- e))"

text \<open>Number of binary digits, and the exponent of the leading digit of a positive rational.\<close>

function bits :: "int \<Rightarrow> nat" where
  "bits n = (if n \<le> 0 then 0 else Suc (bits (n div 2)))"
  by pat_completeness auto
termination
  by (relation "measure nat") auto

declare bits.simps [simp del]

definition lead_exp :: "rat \<Rightarrow> int" where
  "lead_exp x =
     (let a = fst (quotient_of x); b = snd (quotient_of x);
          e = int (bits a) - int (bits b)
      in if pow2 e \<le> x then e else e - 1)"

definition round_half_even :: "rat \<Rightarrow> int" where
  "round_half_even x =
     (let n = \<lfloor>x\<rfloor>; d = x - of_int n
      in if d < 1 / 2 then n else if 1 / 2 < d then n + 1 else if even n then n else n + 1)"

definition f32 :: "rat \<Rightarrow> float32" where
  "f32 x =
     (if x = 0 then Finite 0
      else let e = max (lead_exp \<bar>x\<bar> - 23) (- 149);
               r = of_int (round_half_even (x / pow2 e)) * pow2 e
           in if 2 ^ 128 \<le> \<bar>r\<bar> then Infinite (x < 0) else Finite r)"

section \<open>Operations\<close>

fun float_neg_sign :: "float32 \<Rightarrow> bool" where
  "float_neg_sign (Finite r) = (r < 0)"
| "float_neg_sign (Infinite s) = s"
| "float_neg_sign NotANumber = False"

fun fdiv :: "float32 \<Rightarrow> float32 \<Rightarrow> float32" where
  "fdiv (Finite a) (Finite b) =
     (if b = 0 then (if a = 0 then NotANumber else Infinite (a < 0)) else f32 (a / b))"
| "fdiv (Infinite s) (Finite b) = Infinite (s \<noteq> (b < 0))"
| "fdiv (Finite a) (Infinite _) = Finite 0"
| "fdiv _ _ = NotANumber"

fun fmul :: "float32 \<Rightarrow> float32 \<Rightarrow> float32" where
  "fmul (Finite a) (Finite b) = f32 (a * b)"
| "fmul (Infinite s) (Finite b) = (if b = 0 then NotANumber else Infinite (s \<noteq> (b < 0)))"
| "fmul (Finite a) (Infinite s) = (if a = 0 then NotANumber else Infinite (s \<noteq> (a < 0)))"
| "fmul (Infinite s) (Infinite t) = Infinite (s \<noteq> t)"
| "fmul _ _ = NotANumber"

fun fceil :: "float32 \<Rightarrow> float32" where
  "fceil (Finite r) = Finite (of_int \<lceil>r\<rceil>)"
| "fceil x = x"

definition trunc :: "rat \<Rightarrow> int" where
  "trunc r = (if 0 \<le> r then \<lfloor>r\<rfloor> else \<lceil>r\<rceil>)"

text \<open>
  \<^verbatim>\<open>static_cast\<close> of a float to an integer type whose values are those that satisfy \<open>fits\<close>.
\<close>

fun float_to_int :: "(int \<Rightarrow> bool) \<Rightarrow> float32 \<Rightarrow> exn + int" where
  "float_to_int fits (Finite r) =
     (if fits (trunc r) then Inr (trunc r) else Inl UndefinedBehaviour)"
| "float_to_int fits _ = Inl UndefinedBehaviour"

definition float_of_int :: "int \<Rightarrow> float32" where
  "float_of_int n = f32 (of_int n)"

definition fits_size_t :: "int \<Rightarrow> bool" where
  "fits_size_t n \<longleftrightarrow> 0 \<le> n \<and> n < 2 ^ 64"

section \<open>Exactness\<close>

lemma pow2_pos [simp]: "0 < pow2 e"
  by (simp add: pow2_def)

lemma pow2_nonzero [simp]: "pow2 e \<noteq> 0"
  using pow2_pos [of e] by linarith

lemma bits_ge: "0 < n \<Longrightarrow> 2 ^ (bits n - 1) \<le> n"
proof (induction n rule: bits.induct)
  case (1 n)
  show ?case
  proof (cases "n div 2 \<le> 0")
    case True
    then have "bits (n div 2) = 0" by (subst bits.simps) simp
    with 1 show ?thesis by (simp add: bits.simps [of n])
  next
    case False
    then have pos: "0 < bits (n div 2)" by (subst bits.simps) simp
    from 1 False have "2 ^ (bits (n div 2) - 1) \<le> n div 2" by simp
    then have "2 * 2 ^ (bits (n div 2) - 1) \<le> n" by linarith
    moreover have "2 * 2 ^ (bits (n div 2) - 1) = (2::int) ^ bits (n div 2)"
      using pos by (metis Suc_diff_1 power_Suc)
    moreover have "bits n = Suc (bits (n div 2))"
      using 1(2) by (subst bits.simps) simp
    ultimately show ?thesis by simp
  qed
qed

lemma bits_bound:
  assumes "n < 2 ^ k"
  shows "bits n \<le> k"
proof (rule ccontr)
  assume b: "\<not> bits n \<le> k"
  then have pos: "0 < n" by (subst (asm) bits.simps) (simp split: if_splits)
  have "(2::int) ^ k \<le> 2 ^ (bits n - 1)" using b by (intro power_increasing) auto
  also have "\<dots> \<le> n" using pos by (rule bits_ge)
  finally show False using assms by simp
qed

lemma lead_exp_int_bound:
  assumes "0 < n" and "n < 2 ^ k"
  shows "lead_exp (of_int n) \<le> int k - 1"
proof -
  have q: "quotient_of (of_int n) = (n, 1)" by (simp add: of_int_rat quotient_of_Fract)
  have "bits n \<le> k" using assms(2) by (rule bits_bound)
  moreover have "bits 1 = 1" by (simp add: bits.simps)
  ultimately show ?thesis by (simp add: lead_exp_def q Let_def)
qed

lemma round_half_even_int [simp]: "round_half_even (of_int n) = n"
  by (simp add: round_half_even_def)

lemma pow2_nonpos: "e \<le> 0 \<Longrightarrow> 1 / pow2 e = of_int (2 ^ nat (- e))"
  by (cases "e = 0") (simp_all add: pow2_def)

text \<open>Integers of at most 24 binary digits are represented exactly.\<close>

lemma f32_of_int_exact:
  assumes "\<bar>n\<bar> < 2 ^ 24"
  shows "f32 (of_int n) = Finite (of_int n)"
proof (cases "n = 0")
  case True
  then show ?thesis by (simp add: f32_def)
next
  case False
  define e where "e = max (lead_exp \<bar>of_int n\<bar> - 23) (- 149)"
  have "lead_exp (of_int \<bar>n\<bar>) \<le> int 24 - 1"
    using assms False by (intro lead_exp_int_bound) auto
  then have e: "e \<le> 0" by (simp add: e_def)
  have "of_int n / pow2 e = of_int (n * 2 ^ nat (- e))"
    using pow2_nonpos [OF e] by (simp add: divide_inverse)
  then have r: "of_int (round_half_even (of_int n / pow2 e)) * pow2 e = of_int n"
    by (metis nonzero_eq_divide_eq pow2_nonzero round_half_even_int)
  have "\<bar>rat_of_int n\<bar> = of_int \<bar>n\<bar>" by simp
  also have "\<dots> < of_int (2 ^ 24)" using assms by (simp only: of_int_less_iff)
  also have "\<dots> \<le> (2::rat) ^ 128" by simp
  finally have "\<not> 2 ^ 128 \<le> \<bar>rat_of_int n\<bar>" by simp
  with r False show ?thesis by (simp add: f32_def e_def [symmetric] Let_def)
qed

lemma trunc_of_int [simp]: "trunc (of_int n) = n"
  by (simp add: trunc_def)

lemma float_int_roundtrip:
  "\<bar>n\<bar> < 2 ^ 24 \<Longrightarrow> fits n \<Longrightarrow> float_to_int fits (float_of_int n) = Inr n"
  by (simp add: float_of_int_def f32_of_int_exact)

lemma trunc_bounds: "\<bar>of_int (trunc r)\<bar> \<le> \<bar>r\<bar>" "\<bar>r\<bar> < \<bar>of_int (trunc r)\<bar> + 1"
proof -
  have f: "of_int \<lfloor>r\<rfloor> \<le> r" "r < of_int \<lfloor>r\<rfloor> + 1" by linarith+
  have c: "r \<le> of_int \<lceil>r\<rceil>" "of_int \<lceil>r\<rceil> < r + 1" by linarith+
  have "0 \<le> r \<Longrightarrow> (0::rat) \<le> of_int \<lfloor>r\<rfloor>" and "r < 0 \<Longrightarrow> of_int \<lceil>r\<rceil> \<le> (0::rat)"
    by simp_all
  with f c show "\<bar>of_int (trunc r)\<bar> \<le> \<bar>r\<bar>" "\<bar>r\<bar> < \<bar>of_int (trunc r)\<bar> + 1"
    by (auto simp: trunc_def)
qed

section \<open>The error of one rounding\<close>

lemma pow2_add: "pow2 (a + b) = pow2 a * pow2 b"
proof -
  have "pow2 e = 2 powi e" for e
    by (simp add: pow2_def power_int_def power_one_over inverse_eq_divide)
  then show ?thesis using power_int_add [of "2::rat" a b] by simp
qed

lemma pow2_nat: "pow2 (int n) = 2 ^ n"
  by (simp add: pow2_def)

lemma pow2_mono: "a \<le> b \<Longrightarrow> pow2 a \<le> pow2 b"
proof -
  assume "a \<le> b"
  then have "pow2 b = pow2 a * 2 ^ nat (b - a)"
    using pow2_add [of a "b - a"] by (simp add: pow2_def)
  moreover have "pow2 a * 1 \<le> pow2 a * 2 ^ nat (b - a)"
    by (intro mult_left_mono) (simp_all add: less_imp_le)
  ultimately show ?thesis by simp
qed

lemma bits_less: "n < 2 ^ bits n"
proof (induction n rule: bits.induct)
  case (1 n)
  show ?case
  proof (cases "n \<le> 0")
    case True
    then show ?thesis by (subst bits.simps) simp
  next
    case False
    with 1 have "n div 2 < 2 ^ bits (n div 2)" by simp
    then have "n < 2 * 2 ^ bits (n div 2)" by linarith
    with False show ?thesis by (subst bits.simps) simp
  qed
qed

text \<open>The leading exponent brackets the number.\<close>

lemma lead_exp_bounds:
  assumes "0 < x"
  shows "pow2 (lead_exp x) \<le> x" and "x < pow2 (lead_exp x + 1)"
proof -
  obtain a b where q: "quotient_of x = (a, b)" by fastforce
  then have b: "0 < b" and x: "x = of_int a / of_int b"
    by (simp_all add: quotient_of_denom_pos quotient_of_div)
  with assms have a: "0 < a" by (simp add: zero_less_divide_iff)
  define e where "e = int (bits a) - int (bits b)"
  have pos: "0 < bits a" "0 < bits b"
    using a b by (simp_all add: bits.simps)
  have "(2::int) ^ (bits a - 1) \<le> a" "a < 2 ^ bits a" "(2::int) ^ (bits b - 1) \<le> b" "b < 2 ^ bits b"
    using a b bits_ge bits_less by blast+
  then have r: "(2::rat) ^ (bits a - 1) \<le> of_int a" "of_int a < (2::rat) ^ bits a"
    "(2::rat) ^ (bits b - 1) \<le> of_int b" "of_int b < (2::rat) ^ bits b"
    by (metis of_int_le_iff of_int_less_iff of_int_numeral of_int_power)+
  have p: "pow2 (e - 1) * 2 ^ bits b = 2 ^ (bits a - 1)" "pow2 (e + 1) * 2 ^ (bits b - 1) = 2 ^ bits a"
    using pos pow2_add [of "e - 1" "int (bits b)"] pow2_add [of "e + 1" "int (bits b - 1)"]
    by (simp_all add: e_def pow2_nat [symmetric] of_nat_diff)
  have "pow2 (e - 1) * of_int b < pow2 (e - 1) * 2 ^ bits b" using r(4) by simp
  also have "\<dots> \<le> of_int a" using p(1) r(1) by simp
  finally have low: "pow2 (e - 1) \<le> x" using b x by (simp add: le_divide_eq)
  have "of_int a < pow2 (e + 1) * 2 ^ (bits b - 1)" using p(2) r(2) by simp
  also have "\<dots> \<le> pow2 (e + 1) * of_int b" using r(3) by simp
  finally have high: "x < pow2 (e + 1)" using b x by (simp add: divide_less_eq)
  have "lead_exp x = (if pow2 e \<le> x then e else e - 1)"
    by (simp add: lead_exp_def q e_def Let_def)
  with low high show "pow2 (lead_exp x) \<le> x" and "x < pow2 (lead_exp x + 1)"
    by (auto split: if_splits)
qed

lemma round_half_even_near: "\<bar>of_int (round_half_even x) - x\<bar> \<le> 1 / 2"
  unfolding round_half_even_def Let_def by (auto simp: abs_if; linarith)

text \<open>Rounding in the normal range is off by at most half a unit in the last of 24 places.\<close>

lemma f32_near:
  assumes "pow2 (- 126) \<le> x" and "x < 2 ^ 127"
  obtains r where "f32 x = Finite r" and "\<bar>r - x\<bar> \<le> x / 2 ^ 24"
proof -
  have pos: "0 < x" using assms(1) pow2_pos [of "- 126"] by linarith
  have "pow2 (- 126) < pow2 (lead_exp x + 1)" using assms(1) lead_exp_bounds(2) [OF pos] by linarith
  then have "- 126 < lead_exp x + 1" using pow2_mono [of "lead_exp x + 1" "- 126"] by linarith
  then have e: "max (lead_exp x - 23) (- 149) = lead_exp x - 23" by simp
  define p where "p = pow2 (lead_exp x - 23)"
  define r where "r = of_int (round_half_even (x / p)) * p"
  have p: "0 < p" "p * 2 ^ 23 \<le> x"
    using lead_exp_bounds(1) [OF pos] pow2_add [of "lead_exp x - 23" 23] pow2_nat [of 23]
    by (simp_all add: p_def)
  have "r - x = (of_int (round_half_even (x / p)) - x / p) * p"
    using p(1) by (simp add: r_def left_diff_distrib)
  then have "\<bar>r - x\<bar> = \<bar>of_int (round_half_even (x / p)) - x / p\<bar> * p"
    using p(1) by (simp add: abs_mult)
  also have "\<dots> \<le> 1 / 2 * p" using round_half_even_near [of "x / p"] p(1) by (intro mult_right_mono) simp_all
  also have "\<dots> \<le> x / 2 ^ 24" using p(2) by (simp add: field_simps)
  finally have n: "\<bar>r - x\<bar> \<le> x / 2 ^ 24" .
  have "\<bar>r\<bar> \<le> x + x / 2 ^ 24" using n pos by linarith
  also have "\<dots> < 2 ^ 128" using assms(2) by simp
  finally have "f32 x = Finite r"
    using pos by (simp add: f32_def e p_def [symmetric] r_def [symmetric] Let_def)
  with n that show ?thesis by blast
qed

text \<open>
  The same with the relative error named: what is rounded is multiplied by a factor near one.
\<close>

lemma f32_factor:
  assumes "pow2 (- 126) \<le> x" and "x < 2 ^ 127"
  obtains d where "f32 x = Finite (x * (1 + d))" and "\<bar>d\<bar> \<le> 1 / 2 ^ 24"
proof -
  obtain r where r: "f32 x = Finite r" "\<bar>r - x\<bar> \<le> x / 2 ^ 24" using f32_near [OF assms] .
  have x: "0 < x" using assms(1) pow2_pos [of "- 126"] by linarith
  define d where "d = (r - x) / x"
  have "r = x * (1 + d)" using x by (simp add: d_def field_simps)
  moreover have "\<bar>d\<bar> \<le> 1 / 2 ^ 24"
    using r(2) x by (simp add: d_def abs_divide divide_le_eq)
  ultimately show ?thesis using that r(1) by blast
qed

text \<open>Between powers of two in the normal range.\<close>

lemma f32_factor_between:
  assumes "1 / 2 ^ j \<le> x" and "x \<le> 2 ^ k" and "j \<le> 126" and "k \<le> 126"
  obtains d where "f32 x = Finite (x * (1 + d))" and "\<bar>d\<bar> \<le> 1 / 2 ^ 24"
proof (rule f32_factor)
  have "pow2 (- 126) \<le> pow2 (- int j)" using assms(3) by (intro pow2_mono) simp
  also have "pow2 (- int j) = 1 / 2 ^ j" by (simp add: pow2_def)
  finally show "pow2 (- 126) \<le> x" using assms(1) by linarith
  have "(2::rat) ^ k \<le> 2 ^ 126" using assms(4) by (intro power_increasing) simp_all
  also have "\<dots> < 2 ^ 127" by simp
  finally show "x < 2 ^ 127" using assms(2) by linarith
qed (rule that)

section \<open>The error of a quotient of converted integers\<close>

text \<open>Four roundings up and one down, each off by at most one part in 2 to the 24.\<close>

lemma five_roundings:
  fixes a b c d e :: rat
  assumes "\<bar>a\<bar> \<le> 1 / 2 ^ 24" "\<bar>b\<bar> \<le> 1 / 2 ^ 24" "\<bar>c\<bar> \<le> 1 / 2 ^ 24" "\<bar>d\<bar> \<le> 1 / 2 ^ 24"
    "\<bar>e\<bar> \<le> 1 / 2 ^ 24" 
  defines "f \<equiv> (1 + a) * (1 + b) * (1 + c) * (1 + d) / (1 + e)"
  shows "1 - 1 / 2 ^ 21 \<le> f" and "f \<le> 1 + 1 / 2 ^ 21"
proof -
  define l h :: rat where "l = 1 - 1 / 2 ^ 24" and "h = 1 + 1 / 2 ^ 24"
  have r: "l \<le> 1 + x \<and> 1 + x \<le> h" if "\<bar>x\<bar> \<le> 1 / 2 ^ 24" for x
    using that unfolding l_def h_def by linarith
  have p: "0 < l" "0 < h" by (simp_all add: l_def h_def)
  have up: "(1 + a) * (1 + b) * (1 + c) * (1 + d) \<le> h * h * h * h"
    using r [OF assms(1)] r [OF assms(2)] r [OF assms(3)] r [OF assms(4)] p
    by (intro mult_mono mult_nonneg_nonneg) linarith+
  have lo: "l * l * l * l \<le> (1 + a) * (1 + b) * (1 + c) * (1 + d)"
    using r [OF assms(1)] r [OF assms(2)] r [OF assms(3)] r [OF assms(4)] p
    by (intro mult_mono mult_nonneg_nonneg) linarith+
  have e: "l \<le> 1 + e" "1 + e \<le> h" using r [OF assms(5)] by simp_all
  have "(1 - 1 / 2 ^ 21) * (1 + e) \<le> (1 - 1 / 2 ^ 21) * h" using e by (intro mult_left_mono) simp_all
  also have "\<dots> \<le> l * l * l * l" by (simp add: l_def h_def)
  finally show "1 - 1 / 2 ^ 21 \<le> f" using lo e p by (simp add: f_def le_divide_eq)
  have "h * h * h * h \<le> (1 + 1 / 2 ^ 21) * l" by (simp add: l_def h_def)
  also have "\<dots> \<le> (1 + 1 / 2 ^ 21) * (1 + e)" using e by (intro mult_left_mono) simp_all
  finally show "f \<le> 1 + 1 / 2 ^ 21" using up e p by (simp add: f_def divide_le_eq)
qed

lemma near_one:
  fixes d :: rat
  assumes "\<bar>d\<bar> \<le> 1 / 2 ^ 24"
  shows "1 / 2 \<le> 1 + d" and "1 + d \<le> 2"
proof -
  have "1 / 2 ^ 24 \<le> (1 / 2 :: rat)" by simp
  with assms show "1 / 2 \<le> 1 + d" and "1 + d \<le> 2" by linarith+
qed

lemma near_one_mult:
  fixes d x :: rat
  assumes "\<bar>d\<bar> \<le> 1 / 2 ^ 24" and "a \<le> x" and "x \<le> b" and "0 \<le> a"
  shows "a / 2 \<le> x * (1 + d)" and "x * (1 + d) \<le> 2 * b"
proof -
  note n = near_one [OF assms(1)]
  have "a * (1 / 2) \<le> x * (1 + d)" "x * (1 + d) \<le> b * 2"
    using n assms(2-4) by (intro mult_mono; linarith)+
  then show "a / 2 \<le> x * (1 + d)" and "x * (1 + d) \<le> 2 * b" by simp_all
qed

text \<open>Converting a positive 64 bit integer, and the range of a quotient.\<close>

lemma float_of_int_near:
  assumes "0 < n" and "n < 2 ^ 63"
  obtains d where "float_of_int n = Finite (of_int n * (1 + d))" and "\<bar>d\<bar> \<le> 1 / 2 ^ 24"
    and "1 / 2 \<le> of_int n * (1 + d)" and "of_int n * (1 + d) \<le> 2 ^ 64"
proof -
  have q: "1 \<le> rat_of_int n" "rat_of_int n \<le> 2 ^ 63"
    using assms of_int_le_iff [of n "2 ^ 63", where 'a = rat] by simp_all
  then obtain d where d: "f32 (of_int n) = Finite (of_int n * (1 + d))" "\<bar>d\<bar> \<le> 1 / 2 ^ 24"
    using f32_factor_between [of 0 "of_int n" 63] by auto
  show ?thesis using that [of d] d near_one_mult [OF d(2) q] by (simp add: float_of_int_def)
qed

lemma quotient_range:
  fixes u v :: rat
  assumes "1 / 2 ^ j \<le> u" and "u \<le> 2 ^ l" and "1 / 2 \<le> v" and "v \<le> 2 ^ 64"
  shows "1 / 2 ^ (j + 64) \<le> u / v" and "u / v \<le> 2 ^ Suc l"
proof -
  have v: "0 < v" using assms(3) by linarith
  have "1 / 2 ^ (j + 64) * v \<le> 1 / 2 ^ (j + 64) * 2 ^ 64"
    using assms(4) by (intro mult_left_mono) simp_all
  also have "\<dots> \<le> u" using assms(1) by (simp add: power_add)
  finally show "1 / 2 ^ (j + 64) \<le> u / v" using v by (simp add: le_divide_eq)
  have "u \<le> 2 ^ Suc l * (1 / 2)" using assms(2) by simp
  also have "\<dots> \<le> 2 ^ Suc l * v" using assms(3) by (intro mult_left_mono) simp_all
  finally show "u / v \<le> 2 ^ Suc l" using v by (simp add: divide_le_eq)
qed

text \<open>The quotient the program computes, in the range of the periods it can be given.\<close>

lemma float_quotient:
  assumes p: "0 < p" "p < 2 ^ 63" and r: "0 < r" "r < 2 ^ 63" and k: "0 < k" "k < 2 ^ 63"
  obtains f where
    "fdiv (fmul (fdiv (float_of_int p) (float_of_int k)) (float_of_int k)) (float_of_int r) =
       Finite (of_int p / of_int r * f)"
    and "1 - 1 / 2 ^ 21 \<le> f" and "f \<le> 1 + 1 / 2 ^ 21"
proof -
  obtain d1 where d1: "float_of_int p = Finite (of_int p * (1 + d1))" "\<bar>d1\<bar> \<le> 1 / 2 ^ 24"
    "1 / 2 \<le> of_int p * (1 + d1)" "of_int p * (1 + d1) \<le> 2 ^ 64"
    by (rule float_of_int_near [OF p])
  obtain dt where dt: "float_of_int k = Finite (of_int k * (1 + dt))" "\<bar>dt\<bar> \<le> 1 / 2 ^ 24"
    "1 / 2 \<le> of_int k * (1 + dt)" "of_int k * (1 + dt) \<le> 2 ^ 64"
    by (rule float_of_int_near [OF k])
  obtain d4 where d4: "float_of_int r = Finite (of_int r * (1 + d4))" "\<bar>d4\<bar> \<le> 1 / 2 ^ 24"
    "1 / 2 \<le> of_int r * (1 + d4)" "of_int r * (1 + d4) \<le> 2 ^ 64"
    by (rule float_of_int_near [OF r])
  define x t y where "x = of_int p * (1 + d1)" and "t = of_int k * (1 + dt)" and "y = of_int r * (1 + d4)"
  note xty = d1(3,4) [folded x_def] dt(3,4) [folded t_def] d4(3,4) [folded y_def]
  have d: "\<exists>d. f32 u = Finite (u * (1 + d)) \<and> \<bar>d\<bar> \<le> 1 / 2 ^ 24"
    if "1 / 2 ^ j \<le> u" "u \<le> 2 ^ l" "j \<le> 126" "l \<le> 126" for u j l
    by (rule f32_factor_between [OF that]) blast
  obtain d2 where d2: "f32 (x / t) = Finite (x / t * (1 + d2))" "\<bar>d2\<bar> \<le> 1 / 2 ^ 24"
    using d [of 65 "x / t" 65] quotient_range [of 1 x 64 t] xty by auto
  define x2 where "x2 = x * (1 + d2)"
  have x2: "1 / 2 / 2 \<le> x2" "x2 \<le> 2 * 2 ^ 64"
    using near_one_mult [OF d2(2) xty(1,2)] by (simp_all add: x2_def)
  obtain d3 where d3: "f32 x2 = Finite (x2 * (1 + d3))" "\<bar>d3\<bar> \<le> 1 / 2 ^ 24"
    using d [of 2 x2 65] x2 by auto
  define x3 where "x3 = x2 * (1 + d3)"
  have x3: "1 / 2 / 2 / 2 \<le> x3" "x3 \<le> 2 * (2 * 2 ^ 64)"
    using near_one_mult [OF d3(2) x2] by (simp_all add: x3_def)
  define z where "z = x3 / y"
  obtain d5 where d5: "f32 z = Finite (z * (1 + d5))" "\<bar>d5\<bar> \<le> 1 / 2 ^ 24"
    using d [of 67 z 67] quotient_range [of 3 x3 66 y] x3 xty by (auto simp: z_def)
  define f where "f = (1 + d1) * (1 + d2) * (1 + d3) * (1 + d5) / (1 + d4)"
  have "t \<noteq> 0" "y \<noteq> 0" using xty by auto
  then have "fdiv (fmul (fdiv (float_of_int p) (float_of_int k)) (float_of_int k)) (float_of_int r) =
      Finite (z * (1 + d5))"
    using d5(1) by (simp add: d1(1) dt(1) d4(1) x_def [symmetric] t_def [symmetric]
        y_def [symmetric] d2(1) x2_def [symmetric] d3(1) x3_def [symmetric] z_def [symmetric])
  also have "z * (1 + d5) = of_int p / of_int r * f" by (simp add: z_def f_def x_def y_def x2_def x3_def)
  finally show ?thesis
    using that [of f] five_roundings [OF d1(2) d2(2) d3(2) d5(2) d4(2)] unfolding f_def by blast
qed

end
