(* ===== verification/Interfaces.thy ===== *)
theory Interfaces
  imports Labels CFloat
begin

text \<open>
  What the program uses of code that is not in the repository: the component interfaces
  of libopenpresso, the steady clock and the file system, as one record of operations
  over an abstract state \<open>'d\<close> of the outside world. Every definition of the model takes
  such a record as its argument; nothing is assumed about it unless a theorem names the
  assumption. An operation of the record may throw.
\<close>

section \<open>Values exchanged with libopenpresso\<close>

text \<open>
  Temperatures, pressures, weights and flow rates are the integer types of
  \<^verbatim>\<open>libopenpresso/types.hpp\<close> and are modelled by \<open>int\<close>: their widths are not in the
  repository, signed overflow is undefined behaviour, and \<open>fits_units\<close> below says which
  values a float may be converted to. A \<^verbatim>\<open>time_delta_t\<close> is its tick count.
\<close>

datatype step_target = ConstantPressure int | ConstantFlow int

datatype advance_condition = Never | OnTotalTime int | OnWeight int | OnStepTime int

text \<open>
  The two closures that the status manager registers with the temperature sensor, as
  data: the values they capture by copy and their mutable member.
\<close>

datatype temperature_callback =
    FixedRate bool int int nat nat
  | VariableRate bool int int "int option"

datatype ifstream_result = ReadNotOpen | ReadFailed | Content string

datatype ofstream_result = WriteNotOpen | WriteFailed | Written

record 'd lib =
  ctl_activate :: "label \<Rightarrow> ('d, unit) prog"
  ctl_deactivate :: "label \<Rightarrow> ('d, unit) prog"
  ctl_isActive :: "label \<Rightarrow> 'd \<Rightarrow> bool"
  out_setState :: "label \<Rightarrow> bool \<Rightarrow> ('d, unit) prog"
  out_getState :: "label \<Rightarrow> 'd \<Rightarrow> bool"
  in_getState :: "label \<Rightarrow> ('d, bool) prog"
  temp_getTarget :: "label \<Rightarrow> ('d, int) prog"
  temp_setTarget :: "label \<Rightarrow> int \<Rightarrow> ('d, unit) prog"
  prof_setSteps :: "(step_target \<times> advance_condition) list \<Rightarrow> ('d, unit) prog"
  prof_setAutoStop :: "advance_condition \<Rightarrow> ('d, unit) prog"
  prof_register :: "('d, nat) prog"
  prof_unregister :: "nat \<Rightarrow> ('d, unit) prog"
  in_register :: "label \<Rightarrow> ('d, nat) prog"
  in_unregister :: "label \<Rightarrow> nat \<Rightarrow> ('d, unit) prog"
  weight_tare :: "('d, unit) prog"
  sensor_getTemperature :: "('d, int) prog"
  sensor_fixedUpdateRate :: "'d \<Rightarrow> int option"
  sensor_register :: "temperature_callback \<Rightarrow> ('d, nat) prog"
  sensor_unregister :: "nat \<Rightarrow> ('d, unit) prog"
  lookup :: "label \<Rightarrow> ('d, unit) prog"
  steady_now :: "'d \<Rightarrow> int"
  ticks_per_second :: int
  fits_units :: "int \<Rightarrow> bool"
  fits_ticks :: "int \<Rightarrow> bool"
  fs_read :: "string \<Rightarrow> 'd \<Rightarrow> ifstream_result"
  fs_write :: "string \<Rightarrow> string \<Rightarrow> 'd \<Rightarrow> 'd \<times> ofstream_result"

section \<open>Named hypotheses\<close>

definition actuators :: "label set" where
  "actuators = {BREW_PROFILER_LABEL, STEAM_CONTROLLER_LABEL, BREW_TEMPERATURE_CONTROLLER_LABEL}"

definition leds :: "label set" where
  "leds = {POWER_LED_LABEL, BREW_LED_LABEL, STEAM_LED_LABEL}"

lemma in_actuators [simp]:
  "BREW_PROFILER_LABEL \<in> actuators" "STEAM_CONTROLLER_LABEL \<in> actuators"
  "BREW_TEMPERATURE_CONTROLLER_LABEL \<in> actuators"
  by (simp_all add: actuators_def)

lemma in_leds [simp]:
  "POWER_LED_LABEL \<in> leds" "BREW_LED_LABEL \<in> leds" "STEAM_LED_LABEL \<in> leds"
  by (simp_all add: leds_def)

text \<open>No device operation throws.\<close>

definition no_device_errors :: "'d lib \<Rightarrow> bool" where
  "no_device_errors L \<longleftrightarrow>
     (\<forall>l d. snd (ctl_activate L l d) = Inr ()) \<and>
     (\<forall>l d. snd (ctl_deactivate L l d) = Inr ()) \<and>
     (\<forall>l b d. snd (out_setState L l b d) = Inr ()) \<and>
     (\<forall>l d. \<exists>t. snd (temp_getTarget L l d) = Inr t) \<and>
     (\<forall>l t d. snd (temp_setTarget L l t d) = Inr ()) \<and>
     (\<forall>xs d. snd (prof_setSteps L xs d) = Inr ()) \<and>
     (\<forall>c d. snd (prof_setAutoStop L c d) = Inr ()) \<and>
     (\<forall>d. \<exists>n. snd (prof_register L d) = Inr n) \<and>
     (\<forall>n d. snd (prof_unregister L n d) = Inr ()) \<and>
     (\<forall>d. snd (weight_tare L d) = Inr ()) \<and>
     (\<forall>d. \<exists>t. snd (sensor_getTemperature L d) = Inr t) \<and>
     (\<forall>cb d. \<exists>n. snd (sensor_register L cb d) = Inr n) \<and>
     (\<forall>n d. snd (sensor_unregister L n d) = Inr ())"

text \<open>
  The activity of the brew profiler and of the two temperature controllers is what
  \<^verbatim>\<open>activate\<close> and \<^verbatim>\<open>deactivate\<close> last made it: no other operation changes it.
\<close>

definition activity_frames :: "'d lib \<Rightarrow> bool" where
  "activity_frames L \<longleftrightarrow>
     (\<forall>a \<in> actuators.
        (\<forall>l b. frame (ctl_isActive L a) (out_setState L l b)) \<and>
        (\<forall>l. frame (ctl_isActive L a) (temp_getTarget L l)) \<and>
        (\<forall>l t. frame (ctl_isActive L a) (temp_setTarget L l t)) \<and>
        (\<forall>xs. frame (ctl_isActive L a) (prof_setSteps L xs)) \<and>
        (\<forall>c. frame (ctl_isActive L a) (prof_setAutoStop L c)) \<and>
        frame (ctl_isActive L a) (prof_register L) \<and>
        (\<forall>n. frame (ctl_isActive L a) (prof_unregister L n)) \<and>
        frame (ctl_isActive L a) (weight_tare L) \<and>
        frame (ctl_isActive L a) (sensor_getTemperature L) \<and>
        (\<forall>cb. frame (ctl_isActive L a) (sensor_register L cb)) \<and>
        (\<forall>n. frame (ctl_isActive L a) (sensor_unregister L n)) \<and>
        (\<forall>p c. \<forall>d. ctl_isActive L a (fst (fs_write L p c d)) = ctl_isActive L a d))"

definition activity_switches :: "'d lib \<Rightarrow> bool" where
  "activity_switches L \<longleftrightarrow>
     (\<forall>a \<in> actuators. \<forall>l \<in> actuators. \<forall>d.
        ctl_isActive L a (fst (ctl_activate L l d)) = (a = l \<or> ctl_isActive L a d)) \<and>
     (\<forall>a \<in> actuators. \<forall>l \<in> actuators. \<forall>d.
        ctl_isActive L a (fst (ctl_deactivate L l d)) = (a \<noteq> l \<and> ctl_isActive L a d))"

definition device_laws :: "'d lib \<Rightarrow> bool" where
  "device_laws L \<longleftrightarrow> no_device_errors L \<and> activity_frames L \<and> activity_switches L"

text \<open>An LED shows what it was last set to; nothing but \<^verbatim>\<open>setState\<close> changes it.\<close>

definition led_laws :: "'d lib \<Rightarrow> bool" where
  "led_laws L \<longleftrightarrow>
     (\<forall>k \<in> leds. \<forall>l \<in> leds. \<forall>b d.
        out_getState L k (fst (out_setState L l b d)) = (if k = l then b else out_getState L k d)) \<and>
     (\<forall>k \<in> leds.
        frame (out_getState L k) (sensor_getTemperature L) \<and>
        (\<forall>cb. frame (out_getState L k) (sensor_register L cb)) \<and>
        (\<forall>n. frame (out_getState L k) (sensor_unregister L n)) \<and>
        (\<forall>l. frame (out_getState L k) (ctl_activate L l)) \<and>
        (\<forall>l. frame (out_getState L k) (ctl_deactivate L l)) \<and>
        (\<forall>l. frame (out_getState L k) (temp_getTarget L l)) \<and>
        (\<forall>l t. frame (out_getState L k) (temp_setTarget L l t)))"

lemma device_lawsD:
  assumes "device_laws L"
  shows "snd (ctl_activate L l d) = Inr ()" "snd (ctl_deactivate L l d) = Inr ()"
    "snd (out_setState L l b d) = Inr ()" "snd (temp_setTarget L l t d) = Inr ()"
    "snd (prof_setSteps L xs d) = Inr ()" "snd (prof_setAutoStop L c d) = Inr ()"
    "snd (weight_tare L d) = Inr ()" "snd (sensor_unregister L n d) = Inr ()"
    "\<exists>t. snd (temp_getTarget L l d) = Inr t" "\<exists>t. snd (sensor_getTemperature L d) = Inr t"
    "\<exists>m. snd (sensor_register L cb d) = Inr m"
    "\<exists>m. snd (prof_register L d) = Inr m" "snd (prof_unregister L n d) = Inr ()"
  using assms by (simp_all add: device_laws_def no_device_errors_def)

lemma no_device_errors_values:
  assumes "no_device_errors L"
  shows "\<exists>t. snd (temp_getTarget L l d) = Inr t" "\<exists>t. snd (sensor_getTemperature L d) = Inr t"
    "\<exists>m. snd (sensor_register L cb d) = Inr m"
  using assms by (simp_all add: no_device_errors_def)

lemma activity_framesD [frames]:
  assumes "device_laws L" and "a \<in> actuators"
  shows "frame (ctl_isActive L a) (out_setState L l b)"
    "frame (ctl_isActive L a) (temp_getTarget L l)"
    "frame (ctl_isActive L a) (temp_setTarget L l t)"
    "frame (ctl_isActive L a) (prof_setSteps L xs)"
    "frame (ctl_isActive L a) (prof_setAutoStop L c)"
    "frame (ctl_isActive L a) (prof_register L)"
    "frame (ctl_isActive L a) (prof_unregister L n)"
    "frame (ctl_isActive L a) (weight_tare L)"
    "frame (ctl_isActive L a) (sensor_getTemperature L)"
    "frame (ctl_isActive L a) (sensor_register L cb)"
    "frame (ctl_isActive L a) (sensor_unregister L n)"
  using assms by (simp_all add: device_laws_def activity_frames_def)

lemma activity_fs_write:
  "device_laws L \<Longrightarrow> a \<in> actuators \<Longrightarrow>
   ctl_isActive L a (fst (fs_write L p c d)) = ctl_isActive L a d"
  by (simp add: device_laws_def activity_frames_def)

lemma activity_switchesD:
  assumes "device_laws L" and "a \<in> actuators" and "l \<in> actuators"
  shows "ctl_isActive L a (fst (ctl_activate L l d)) = (a = l \<or> ctl_isActive L a d)"
    "ctl_isActive L a (fst (ctl_deactivate L l d)) = (a \<noteq> l \<and> ctl_isActive L a d)"
  using assms by (simp_all add: device_laws_def activity_switches_def)

lemma led_lawsD:
  assumes "led_laws L" and "k \<in> leds" and "l \<in> leds"
  shows "out_getState L k (fst (out_setState L l b d)) = (if k = l then b else out_getState L k d)"
  using assms by (simp add: led_laws_def)

lemma led_framesD [frames]:
  assumes "led_laws L" and "k \<in> leds"
  shows "frame (out_getState L k) (sensor_getTemperature L)"
    "frame (out_getState L k) (sensor_register L cb)"
    "frame (out_getState L k) (sensor_unregister L n)"
    "frame (out_getState L k) (ctl_activate L l)"
    "frame (out_getState L k) (ctl_deactivate L l)"
    "frame (out_getState L k) (temp_getTarget L l)"
    "frame (out_getState L k) (temp_setTarget L l t)"
  using assms by (simp_all add: led_laws_def)

section \<open>Chrono arithmetic on time deltas\<close>

text \<open>
  \<^verbatim>\<open>duration_cast<duration<float>>(p)\<close> for a tick count \<open>p\<close>, the quotient of such a
  duration by a \<^verbatim>\<open>time_delta_t\<close> (both converted to float ticks, then divided), and the
  conversion of float seconds to ticks; all intermediate values are binary32.
\<close>

definition ticks_to_float_seconds :: "'d lib \<Rightarrow> int \<Rightarrow> float32" where
  "ticks_to_float_seconds L p = fdiv (float_of_int p) (float_of_int (ticks_per_second L))"

definition float_seconds_over_ticks :: "'d lib \<Rightarrow> float32 \<Rightarrow> int \<Rightarrow> float32" where
  "float_seconds_over_ticks L x r =
     fdiv (fmul x (float_of_int (ticks_per_second L))) (float_of_int r)"

definition float_seconds_to_ticks :: "'d lib \<Rightarrow> float32 \<Rightarrow> exn + int" where
  "float_seconds_to_ticks L x =
     float_to_int (fits_ticks L) (fmul x (float_of_int (ticks_per_second L)))"

end
