(* ===== verification/Leds.thy ===== *)
theory Leds
  imports Interfaces
begin

text \<open>
  \<^verbatim>\<open>leds/leds_handler\<close>: the three indicator LEDs. The handler keeps no state of its own
  beside its three outputs; its operations act on the world.
\<close>

definition LedsHandler_create :: "'d lib \<Rightarrow> 'd stmt" where
  "LedsHandler_create L = block
     [lookup L POWER_LED_LABEL, lookup L BREW_LED_LABEL, lookup L STEAM_LED_LABEL,
      ctl_activate L POWER_LED_LABEL, ctl_activate L BREW_LED_LABEL,
      ctl_activate L STEAM_LED_LABEL]"

definition LedsHandler_destroy :: "'d lib \<Rightarrow> 'd stmt" where
  "LedsHandler_destroy L = block
     [ctl_deactivate L POWER_LED_LABEL, ctl_deactivate L BREW_LED_LABEL,
      ctl_deactivate L STEAM_LED_LABEL]"

definition indicatePowerOff :: "'d lib \<Rightarrow> 'd stmt" where
  "indicatePowerOff L = block
     [out_setState L POWER_LED_LABEL False, out_setState L BREW_LED_LABEL False,
      out_setState L STEAM_LED_LABEL False]"

definition indicateBrewPreheat :: "'d lib \<Rightarrow> 'd stmt" where
  "indicateBrewPreheat L = block
     [out_setState L POWER_LED_LABEL True, out_setState L BREW_LED_LABEL False,
      out_setState L STEAM_LED_LABEL False]"

definition indicateBrewReady :: "'d lib \<Rightarrow> 'd stmt" where
  "indicateBrewReady L = block
     [out_setState L POWER_LED_LABEL True, out_setState L BREW_LED_LABEL True,
      out_setState L STEAM_LED_LABEL False]"

definition indicateBrewOverheat :: "'d lib \<Rightarrow> 'd stmt" where
  "indicateBrewOverheat L = block
     [out_setState L POWER_LED_LABEL True, out_setState L BREW_LED_LABEL False,
      out_setState L STEAM_LED_LABEL False]"

definition indicateSteamPreheat :: "'d lib \<Rightarrow> 'd stmt" where
  "indicateSteamPreheat L = block
     [out_setState L POWER_LED_LABEL True, out_setState L BREW_LED_LABEL False,
      out_setState L STEAM_LED_LABEL False]"

definition indicateSteamReady :: "'d lib \<Rightarrow> 'd stmt" where
  "indicateSteamReady L = block
     [out_setState L POWER_LED_LABEL True, out_setState L BREW_LED_LABEL False,
      out_setState L STEAM_LED_LABEL True]"

definition indicateSteamOverheat :: "'d lib \<Rightarrow> 'd stmt" where
  "indicateSteamOverheat L = block
     [out_setState L POWER_LED_LABEL True, out_setState L BREW_LED_LABEL False,
      out_setState L STEAM_LED_LABEL False]"

lemmas indicate_defs =
  indicatePowerOff_def indicateBrewPreheat_def indicateBrewReady_def
  indicateBrewOverheat_def indicateSteamPreheat_def indicateSteamReady_def
  indicateSteamOverheat_def

section \<open>What the LEDs show\<close>

definition led_display :: "'d lib \<Rightarrow> 'd \<Rightarrow> bool \<times> bool \<times> bool" where
  "led_display L d =
     (out_getState L POWER_LED_LABEL d, out_getState L BREW_LED_LABEL d,
      out_getState L STEAM_LED_LABEL d)"

text \<open>Every indication sets all three LEDs; this is the pattern the seven share.\<close>

definition set_leds :: "'d lib \<Rightarrow> bool \<Rightarrow> bool \<Rightarrow> bool \<Rightarrow> 'd stmt" where
  "set_leds L p b s = block
     [out_setState L POWER_LED_LABEL p, out_setState L BREW_LED_LABEL b,
      out_setState L STEAM_LED_LABEL s]"

lemma indicate_set_leds:
  "indicatePowerOff L = set_leds L False False False"
  "indicateBrewPreheat L = set_leds L True False False"
  "indicateBrewReady L = set_leds L True True False"
  "indicateBrewOverheat L = set_leds L True False False"
  "indicateSteamPreheat L = set_leds L True False False"
  "indicateSteamReady L = set_leds L True False True"
  "indicateSteamOverheat L = set_leds L True False False"
  by (simp_all add: indicate_defs set_leds_def)

lemma set_leds_ok:
  "no_device_errors L \<Longrightarrow> snd (set_leds L p b s d) = Inr ()"
  by (simp add: set_leds_def no_device_errors_def)

lemma set_leds_display:
  "led_laws L \<Longrightarrow> snd (set_leds L p b s d) = Inr () \<Longrightarrow>
   led_display L (fst (set_leds L p b s d)) = (p, b, s)"
  by (auto simp: set_leds_def led_display_def led_lawsD split: sum.splits)

lemma frame_set_leds [frames]:
  "device_laws L \<Longrightarrow> a \<in> actuators \<Longrightarrow> frame (ctl_isActive L a) (set_leds L p b s)"
  unfolding set_leds_def by (intro frames)

end
