(* ===== verification/StatusManager.thy ===== *)
theory StatusManager
  imports Leds
begin

text \<open>
  \<^verbatim>\<open>state_manager/status_manager\<close>: the heating status of the machine, derived from the
  temperature sensor, shown by the LEDs and published to one callback. The state record
  holds the class members, the world \<open>dev\<close> that the devices live in, the \<open>outbox\<close>
  that the published statuses go to (whatever \<open>m_callback\<close> makes of them), and
  \<open>sensorCallback\<close>: the closure that the temperature sensor holds for this manager
  between \<^verbatim>\<open>registerCallback\<close> and \<^verbatim>\<open>unregisterCallback\<close>.
\<close>

datatype HeatingStatus = DISABLED | Preheat | Ready | Overheat

record ('d, 'o) status_manager =
  dev :: 'd
  outbox :: 'o
  m_callback :: "HeatingStatus \<Rightarrow> 'o \<Rightarrow> 'o"
  m_heatingStatus :: HeatingStatus
  m_heatingStatusCached :: HeatingStatus
  m_brewTemperatureWindow :: int
  m_steamTemperatureWindow :: int
  m_readyHysteresisPeriod :: int
  m_temperatureCallback :: "nat option"
  sensorCallback :: "temperature_callback option"

definition on_dev ::
    "('d, 'a) prog \<Rightarrow> (('d, 'o, 'z) status_manager_scheme, 'a) prog" where
  "on_dev m = zoom dev (\<lambda>d s. s\<lparr>dev := d\<rparr>) m"

section \<open>Operations\<close>

definition StatusManager_create ::
    "'d lib \<Rightarrow> int \<Rightarrow> int \<Rightarrow> int \<Rightarrow> 'o \<Rightarrow> ('d, ('d, 'o) status_manager) prog" where
  "StatusManager_create L brewWindow steamWindow period out =
     bindp (lookup L TEMPERATURE_SENSOR_LABEL) (\<lambda>_. \<lambda>d.
       (d, Inr \<lparr>dev = d, outbox = out, m_callback = (\<lambda>_ q. q),
                m_heatingStatus = DISABLED, m_heatingStatusCached = DISABLED,
                m_brewTemperatureWindow = brewWindow, m_steamTemperatureWindow = steamWindow,
                m_readyHysteresisPeriod = period,
                m_temperatureCallback = None, sensorCallback = None\<rparr>))"

definition getCurrentStatus :: "('d, 'o, 'z) status_manager_scheme \<Rightarrow> HeatingStatus" where
  "getCurrentStatus s = m_heatingStatus s"

definition setCallback ::
    "(HeatingStatus \<Rightarrow> 'o \<Rightarrow> 'o) \<Rightarrow> ('d, 'o, 'z) status_manager_scheme stmt" where
  "setCallback callback = act (\<lambda>s. s\<lparr>m_callback := callback\<rparr>)"

text \<open>\<^verbatim>\<open>std::exchange\<close> clears the descriptor before the sensor is called.\<close>

definition unregisterTemperatureCallback ::
    "'d lib \<Rightarrow> ('d, 'o, 'z) status_manager_scheme stmt" where
  "unregisterTemperatureCallback L s =
     (case m_temperatureCallback s of
        None \<Rightarrow> (s, Inr ())
      | Some descr \<Rightarrow>
          block [act (\<lambda>s. s\<lparr>m_temperatureCallback := None\<rparr>),
                 on_dev (sensor_unregister L descr),
                 act (\<lambda>s. s\<lparr>sensorCallback := None\<rparr>)] s)"

definition publishStatus ::
    "HeatingStatus \<Rightarrow> ('d, 'o, 'z) status_manager_scheme stmt" where
  "publishStatus status = branch (\<lambda>s. status \<noteq> m_heatingStatusCached s)
     (act (\<lambda>s. s\<lparr>m_heatingStatusCached := status, m_heatingStatus := status,
                 outbox := m_callback s status (outbox s)\<rparr>))
     skip"

definition applyStatus ::
    "'d lib \<Rightarrow> bool \<Rightarrow> HeatingStatus \<Rightarrow> ('d, 'o, 'z) status_manager_scheme stmt" where
  "applyStatus L steamMode status = block
     [if steamMode then
        (if status = Preheat then on_dev (indicateSteamPreheat L)
         else if status = Overheat then on_dev (indicateSteamOverheat L)
         else on_dev (indicateSteamReady L))
      else
        (if status = Preheat then on_dev (indicateBrewPreheat L)
         else if status = Overheat then on_dev (indicateBrewOverheat L)
         else on_dev (indicateBrewReady L)),
      publishStatus status]"

definition makeStatus :: "int \<Rightarrow> int \<Rightarrow> int \<Rightarrow> HeatingStatus" where
  "makeStatus temperature targetTemp temperatureWindow =
     (if temperature + temperatureWindow < targetTemp then Preheat
      else if temperature > targetTemp + temperatureWindow then Overheat
      else Ready)"

text \<open>
  \<^verbatim>\<open>std::max<size_t>(1, std::ceil(callsPerPeriod))\<close>; the conversion to \<^verbatim>\<open>size_t\<close> is
  undefined for a quotient out of range.
\<close>

definition requiredInvocations :: "'d lib \<Rightarrow> int \<Rightarrow> int \<Rightarrow> exn + nat" where
  "requiredInvocations L period updateRate =
     (case float_to_int fits_size_t
             (fceil (float_seconds_over_ticks L (ticks_to_float_seconds L period) updateRate)) of
        Inl e \<Rightarrow> Inl e
      | Inr n \<Rightarrow> Inr (max 1 (nat n)))"

definition makeFixedRateCallback ::
    "'d lib \<Rightarrow> bool \<Rightarrow> int \<Rightarrow> int \<Rightarrow> int \<Rightarrow>
     (('d, 'o, 'z) status_manager_scheme, temperature_callback) prog" where
  "makeFixedRateCallback L steamMode targetTemp temperatureWindow updateRate s =
     (case requiredInvocations L (m_readyHysteresisPeriod s) updateRate of
        Inl e \<Rightarrow> (s, Inl e)
      | Inr required \<Rightarrow> (s, Inr (FixedRate steamMode targetTemp temperatureWindow required 0)))"

definition makeVariableRateCallback ::
    "bool \<Rightarrow> int \<Rightarrow> int \<Rightarrow>
     (('d, 'o, 'z) status_manager_scheme, temperature_callback) prog" where
  "makeVariableRateCallback steamMode targetTemp temperatureWindow =
     return (VariableRate steamMode targetTemp temperatureWindow None)"

definition makeTemperatureCallback ::
    "'d lib \<Rightarrow> bool \<Rightarrow> int \<Rightarrow> int \<Rightarrow> int option \<Rightarrow>
     (('d, 'o, 'z) status_manager_scheme, temperature_callback) prog" where
  "makeTemperatureCallback L steamMode targetTemp temperatureWindow updateRate =
     (case updateRate of
        Some rate \<Rightarrow> makeFixedRateCallback L steamMode targetTemp temperatureWindow rate
      | None \<Rightarrow> makeVariableRateCallback steamMode targetTemp temperatureWindow)"

definition registerTemperatureCallback ::
    "'d lib \<Rightarrow> temperature_callback \<Rightarrow> ('d, 'o, 'z) status_manager_scheme stmt" where
  "registerTemperatureCallback L cb =
     bindp (on_dev (sensor_register L cb))
       (\<lambda>descr. act (\<lambda>s. s\<lparr>m_temperatureCallback := Some descr, sensorCallback := Some cb\<rparr>))"

definition indicateBrewState ::
    "'d lib \<Rightarrow> int \<Rightarrow> ('d, 'o, 'z) status_manager_scheme stmt" where
  "indicateBrewState L targetTemp = block
     [unregisterTemperatureCallback L,
      bindp (on_dev (sensor_getTemperature L)) (\<lambda>temperature.
      bindp (get m_brewTemperatureWindow) (\<lambda>window.
        applyStatus L False (makeStatus temperature targetTemp window))),
      bindp (get m_brewTemperatureWindow) (\<lambda>window.
      bindp (get (\<lambda>s. sensor_fixedUpdateRate L (dev s))) (\<lambda>rate.
      bindp (makeTemperatureCallback L False targetTemp window rate) (\<lambda>callback.
        registerTemperatureCallback L callback)))]"

definition indicateSteamState ::
    "'d lib \<Rightarrow> int \<Rightarrow> ('d, 'o, 'z) status_manager_scheme stmt" where
  "indicateSteamState L targetTemp = block
     [unregisterTemperatureCallback L,
      bindp (on_dev (sensor_getTemperature L)) (\<lambda>temperature.
      bindp (get m_steamTemperatureWindow) (\<lambda>window.
        applyStatus L True (makeStatus temperature targetTemp window))),
      bindp (get m_steamTemperatureWindow) (\<lambda>window.
      bindp (get (\<lambda>s. sensor_fixedUpdateRate L (dev s))) (\<lambda>rate.
      bindp (makeTemperatureCallback L True targetTemp window rate) (\<lambda>callback.
        registerTemperatureCallback L callback)))]"

definition disable :: "'d lib \<Rightarrow> ('d, 'o, 'z) status_manager_scheme stmt" where
  "disable L = block
     [unregisterTemperatureCallback L, on_dev (indicatePowerOff L), publishStatus DISABLED]"

definition StatusManager_destroy :: "'d lib \<Rightarrow> ('d, 'o, 'z) status_manager_scheme stmt" where
  "StatusManager_destroy L = unregisterTemperatureCallback L"

section \<open>The sensor callbacks\<close>

text \<open>
  One call of the registered closure with a temperature. The closure updates its mutable
  member, which lives in the copy the sensor holds. The clock is read only where the code
  reads it.
\<close>

definition set_closure ::
    "temperature_callback \<Rightarrow> ('d, 'o, 'z) status_manager_scheme stmt" where
  "set_closure cb = act (\<lambda>s. s\<lparr>sensorCallback := Some cb\<rparr>)"

definition fixedRateCallback ::
    "'d lib \<Rightarrow> bool \<Rightarrow> int \<Rightarrow> int \<Rightarrow> nat \<Rightarrow> nat \<Rightarrow> int \<Rightarrow>
     ('d, 'o, 'z) status_manager_scheme stmt" where
  "fixedRateCallback L steamMode target window required inRange temperature =
     (let status = makeStatus temperature target window;
          closure = FixedRate steamMode target window required
      in if status \<noteq> Ready
         then block [set_closure (closure 0), applyStatus L steamMode status]
         else branch (\<lambda>s. m_heatingStatusCached s = Ready) skip
           (if inRange + 1 < required then set_closure (closure (inRange + 1))
            else block [set_closure (closure (inRange + 1)), applyStatus L steamMode Ready]))"

definition variableRateCallback ::
    "'d lib \<Rightarrow> bool \<Rightarrow> int \<Rightarrow> int \<Rightarrow> int option \<Rightarrow> int \<Rightarrow>
     ('d, 'o, 'z) status_manager_scheme stmt" where
  "variableRateCallback L steamMode target window inRangeSince temperature =
     (let status = makeStatus temperature target window;
          closure = VariableRate steamMode target window
      in if status \<noteq> Ready
         then block [set_closure (closure None), applyStatus L steamMode status]
         else branch (\<lambda>s. m_heatingStatusCached s = Ready) skip
           (bindp (get (\<lambda>s. steady_now L (dev s))) (\<lambda>now.
            let since = (case inRangeSince of None \<Rightarrow> now | Some t \<Rightarrow> t) in
            branch (\<lambda>s. (now - since) * ticks_per_second L \<ge>
                        m_readyHysteresisPeriod s * 1000000000)
              (block [set_closure (closure None), applyStatus L steamMode Ready])
              (set_closure (closure (Some since))))))"

definition temperatureCallback ::
    "'d lib \<Rightarrow> temperature_callback \<Rightarrow> int \<Rightarrow> ('d, 'o, 'z) status_manager_scheme stmt" where
  "temperatureCallback L cb temperature =
     (case cb of
        FixedRate steamMode target window required inRange \<Rightarrow>
          fixedRateCallback L steamMode target window required inRange temperature
      | VariableRate steamMode target window inRangeSince \<Rightarrow>
          variableRateCallback L steamMode target window inRangeSince temperature)"

text \<open>The sensor delivers a temperature: it calls the closure it holds, if any.\<close>

definition deliverTemperature ::
    "'d lib \<Rightarrow> int \<Rightarrow> ('d, 'o, 'z) status_manager_scheme stmt" where
  "deliverTemperature L temperature s =
     (case sensorCallback s of
        None \<Rightarrow> (s, Inr ())
      | Some cb \<Rightarrow> temperatureCallback L cb temperature s)"


lemma StatusManager_create_result:
  "StatusManager_create L bw sw p q d = (d', Inr s) \<Longrightarrow>
   s = \<lparr>dev = d', outbox = q, m_callback = (\<lambda>_ q. q), m_heatingStatus = DISABLED,
        m_heatingStatusCached = DISABLED, m_brewTemperatureWindow = bw,
        m_steamTemperatureWindow = sw, m_readyHysteresisPeriod = p,
        m_temperatureCallback = None, sensorCallback = None\<rparr> \<and>
   d' = fst (lookup L TEMPERATURE_SENSOR_LABEL d)"
  by (cases "snd (lookup L TEMPERATURE_SENSOR_LABEL d)")
    (auto simp: StatusManager_create_def bindp_def)

section \<open>Which devices stay untouched\<close>

definition deviceActive :: "'d lib \<Rightarrow> label \<Rightarrow> ('d, 'o, 'z) status_manager_scheme \<Rightarrow> bool" where
  "deviceActive L a s = ctl_isActive L a (dev s)"

lemma deviceActive_on_dev [frames]:
  "frame (ctl_isActive L a) m \<Longrightarrow> frame (deviceActive L a) (on_dev m)"
  by (simp add: frame_def on_dev_def zoom_def deviceActive_def)

lemma deviceActive_act [frames]:
  "(\<And>s. dev (g s) = dev s) \<Longrightarrow> frame (deviceActive L a) (act g)"
  by (simp add: frame_def prog_defs deviceActive_def)

lemma frame_unregisterTemperatureCallback [frames]:
  assumes "\<And>d s. f (s\<lparr>m_temperatureCallback := d\<rparr>) = f s"
    and "\<And>c s. f (s\<lparr>sensorCallback := c\<rparr>) = f s"
    and "\<And>n. frame f (on_dev (sensor_unregister L n))"
  shows "frame f (unregisterTemperatureCallback L)"
proof -
  have "frame f (block [act (\<lambda>s. s\<lparr>m_temperatureCallback := None\<rparr>),
      on_dev (sensor_unregister L descr), act (\<lambda>s. s\<lparr>sensorCallback := None\<rparr>)])" for descr
    by (intro frames assms)
  then show ?thesis
    by (auto simp: frame_def unregisterTemperatureCallback_def split: option.split)
qed

lemma frame_makeTemperatureCallback [frames]:
  "frame f (makeTemperatureCallback L b t w r)"
  by (auto simp: frame_def makeTemperatureCallback_def makeFixedRateCallback_def
      makeVariableRateCallback_def prog_defs split: option.split sum.split)

lemma deviceActive_applyStatus [frames]:
  "device_laws L \<Longrightarrow> a \<in> actuators \<Longrightarrow> frame (deviceActive L a) (applyStatus L b st)"
  unfolding applyStatus_def publishStatus_def indicate_set_leds by (intro frames) simp_all

lemma deviceActive_StatusManager [frames]:
  assumes "device_laws L" and "a \<in> actuators"
  shows "frame (deviceActive L a) (unregisterTemperatureCallback L)"
    "frame (deviceActive L a) (indicateBrewState L t)"
    "frame (deviceActive L a) (indicateSteamState L t)"
    "frame (deviceActive L a) (disable L)"
proof -
  show u: "frame (deviceActive L a) (unregisterTemperatureCallback L)"
    using assms by (intro frames) (simp_all add: deviceActive_def)
  show "frame (deviceActive L a) (indicateBrewState L t)"
    and "frame (deviceActive L a) (indicateSteamState L t)"
    and "frame (deviceActive L a) (disable L)"
    unfolding indicateBrewState_def indicateSteamState_def disable_def
      registerTemperatureCallback_def publishStatus_def indicate_set_leds
    using assms by (intro frames u; simp)+
qed

lemma deviceActive_temperatureCallback [frames]:
  assumes "device_laws L" and "a \<in> actuators"
  shows "frame (deviceActive L a) (temperatureCallback L cb t)"
proof (cases cb)
  case (FixedRate b tg w r n)
  have "frame (deviceActive L a) (fixedRateCallback L b tg w r n t)"
    unfolding fixedRateCallback_def set_closure_def Let_def
    using assms by (intro frames; simp)
  with FixedRate show ?thesis by (simp add: temperatureCallback_def)
next
  case (VariableRate b tg w since)
  have "frame (deviceActive L a) (variableRateCallback L b tg w since t)"
    unfolding variableRateCallback_def set_closure_def Let_def
    using assms by (intro frames; simp)
  with VariableRate show ?thesis by (simp add: temperatureCallback_def)
qed

lemma deviceActive_deliver [frames]:
  assumes "device_laws L" and "a \<in> actuators"
  shows "frame (deviceActive L a) (deliverTemperature L t)"
  using deviceActive_temperatureCallback [OF assms]
  by (auto simp: frame_def deliverTemperature_def split: option.split)

section \<open>Results of the operations\<close>

lemma fst_on_dev [simp]: "fst (on_dev m s) = s\<lparr>dev := fst (m (dev s))\<rparr>"
  by (simp add: on_dev_def zoom_def)

lemma snd_on_dev [simp]: "snd (on_dev m s) = snd (m (dev s))"
  by (simp add: on_dev_def zoom_def)

definition temperature_window :: "bool \<Rightarrow> ('d, 'o, 'z) status_manager_scheme \<Rightarrow> int" where
  "temperature_window steamMode s =
     (if steamMode then m_steamTemperatureWindow s else m_brewTemperatureWindow s)"

text \<open>The common body of \<open>indicateBrewState\<close> and \<open>indicateSteamState\<close>.\<close>

definition indicateState ::
    "'d lib \<Rightarrow> bool \<Rightarrow> int \<Rightarrow> ('d, 'o, 'z) status_manager_scheme stmt" where
  "indicateState L steamMode targetTemp = block
     [unregisterTemperatureCallback L,
      bindp (on_dev (sensor_getTemperature L)) (\<lambda>temperature.
      bindp (get (temperature_window steamMode)) (\<lambda>window.
        applyStatus L steamMode (makeStatus temperature targetTemp window))),
      bindp (get (temperature_window steamMode)) (\<lambda>window.
      bindp (get (\<lambda>s. sensor_fixedUpdateRate L (dev s))) (\<lambda>rate.
      bindp (makeTemperatureCallback L steamMode targetTemp window rate) (\<lambda>callback.
        registerTemperatureCallback L callback)))]"

lemma indicateState_eq:
  "indicateBrewState L = indicateState L False" "indicateSteamState L = indicateState L True"
  by (rule ext, simp add: indicateBrewState_def indicateSteamState_def indicateState_def
      temperature_window_def [abs_def])+

fun leds_for :: "bool \<Rightarrow> HeatingStatus \<Rightarrow> bool \<times> bool \<times> bool" where
  "leds_for steamMode DISABLED = (False, False, False)"
| "leds_for steamMode Ready = (True, \<not> steamMode, steamMode)"
| "leds_for steamMode _ = (True, False, False)"

fun closure_mode :: "temperature_callback \<Rightarrow> bool" where
  "closure_mode (FixedRate b _ _ _ _) = b"
| "closure_mode (VariableRate b _ _ _) = b"

lemma makeStatus_not_DISABLED [simp]: "makeStatus t tg w \<noteq> DISABLED"
  by (simp add: makeStatus_def)

lemma publishStatus_result:
  "snd (publishStatus st s) = Inr ()"
  "fst (publishStatus st s) =
     (if st = m_heatingStatusCached s then s
      else s\<lparr>m_heatingStatusCached := st, m_heatingStatus := st,
             outbox := m_callback s st (outbox s)\<rparr>)"
  by (simp_all add: publishStatus_def prog_defs)

lemma applyStatus_eq:
  "st \<noteq> DISABLED \<Longrightarrow> applyStatus L b st = block
     [case leds_for b st of (p, q, r) \<Rightarrow> on_dev (set_leds L p q r), publishStatus st]"
  by (cases st; cases b) (simp_all add: applyStatus_def indicate_set_leds)

lemma applyStatus_result:
  assumes "no_device_errors L" and "st \<noteq> DISABLED"
  shows "snd (applyStatus L b st s) = Inr ()"
    and "fst (applyStatus L b st s) =
      fst (publishStatus st (s\<lparr>dev := fst ((case leds_for b st of (p, q, r) \<Rightarrow> set_leds L p q r) (dev s))\<rparr>))"
  using assms by (auto simp: applyStatus_eq set_leds_ok publishStatus_result split: prod.split)

lemma applyStatus_display:
  assumes "no_device_errors L" and "led_laws L" and "st \<noteq> DISABLED"
  shows "led_display L (dev (fst (applyStatus L b st s))) = leds_for b st"
  using assms set_leds_display [OF assms(2)] set_leds_ok [OF assms(1)]
  by (simp add: applyStatus_result publishStatus_result split: prod.split)

lemma applyStatus_fields:
  fixes s :: "('d, 'o, 'z) status_manager_scheme"
  assumes "no_device_errors L" and "st \<noteq> DISABLED"
  shows "m_heatingStatusCached (fst (applyStatus L b st s)) = st"
    "sensorCallback (fst (applyStatus L b st s)) = sensorCallback s"
    "m_temperatureCallback (fst (applyStatus L b st s)) = m_temperatureCallback s"
    "m_readyHysteresisPeriod (fst (applyStatus L b st s)) = m_readyHysteresisPeriod s"
    "temperature_window c (fst (applyStatus L b st s)) = temperature_window c s"
  using assms by (auto simp: applyStatus_result publishStatus_result temperature_window_def)

section \<open>Fields the status manager does not write\<close>

lemma frame_on_dev: "(\<And>d s. f (s\<lparr>dev := d\<rparr>) = f s) \<Longrightarrow> frame f (on_dev m)"
  by (simp add: frame_def)

lemma frame_status_operations:
  assumes "\<And>d s. f (s\<lparr>dev := d\<rparr>) = f s"
    and "\<And>c s. f (s\<lparr>m_temperatureCallback := c\<rparr>) = f s"
    and "\<And>c s. f (s\<lparr>sensorCallback := c\<rparr>) = f s"
    and "\<And>q s. f (s\<lparr>outbox := q\<rparr>) = f s"
    and "\<And>st s. f (s\<lparr>m_heatingStatus := st\<rparr>) = f s"
    and "\<And>st s. f (s\<lparr>m_heatingStatusCached := st\<rparr>) = f s"
  shows "frame f (indicateState L b t)" "frame f (disable L)" "frame f (deliverTemperature L t)"
proof -
  have p: "frame f (publishStatus st)" for st
    using assms(4-6) by (auto simp: frame_def publishStatus_result)
  have a: "frame f (applyStatus L b' st)" for b' st
    unfolding applyStatus_def by (intro frames p frame_on_dev assms)
  have u: "frame f (unregisterTemperatureCallback L)"
    by (intro frames frame_on_dev assms)
  have r: "frame f (registerTemperatureCallback L cb)" for cb
    unfolding registerTemperatureCallback_def
    using assms(2,3) by (intro frames frame_on_dev assms(1)) simp
  show "frame f (indicateState L b t)"
    unfolding indicateState_def by (intro frames u a r frame_on_dev assms)
  show "frame f (disable L)"
    unfolding disable_def by (intro frames u p frame_on_dev assms)
  have c: "frame f (set_closure cb)" for cb
    unfolding set_closure_def by (intro frames assms)
  have "frame f (fixedRateCallback L b' tg w n k t)" for b' tg w n k
    unfolding fixedRateCallback_def Let_def by (intro frames a c)
  moreover have "frame f (variableRateCallback L b' tg w k t)" for b' tg w k
    unfolding variableRateCallback_def Let_def by (intro frames a c)
  ultimately have "frame f (temperatureCallback L cb t)" for cb
    by (cases cb) (simp_all add: temperatureCallback_def)
  then show "frame f (deliverTemperature L t)"
    by (auto simp: frame_def deliverTemperature_def split: option.split)
qed

lemmas readyHysteresisPeriod_frames [frames] =
  frame_status_operations [of m_readyHysteresisPeriod, simplified]

end
