(* ===== verification/BrewTimer.thy ===== *)
theory BrewTimer
  imports Prelude "HOL-Library.Word"
begin

unbundle bit_operations_syntax

text \<open>
  \<^verbatim>\<open>state_manager/brew_timer\<close>: the brew stop watch packed into one atomic 32 bit word.
  Bit 31 says that the timer runs; the other bits hold the start time or the measured
  duration in milliseconds. \<open>t\<close> is what \<^verbatim>\<open>steady_clock::now()\<close> returns, in nanoseconds.
\<close>

type_synonym brew_timer = "32 word"

definition RUNNING_FLAG :: "32 word" where
  "RUNNING_FLAG = push_bit 31 1"

definition VALUE_MASK :: "32 word" where
  "VALUE_MASK = NOT RUNNING_FLAG"

definition timer_now :: "int \<Rightarrow> 32 word" where
  "timer_now t = word_of_int (cdiv t 1000000) AND VALUE_MASK"

definition timer_init :: brew_timer where
  "timer_init = 0"

definition timer_start :: "int \<Rightarrow> brew_timer \<Rightarrow> brew_timer" where
  "timer_start t state = RUNNING_FLAG OR timer_now t"

definition timer_stop :: "int \<Rightarrow> brew_timer \<Rightarrow> brew_timer" where
  "timer_stop t state =
     (if state AND RUNNING_FLAG = 0 then state
      else timer_now t - (state AND VALUE_MASK))"

definition timer_reset :: "brew_timer \<Rightarrow> brew_timer" where
  "timer_reset state = 0"

text \<open>
  \<^verbatim>\<open>elapsedTime\<close>, in milliseconds: the 32 bit result of the subtraction is what the
  duration is built from.
\<close>

definition timer_elapsedTime :: "int \<Rightarrow> brew_timer \<Rightarrow> nat" where
  "timer_elapsedTime t state =
     (if state AND RUNNING_FLAG = 0 then unat state
      else unat (timer_now t - (state AND VALUE_MASK)))"

section \<open>Arithmetic reading of the masks\<close>

definition millis :: "int \<Rightarrow> nat" where
  "millis t = nat (t div 1000000)"

definition running :: "brew_timer \<Rightarrow> bool" where
  "running state \<longleftrightarrow> state AND RUNNING_FLAG \<noteq> 0"

lemma VALUE_MASK_mask: "VALUE_MASK = mask 31"
  by (simp add: VALUE_MASK_def RUNNING_FLAG_def mask_eq_decr_exp)

lemma RUNNING_FLAG_num: "RUNNING_FLAG = 2147483648"
  by (simp add: RUNNING_FLAG_def)

lemma bit_RUNNING_FLAG [simp]: "bit RUNNING_FLAG n \<longleftrightarrow> n = 31"
  unfolding RUNNING_FLAG_def bit_push_bit_iff bit_1_iff by auto

lemma unat_and_mask: "unat (w AND VALUE_MASK) = unat w mod 2 ^ 31"
  unfolding VALUE_MASK_mask take_bit_eq_mask [symmetric] unsigned_take_bit_eq
  by (rule take_bit_eq_mod)

lemma bit31: "bit (w :: 32 word) 31 \<longleftrightarrow> 2 ^ 31 \<le> unat w"
proof -
  have "bit w 31 = bit (unat w) 31"
    by (simp add: bit_unsigned_iff)
  then have "bit w 31 = odd (unat w div 2 ^ 31)"
    by (simp only: bit_iff_odd)
  moreover have "unat w < 2 ^ 32" using unsigned_less [of w] by simp
  then have "unat w div 2 ^ 31 \<in> {0, 1}" by auto
  ultimately show ?thesis by (auto simp: div_eq_0_iff)
qed

lemma running_unat: "running w \<longleftrightarrow> 2 ^ 31 \<le> unat w"
proof -
  have "w AND RUNNING_FLAG = (if bit w 31 then RUNNING_FLAG else 0)"
    by (rule bit_word_eqI) (auto simp: bit_simps)
  moreover have "RUNNING_FLAG \<noteq> 0" by (simp add: RUNNING_FLAG_num)
  ultimately show ?thesis by (auto simp: running_def bit31)
qed

lemma unat_with_flag:
  assumes "unat x < 2 ^ 31"
  shows "unat (RUNNING_FLAG OR x) = 2 ^ 31 + unat x"
proof -
  have "RUNNING_FLAG OR x = RUNNING_FLAG + x"
    by (rule disjunctive_add_eq_or [symmetric], rule bit_word_eqI)
      (use assms bit31 [of x] in \<open>auto simp: bit_simps\<close>)
  then show ?thesis using assms by (simp add: unat_word_ariths RUNNING_FLAG_num)
qed

lemma unat_timer_now:
  assumes "0 \<le> t"
  shows "unat (timer_now t) = millis t mod 2 ^ 31"
proof -
  have "unat (word_of_int (t div 1000000) :: 32 word) = millis t mod 2 ^ 32"
    using assms by (simp add: unat_eq_nat_uint uint_word_of_int nat_mod_distrib millis_def)
  moreover have "(n mod 2 ^ 32) mod 2 ^ 31 = n mod (2::nat) ^ 31" for n
    by (simp add: mod_mod_cancel)
  ultimately show ?thesis
    using assms by (simp add: timer_now_def cdiv_nonneg unat_and_mask)
qed

lemma timer_now_less: "0 \<le> t \<Longrightarrow> unat (timer_now t) < 2 ^ 31"
  by (simp add: unat_timer_now)

lemma unat_timer_start: "0 \<le> t \<Longrightarrow> unat (timer_start t w) = 2 ^ 31 + millis t mod 2 ^ 31"
  by (simp add: timer_start_def unat_with_flag timer_now_less unat_timer_now)

lemma running_start [simp]: "0 \<le> t \<Longrightarrow> running (timer_start t w)"
  by (simp add: running_unat unat_timer_start)

lemma start_value:
  "0 \<le> t \<Longrightarrow> unat (timer_start t w AND VALUE_MASK) = millis t mod 2 ^ 31"
  by (simp add: unat_and_mask unat_timer_start)

text \<open>The subtraction that both \<^verbatim>\<open>stop\<close> and \<^verbatim>\<open>elapsedTime\<close> perform on a running timer.\<close>

lemma unat_difference:
  assumes "0 \<le> t0" and "0 \<le> t1"
  defines "a \<equiv> millis t0 mod 2 ^ 31" and "b \<equiv> millis t1 mod 2 ^ 31"
  shows "unat (timer_now t1 - (timer_start t0 w AND VALUE_MASK)) =
         (if a \<le> b then b - a else 2 ^ 32 + b - a)"
proof -
  have v: "unat (timer_start t0 w AND VALUE_MASK) = a" and n: "unat (timer_now t1) = b"
    using assms by (simp_all only: start_value unat_timer_now)
  show ?thesis
    by (simp add: unat_sub_if' v n add.commute [of b])
qed

lemma elapsed_running:
  "0 \<le> t0 \<Longrightarrow> timer_elapsedTime t1 (timer_start t0 w) =
     unat (timer_now t1 - (timer_start t0 w AND VALUE_MASK))"
  using running_start [of t0 w] by (simp add: timer_elapsedTime_def running_def)

lemma stop_running:
  "0 \<le> t0 \<Longrightarrow> timer_stop t1 (timer_start t0 w) =
     timer_now t1 - (timer_start t0 w AND VALUE_MASK)"
  using running_start [of t0 w] by (simp add: timer_stop_def running_def)

lemma elapsed_stopped: "\<not> running w \<Longrightarrow> timer_elapsedTime t w = unat w"
  by (simp add: timer_elapsedTime_def running_def)

lemma mod_same_period:
  assumes "m \<le> n" and "m div k = n div (k::nat)"
  shows "n mod k - m mod k = n - m" and "m mod k \<le> n mod k"
proof -
  have "n = n div k * k + n mod k" by simp
  moreover have "m = m div k * k + m mod k" by simp
  then have "m = n div k * k + m mod k" by (simp only: assms(2))
  ultimately show "n mod k - m mod k = n - m" and "m mod k \<le> n mod k"
    using assms(1) by linarith+
qed

lemma mod_next_period:
  assumes "n div k = Suc (m div (k::nat))" and "n - m < k"
  shows "n mod k < m mod k" and "k + n mod k - m mod k = n - m"
proof -
  have "n = n div k * k + n mod k" by simp
  also have "n div k * k = m div k * k + k" by (simp add: assms(1))
  finally have n: "n = m div k * k + k + n mod k" .
  have m: "m = m div k * k + m mod k" by simp
  show "n mod k < m mod k" using n m assms(2) by linarith
  show "k + n mod k - m mod k = n - m" using n m assms(2) by linarith
qed

lemma millis_mono: "0 \<le> t0 \<Longrightarrow> t0 \<le> t1 \<Longrightarrow> millis t0 \<le> millis t1"
  by (simp add: millis_def nat_mono zdiv_mono1)

section \<open>Correctness\<close>

text \<open>
  C29: while the millisecond count of the steady clock stays in one period of \<open>2 ^ 31\<close>
  (24.8 days), a started timer reports the milliseconds since it was started, and once
  it is stopped it is no longer running and reports, whenever it is asked, the
  milliseconds from start to stop.
\<close>

theorem timer_measures_brew:
  assumes "0 \<le> t0" and "t0 \<le> t1" and "millis t0 div 2 ^ 31 = millis t1 div 2 ^ 31"
  shows "timer_elapsedTime t1 (timer_start t0 w) = millis t1 - millis t0 \<and>
         \<not> running (timer_stop t1 (timer_start t0 w)) \<and>
         timer_elapsedTime t2 (timer_stop t1 (timer_start t0 w)) = millis t1 - millis t0 \<and>
         timer_stop t2 (timer_stop t1 (timer_start t0 w)) = timer_stop t1 (timer_start t0 w)"
proof -
  have t1: "0 \<le> t1" using assms(1,2) by simp
  note p = mod_same_period [OF millis_mono [OF assms(1,2)] assms(3)]
  have d: "unat (timer_now t1 - (timer_start t0 w AND VALUE_MASK)) = millis t1 - millis t0"
    using unat_difference [OF assms(1) t1] p by simp
  have "millis t1 - millis t0 = millis t1 mod 2 ^ 31 - millis t0 mod 2 ^ 31"
    using p by simp
  also have "\<dots> < 2 ^ 31" by (simp add: less_imp_diff_less)
  finally have small: "millis t1 - millis t0 < 2 ^ 31" .
  have nr: "\<not> running (timer_stop t1 (timer_start t0 w))"
    using d small assms(1) by (simp add: stop_running running_unat)
  then have "timer_stop t2 (timer_stop t1 (timer_start t0 w)) = timer_stop t1 (timer_start t0 w)"
    by (simp add: timer_stop_def [of t2] running_def)
  with d nr assms(1) show ?thesis
    by (simp add: elapsed_running elapsed_stopped stop_running)
qed

theorem timer_measures_brew_witness:
  "timer_elapsedTime 30000000000 (timer_start 5000000000 0) = 25000 \<and>
   \<not> running (timer_stop 30000000000 (timer_start 5000000000 0))"
  using timer_measures_brew [of 5000000000 30000000000 0]
  by (simp add: millis_def)

text \<open>
  C30: when the millisecond count passes a multiple of \<open>2 ^ 31\<close> between start and now,
  the 32 bit subtraction borrows into the flag bit: the reported time is too long by
  \<open>2 ^ 31\<close> milliseconds, and stopping the timer leaves it in the running state.
\<close>

theorem timer_wraps:
  assumes "0 \<le> t0" and "t0 \<le> t1" and "millis t1 div 2 ^ 31 = Suc (millis t0 div 2 ^ 31)"
    and "millis t1 - millis t0 < 2 ^ 31"
  shows "timer_elapsedTime t1 (timer_start t0 w) = millis t1 - millis t0 + 2 ^ 31 \<and>
         running (timer_stop t1 (timer_start t0 w))"
proof -
  have t1: "0 \<le> t1" using assms(1,2) by simp
  note p = mod_next_period [OF assms(3,4)]
  have "2 ^ 32 + millis t1 mod 2 ^ 31 - millis t0 mod 2 ^ 31 =
        (2 ^ 31 + millis t1 mod 2 ^ 31 - millis t0 mod 2 ^ 31) + (2 ^ 31 :: nat)"
    using mod_less_divisor [of "2 ^ 31" "millis t0"] by simp
  also have "\<dots> = millis t1 - millis t0 + 2 ^ 31" by (simp only: p(2))
  finally have d: "unat (timer_now t1 - (timer_start t0 w AND VALUE_MASK)) =
      millis t1 - millis t0 + 2 ^ 31"
    using unat_difference [OF assms(1) t1] p(1) by (simp only: not_le [symmetric] if_False)
  then show ?thesis
    using assms(1) by (simp add: elapsed_running stop_running running_unat)
qed

theorem timer_wraps_witness:
  "timer_elapsedTime 2147484648000000 (timer_start 2147482648000000 0) = 2147485648 \<and>
   running (timer_stop 2147484648000000 (timer_start 2147482648000000 0))"
  using timer_wraps [of 2147482648000000 2147484648000000 0] by (simp add: millis_def)

end
