(* ===== verification/StateManager.thy ===== *)
theory StateManager
  imports StatusManager BrewTimer
begin

text \<open>
  \<^verbatim>\<open>state_manager/state_manager\<close>: the operations on the machine itself. The state record
  extends the one of the status manager, which the state manager owns, by the power and
  steam switches and the brew timer; the brew profiler, the two temperature controllers
  and the scale live in the world.
\<close>

record ('d, 'o) state_manager = "('d, 'o) status_manager" +
  m_power :: bool
  m_steam :: bool
  m_brewTimer :: brew_timer

text \<open>
  The constructor: the members are initialised in the order of their declaration, so the
  steam button is read before any other device is looked up.
\<close>

definition StateManager_create ::
    "'d lib \<Rightarrow> ('d, 'o) status_manager \<Rightarrow> ('d, ('d, 'o) state_manager) prog" where
  "StateManager_create L sm =
     bindp (lookup L STEAM_BUTTON_LABEL) (\<lambda>_.
     bindp (in_getState L STEAM_BUTTON_LABEL) (\<lambda>steam.
     bindp (block [lookup L BREW_PROFILER_LABEL, lookup L BREW_TEMPERATURE_CONTROLLER_LABEL,
                   lookup L STEAM_CONTROLLER_LABEL, lookup L WEIGHT_SENSOR_LABEL]) (\<lambda>_. \<lambda>d.
       (d, Inr (status_manager.extend (sm\<lparr>dev := d\<rparr>)
                  \<lparr>m_power = False, m_steam = steam, m_brewTimer = timer_init\<rparr>)))))"

section \<open>Operations\<close>

definition profilerActive :: "'d lib \<Rightarrow> ('d, 'o, 'z) status_manager_scheme \<Rightarrow> bool" where
  "profilerActive L = deviceActive L BREW_PROFILER_LABEL"

definition getPowerState :: "('d, 'o, 'z) state_manager_scheme \<Rightarrow> bool" where
  "getPowerState s = m_power s"

definition setPowerState :: "'d lib \<Rightarrow> bool \<Rightarrow> ('d, 'o, 'z) state_manager_scheme stmt" where
  "setPowerState L state = branch (\<lambda>s. m_power s = state) skip
     (block
       [branch m_power
          (block [on_dev (ctl_deactivate L BREW_PROFILER_LABEL),
                  on_dev (ctl_deactivate L STEAM_CONTROLLER_LABEL),
                  on_dev (ctl_deactivate L BREW_TEMPERATURE_CONTROLLER_LABEL),
                  disable L,
                  act (\<lambda>s. s\<lparr>m_brewTimer := timer_reset (m_brewTimer s)\<rparr>)])
          (branch m_steam
            (block [on_dev (ctl_activate L STEAM_CONTROLLER_LABEL),
                    bindp (on_dev (temp_getTarget L STEAM_CONTROLLER_LABEL)) (indicateSteamState L)])
            (block [on_dev (ctl_activate L BREW_TEMPERATURE_CONTROLLER_LABEL),
                    bindp (on_dev (temp_getTarget L BREW_TEMPERATURE_CONTROLLER_LABEL))
                      (indicateBrewState L)])),
        act (\<lambda>s. s\<lparr>m_power := state\<rparr>)])"

definition getBrewState :: "'d lib \<Rightarrow> ('d, 'o, 'z) state_manager_scheme \<Rightarrow> bool" where
  "getBrewState L s = profilerActive L s"

definition startBrew :: "'d lib \<Rightarrow> ('d, 'o, 'z) state_manager_scheme stmt" where
  "startBrew L = branch (profilerActive L) skip
     (branch (\<lambda>s. \<not> m_power s) (throw (RuntimeError ''Cannot start brew while power is off''))
       (branch m_steam (throw (RuntimeError ''Cannot start brew in steam mode''))
         (block [on_dev (ctl_activate L BREW_PROFILER_LABEL),
                 act (\<lambda>s. s\<lparr>m_brewTimer := timer_start (steady_now L (dev s)) (m_brewTimer s)\<rparr>)])))"

definition stopBrew :: "'d lib \<Rightarrow> ('d, 'o, 'z) state_manager_scheme stmt" where
  "stopBrew L = branch (\<lambda>s. \<not> profilerActive L s) skip
     (block [act (\<lambda>s. s\<lparr>m_brewTimer := timer_stop (steady_now L (dev s)) (m_brewTimer s)\<rparr>),
             on_dev (ctl_deactivate L BREW_PROFILER_LABEL)])"

definition setBrewTemperature :: "'d lib \<Rightarrow> int \<Rightarrow> ('d, 'o, 'z) state_manager_scheme stmt" where
  "setBrewTemperature L temperature = block
     [on_dev (temp_setTarget L BREW_TEMPERATURE_CONTROLLER_LABEL temperature),
      branch (\<lambda>s. \<not> m_steam s \<and> m_power s) (indicateBrewState L temperature) skip]"

definition setSteamTemperature :: "'d lib \<Rightarrow> int \<Rightarrow> ('d, 'o, 'z) state_manager_scheme stmt" where
  "setSteamTemperature L temperature = block
     [on_dev (temp_setTarget L STEAM_CONTROLLER_LABEL temperature),
      branch (\<lambda>s. m_steam s \<and> m_power s) (indicateSteamState L temperature) skip]"

definition getSteamModeState :: "('d, 'o, 'z) state_manager_scheme \<Rightarrow> bool" where
  "getSteamModeState s = m_steam s"

definition setSteamModeState :: "'d lib \<Rightarrow> bool \<Rightarrow> ('d, 'o, 'z) state_manager_scheme stmt" where
  "setSteamModeState L state = branch (\<lambda>s. m_steam s = state) skip
     (branch (profilerActive L)
       (throw (RuntimeError ''Cannot switch to steam mode while brewing''))
       (block
         [branch m_power
            (branch m_steam
              (block [on_dev (ctl_deactivate L STEAM_CONTROLLER_LABEL),
                      on_dev (ctl_activate L BREW_TEMPERATURE_CONTROLLER_LABEL),
                      bindp (on_dev (temp_getTarget L BREW_TEMPERATURE_CONTROLLER_LABEL))
                        (indicateBrewState L)])
              (block [on_dev (ctl_deactivate L BREW_TEMPERATURE_CONTROLLER_LABEL),
                      on_dev (ctl_activate L STEAM_CONTROLLER_LABEL),
                      bindp (on_dev (temp_getTarget L STEAM_CONTROLLER_LABEL))
                        (indicateSteamState L)]))
            skip,
          act (\<lambda>s. s\<lparr>m_steam := state\<rparr>)]))"

definition resetScales :: "'d lib \<Rightarrow> ('d, 'o, 'z) state_manager_scheme stmt" where
  "resetScales L = branch (profilerActive L)
     (throw (RuntimeError ''Cannot reset scale while brewing''))
     (on_dev (weight_tare L))"

text \<open>
  The range of steps is transformed lazily: the elements are computed while the vector
  for \<^verbatim>\<open>setSteps\<close> is built, after the check, and computing one may throw.
\<close>

definition setBrewSteps ::
    "'d lib \<Rightarrow> exn + (step_target \<times> advance_condition) list \<Rightarrow>
     ('d, 'o, 'z) state_manager_scheme stmt" where
  "setBrewSteps L steps = branch (profilerActive L)
     (throw (RuntimeError ''Cannot set brew steps sequence brewing''))
     (bindp (lift_result steps) (\<lambda>xs. on_dev (prof_setSteps L xs)))"

definition setAutoStopCondition ::
    "'d lib \<Rightarrow> advance_condition \<Rightarrow> ('d, 'o, 'z) state_manager_scheme stmt" where
  "setAutoStopCondition L cond = branch (profilerActive L)
     (throw (RuntimeError ''Cannot change auto stop condition while brewing''))
     (on_dev (prof_setAutoStop L cond))"

definition heatingStatus :: "('d, 'o, 'z) state_manager_scheme \<Rightarrow> HeatingStatus" where
  "heatingStatus s = getCurrentStatus s"

definition setHeatingStatusChangeCallback ::
    "(HeatingStatus \<Rightarrow> 'o \<Rightarrow> 'o) \<Rightarrow> ('d, 'o, 'z) state_manager_scheme stmt" where
  "setHeatingStatusChangeCallback callback = setCallback callback"

definition registerBrewProfilerCallback ::
    "'d lib \<Rightarrow> (('d, 'o, 'z) state_manager_scheme, nat) prog" where
  "registerBrewProfilerCallback L = on_dev (prof_register L)"

definition unregisterBrewProfileCallback ::
    "'d lib \<Rightarrow> nat \<Rightarrow> ('d, 'o, 'z) state_manager_scheme stmt" where
  "unregisterBrewProfileCallback L descr = on_dev (prof_unregister L descr)"

definition brewTimer :: "('d, 'o, 'z) state_manager_scheme \<Rightarrow> brew_timer" where
  "brewTimer s = m_brewTimer s"

end
