(* ===== verification/Messages.thy ===== *)
theory Messages
  imports CFloat
begin

text \<open>
  The protobuf messages of \<^verbatim>\<open>openpresso_proto\<close>, as far as the program reads or writes
  them: a message is the record of the fields the code accesses, a \<^verbatim>\<open>has_x\<close> field an
  option, an open enumeration a datatype with a constructor for every value the code
  tests and one for all others. The JSON conversions of the protobuf library are
  parameters.
\<close>

datatype BrewStepTargetType = Target_Pressure | Target_FlowRate | Target_Other int

datatype BrewStepAdvanceConditionType =
  Advance_TotalTime | Advance_TotalWeight | Advance_StepTime | Advance_Other int

datatype StopConditionType = Stop_TotalTime | Stop_TotalWeight | Stop_Other int

record BrewStepAdvanceCondition =
  advance_type :: BrewStepAdvanceConditionType
  advance_value :: float32

record StopCondition =
  stop_type :: StopConditionType
  stop_value :: float32

record BrewStep =
  targettype :: BrewStepTargetType
  targetvalue :: float32
  advancecondition :: "BrewStepAdvanceCondition option"

record BrewProfile =
  profile_name :: string
  temperature :: int
  steps :: "BrewStep list"
  stopcondition :: "StopCondition option"

record UserSettings =
  steamtemperature :: int

text \<open>
  \<^verbatim>\<open>MessageToJsonString\<close> gives a text or the message of its status;
  \<^verbatim>\<open>JsonStringToMessage\<close> writes into the message it is given, also when it fails.
\<close>

record 'm json =
  to_json :: "'m \<Rightarrow> string + string"
  from_json :: "string \<Rightarrow> 'm \<Rightarrow> 'm \<times> string option"

text \<open>What was printed is parsed back, whatever the message held before.\<close>

definition json_laws :: "'m json \<Rightarrow> bool" where
  "json_laws J \<longleftrightarrow> (\<forall>m text old. to_json J m = Inr text \<longrightarrow> from_json J text old = (m, None))"

end
