(* ===== verification/Stores.thy ===== *)
theory Stores
  imports Interfaces Messages
begin

text \<open>
  The contract shared by the two managers that keep a message in memory and in a file:
  what saving and loading promise, and what follows for a daemon that loads the file at
  its start and falls back to a default.
\<close>

text \<open>
  The file system keeps what was written to a path until the next write to that path.
\<close>

definition fs_laws :: "'d lib \<Rightarrow> bool" where
  "fs_laws L \<longleftrightarrow>
     (\<forall>p c d. snd (fs_write L p c d) = Written \<longrightarrow> fs_read L p (fst (fs_write L p c d)) = Content c)"

locale message_store =
  fixes laws :: bool
    and path :: "'m \<Rightarrow> string"
    and current default :: "'m \<Rightarrow> 'p"
    and readable :: "string \<Rightarrow> 'd \<Rightarrow> bool"
    and load loadDefault :: "('d \<times> 'm) stmt"
    and save :: "'p \<Rightarrow> ('d \<times> 'm) stmt"
  assumes save_current: "current (snd (fst (save p s))) = p"
    and save_keeps: "path (snd (fst (save p s))) = path (snd s)"
      "default (snd (fst (save p s))) = default (snd s)"
    and load_keeps: "path (snd (fst (load s))) = path (snd s)"
      "default (snd (fst (load s))) = default (snd s)" "fst (fst (load s)) = fst s"
    and load_saved: "\<lbrakk>laws; snd (save p s) = Inr (); path (snd t) = path (snd s);
        fst t = fst (fst (save p s))\<rbrakk> \<Longrightarrow>
      snd (load t) = Inr () \<and> current (snd (fst (load t))) = p"
    and load_unreadable: "\<not> readable (path (snd s)) (fst s) \<Longrightarrow>
      \<exists>e. snd (load s) = Inl e \<and> e \<noteq> UndefinedBehaviour"
    and loadDefault_result: "snd (loadDefault s) = Inr ()"
      "current (snd (fst (loadDefault s))) = default (snd s)"
      "path (snd (fst (loadDefault s))) = path (snd s)"
      "default (snd (fst (loadDefault s))) = default (snd s)"
      "fst (fst (loadDefault s)) = fst s"
begin

text \<open>How the daemon obtains its message at the start.\<close>

definition boot :: "('d \<times> 'm) stmt" where
  "boot = catching load (\<lambda>_. loadDefault)"

lemma boot_keeps:
  "path (snd (fst (boot s))) = path (snd s)" "default (snd (fst (boot s))) = default (snd s)"
  "fst (fst (boot s)) = fst s"
  using load_keeps [of s] loadDefault_result [of "fst (load s)"]
  by (auto simp: boot_def catching_def split: sum.split)

lemma boot_saved:
  assumes "laws" and "snd (save p s) = Inr ()" and "path (snd t) = path (snd s)"
    and "fst t = fst (fst (save p s))"
  shows "snd (boot t) = Inr () \<and> current (snd (fst (boot t))) = p"
  using load_saved [OF assms] by (simp add: boot_def catching_def)

lemma boot_unreadable:
  assumes "\<not> readable (path (snd s)) (fst s)"
  shows "snd (boot s) = Inr () \<and> current (snd (fst (boot s))) = default (snd s)"
proof -
  obtain e where "snd (load s) = Inl e" "e \<noteq> UndefinedBehaviour"
    using load_unreadable [OF assms] by blast
  then show ?thesis
    using load_keeps [of s] loadDefault_result [of "fst (load s)"]
    by (simp add: boot_def catching_def)
qed

text \<open>Restarting never changes the file, so every later start reads the saved message again.\<close>

lemma restarts_saved:
  assumes "laws" and "snd (save p s) = Inr ()"
  shows "current (snd (((fst \<circ> boot) ^^ Suc n) (fst (save p s)))) = p"
proof -
  have "path (snd (((fst \<circ> boot) ^^ n) (fst (save p s)))) = path (snd s) \<and>
    fst (((fst \<circ> boot) ^^ n) (fst (save p s))) = fst (fst (save p s))"
    by (induction n) (simp_all add: save_keeps boot_keeps)
  then show ?thesis using boot_saved [OF assms] by simp
qed

end

end
