(* ===== verification/BrewProfileManager.thy ===== *)
theory BrewProfileManager
  imports StateManager Stores
begin

text \<open>
  \<^verbatim>\<open>state_manager/brew_profile_manager\<close>: the current brew profile, its file, and its
  translation into the steps and conditions of the brew profiler. The operations on the
  file run on the world and the manager; applying a profile runs on the state manager.
\<close>

record brew_profile_manager =
  m_profilePath :: string
  m_currentProfile :: BrewProfile
  m_defaultProfile :: BrewProfile

definition empty_profile :: BrewProfile where
  "empty_profile = \<lparr>profile_name = [], temperature = 0, steps = [], stopcondition = None\<rparr>"

definition makeDefaultProfile :: "int \<Rightarrow> int \<Rightarrow> BrewProfile" where
  "makeDefaultProfile brewTemperature brewPressure =
     empty_profile\<lparr>temperature := brewTemperature,
       steps := [\<lparr>targettype = Target_Pressure, targetvalue = float_of_int brewPressure,
                  advancecondition = None\<rparr>]\<rparr>"

definition BrewProfileManager_create :: "string \<Rightarrow> int \<Rightarrow> int \<Rightarrow> brew_profile_manager" where
  "BrewProfileManager_create brewProfilePath brewTemperature brewPressure =
     \<lparr>m_profilePath = brewProfilePath, m_currentProfile = empty_profile,
      m_defaultProfile = makeDefaultProfile brewTemperature brewPressure\<rparr>"

section \<open>The profile and its file\<close>

definition loadSavedProfile ::
    "'d lib \<Rightarrow> BrewProfile json \<Rightarrow> ('d \<times> brew_profile_manager) stmt" where
  "loadSavedProfile L J = (\<lambda>(d, m).
     case fs_read L (m_profilePath m) d of
       ReadNotOpen \<Rightarrow> ((d, m), Inl (RuntimeError
         (''Failed to open a file to read a brew profile: '' @ m_profilePath m)))
     | ReadFailed \<Rightarrow> ((d, m), Inl (RuntimeError
         (''Failed to read brew profile from file: '' @ m_profilePath m)))
     | Content content \<Rightarrow>
         (case from_json J content (m_currentProfile m) of
            (profile, None) \<Rightarrow> ((d, m\<lparr>m_currentProfile := profile\<rparr>), Inr ())
          | (profile, Some message) \<Rightarrow> ((d, m\<lparr>m_currentProfile := profile\<rparr>),
              Inl (RuntimeError (''Failed to deserialize brew profile: '' @ message)))))"

definition loadDefaultProfile :: "('d \<times> brew_profile_manager) stmt" where
  "loadDefaultProfile = act (\<lambda>(d, m). (d, m\<lparr>m_currentProfile := m_defaultProfile m\<rparr>))"

definition saveProfile ::
    "'d lib \<Rightarrow> BrewProfile json \<Rightarrow> BrewProfile \<Rightarrow> ('d \<times> brew_profile_manager) stmt" where
  "saveProfile L J profile = (\<lambda>(d, m0).
     let m = m0\<lparr>m_currentProfile := profile\<rparr> in
     case to_json J profile of
       Inl message \<Rightarrow> ((d, m), Inl (RuntimeError
         (''Failed to serialize brew profile: '' @ message)))
     | Inr jsonOutput \<Rightarrow>
         (case fs_write L (m_profilePath m) jsonOutput d of
            (d', WriteNotOpen) \<Rightarrow> ((d', m), Inl (RuntimeError
              (''Failed to open a file to write a brew profile: '' @ m_profilePath m)))
          | (d', WriteFailed) \<Rightarrow> ((d', m), Inl (RuntimeError
              (''Failed to write brew profile to file: '' @ m_profilePath m)))
          | (d', Written) \<Rightarrow> ((d', m), Inr ())))"

definition getProfile :: "brew_profile_manager \<Rightarrow> BrewProfile" where
  "getProfile m = m_currentProfile m"

section \<open>From messages to brew profiler data\<close>

definition ToDuration :: "'d lib \<Rightarrow> float32 \<Rightarrow> exn + int" where
  "ToDuration L value = float_seconds_to_ticks L value"

definition ToWeight :: "'d lib \<Rightarrow> float32 \<Rightarrow> exn + int" where
  "ToWeight L value = float_to_int (fits_units L) value"

definition getStepTarget :: "'d lib \<Rightarrow> BrewStep \<Rightarrow> exn + step_target" where
  "getStepTarget L step =
     (case targettype step of
        Target_Pressure \<Rightarrow> map_sum id ConstantPressure (float_to_int (fits_units L) (targetvalue step))
      | Target_FlowRate \<Rightarrow> map_sum id ConstantFlow (float_to_int (fits_units L) (targetvalue step))
      | Target_Other _ \<Rightarrow> Inl (RuntimeError ''Brew step has no target''))"

definition getStepCondition :: "'d lib \<Rightarrow> BrewStep \<Rightarrow> exn + advance_condition" where
  "getStepCondition L step =
     (case advancecondition step of
        None \<Rightarrow> Inr Never
      | Some condition \<Rightarrow>
          (case advance_type condition of
             Advance_TotalTime \<Rightarrow> map_sum id OnTotalTime (ToDuration L (advance_value condition))
           | Advance_TotalWeight \<Rightarrow> map_sum id OnWeight (ToWeight L (advance_value condition))
           | Advance_StepTime \<Rightarrow> map_sum id OnStepTime (ToDuration L (advance_value condition))
           | Advance_Other _ \<Rightarrow> Inl (RuntimeError ''Unknow advance condition'')))"

text \<open>
  The pair of target and condition; C++ leaves open which of the two is computed first
  (it matters only for which of two exceptions leaves), the model takes the target.
\<close>

definition stepTransformer :: "'d lib \<Rightarrow> BrewStep \<Rightarrow> exn + step_target \<times> advance_condition" where
  "stepTransformer L step =
     (case getStepTarget L step of
        Inl e \<Rightarrow> Inl e
      | Inr target \<Rightarrow> map_sum id (Pair target) (getStepCondition L step))"

definition applyAutoStopCondition ::
    "'d lib \<Rightarrow> brew_profile_manager \<Rightarrow> ('d, 'o, 'z) state_manager_scheme stmt" where
  "applyAutoStopCondition L m =
     (case stopcondition (m_currentProfile m) of
        None \<Rightarrow> setAutoStopCondition L Never
      | Some condition \<Rightarrow>
          (case stop_type condition of
             Stop_TotalTime \<Rightarrow> bindp (lift_result (ToDuration L (stop_value condition)))
               (\<lambda>duration. setAutoStopCondition L (OnTotalTime duration))
           | Stop_TotalWeight \<Rightarrow> bindp (lift_result (ToWeight L (stop_value condition)))
               (\<lambda>weight. setAutoStopCondition L (OnWeight weight))
           | Stop_Other _ \<Rightarrow> throw (RuntimeError ''Unknow stop condition'')))"

definition applyBrewProfile ::
    "'d lib \<Rightarrow> brew_profile_manager \<Rightarrow> ('d, 'o, 'z) state_manager_scheme stmt" where
  "applyBrewProfile L m = block
     [setBrewTemperature L (temperature (m_currentProfile m)),
      setBrewSteps L (map_result (stepTransformer L) (steps (m_currentProfile m))),
      applyAutoStopCondition L m]"

section \<open>The contract of a message store\<close>

definition profile_readable :: "'d lib \<Rightarrow> BrewProfile json \<Rightarrow> string \<Rightarrow> 'd \<Rightarrow> bool" where
  "profile_readable L J p d =
     (case fs_read L p d of Content c \<Rightarrow> \<exists>old. snd (from_json J c old) = None | _ \<Rightarrow> False)"

lemmas profile_defs =
  loadSavedProfile_def loadDefaultProfile_def saveProfile_def Let_def act_def

interpretation profile_store: message_store "fs_laws L \<and> json_laws J" m_profilePath
    m_currentProfile m_defaultProfile "profile_readable L J" "loadSavedProfile L J"
    loadDefaultProfile "saveProfile L J" for L J
proof unfold_locales
  fix p :: BrewProfile and s t :: "'a \<times> brew_profile_manager"
  assume l: "fs_laws L \<and> json_laws J" and s: "snd (saveProfile L J p s) = Inr ()"
    and t: "m_profilePath (snd t) = m_profilePath (snd s)" "fst t = fst (fst (saveProfile L J p s))"
  obtain js where j: "to_json J p = Inr js"
    using s by (auto simp: profile_defs split: sum.splits prod.splits)
  then have w: "snd (fs_write L (m_profilePath (snd s)) js (fst s)) = Written"
    "fst (fst (saveProfile L J p s)) = fst (fs_write L (m_profilePath (snd s)) js (fst s))"
    using s by (auto simp: profile_defs split: prod.splits ofstream_result.splits)
  then have "fs_read L (m_profilePath (snd t)) (fst t) = Content js"
    using l t by (simp add: fs_laws_def)
  moreover have "from_json J js (m_currentProfile (snd t)) = (p, None)"
    using l j by (simp add: json_laws_def)
  ultimately show "snd (loadSavedProfile L J t) = Inr () \<and>
      m_currentProfile (snd (fst (loadSavedProfile L J t))) = p"
    by (simp add: profile_defs split_def)
qed (auto simp: profile_defs profile_readable_def
      split: sum.split prod.split ofstream_result.split ifstream_result.split option.split,
     metis snd_conv option.distinct(1))

end
