(* ===== verification/UserSettingsManager.thy ===== *)
theory UserSettingsManager
  imports StateManager Stores
begin

text \<open>\<^verbatim>\<open>state_manager/user_settings_manager\<close>: the user settings and their file.\<close>

record user_settings_manager =
  m_settingsPath :: string
  m_currentSettings :: UserSettings
  m_defaultSettings :: UserSettings

definition makeDefaultSettings :: "int \<Rightarrow> UserSettings" where
  "makeDefaultSettings steamTemperature = \<lparr>steamtemperature = steamTemperature\<rparr>"

definition UserSettingsManager_create :: "string \<Rightarrow> int \<Rightarrow> user_settings_manager" where
  "UserSettingsManager_create userSettingsPath steamTemperature =
     \<lparr>m_settingsPath = userSettingsPath, m_currentSettings = \<lparr>steamtemperature = 0\<rparr>,
      m_defaultSettings = makeDefaultSettings steamTemperature\<rparr>"

definition loadSavedSettings ::
    "'d lib \<Rightarrow> UserSettings json \<Rightarrow> ('d \<times> user_settings_manager) stmt" where
  "loadSavedSettings L J = (\<lambda>(d, m).
     case fs_read L (m_settingsPath m) d of
       ReadNotOpen \<Rightarrow> ((d, m), Inl (RuntimeError
         (''Failed to open a file to read user settings: '' @ m_settingsPath m)))
     | ReadFailed \<Rightarrow> ((d, m), Inl (RuntimeError
         (''Failed to read user settings from file: '' @ m_settingsPath m)))
     | Content content \<Rightarrow>
         (case from_json J content (m_currentSettings m) of
            (settings, None) \<Rightarrow> ((d, m\<lparr>m_currentSettings := settings\<rparr>), Inr ())
          | (settings, Some message) \<Rightarrow> ((d, m\<lparr>m_currentSettings := settings\<rparr>),
              Inl (RuntimeError (''Failed to deserialize user settings: '' @ message)))))"

definition loadDefaultSettings :: "('d \<times> user_settings_manager) stmt" where
  "loadDefaultSettings = act (\<lambda>(d, m). (d, m\<lparr>m_currentSettings := m_defaultSettings m\<rparr>))"

definition saveSettings ::
    "'d lib \<Rightarrow> UserSettings json \<Rightarrow> UserSettings \<Rightarrow> ('d \<times> user_settings_manager) stmt" where
  "saveSettings L J settings = (\<lambda>(d, m0).
     let m = m0\<lparr>m_currentSettings := settings\<rparr> in
     case to_json J settings of
       Inl message \<Rightarrow> ((d, m), Inl (RuntimeError
         (''Failed to serialize user settings: '' @ message)))
     | Inr jsonOutput \<Rightarrow>
         (case fs_write L (m_settingsPath m) jsonOutput d of
            (d', WriteNotOpen) \<Rightarrow> ((d', m), Inl (RuntimeError
              (''Failed to open a file to write user settings: '' @ m_settingsPath m)))
          | (d', WriteFailed) \<Rightarrow> ((d', m), Inl (RuntimeError
              (''Failed to write user settings to file: '' @ m_settingsPath m)))
          | (d', Written) \<Rightarrow> ((d', m), Inr ())))"

definition getSettings :: "user_settings_manager \<Rightarrow> UserSettings" where
  "getSettings m = m_currentSettings m"

definition applySettings ::
    "'d lib \<Rightarrow> user_settings_manager \<Rightarrow> ('d, 'o, 'z) state_manager_scheme stmt" where
  "applySettings L m = setSteamTemperature L (steamtemperature (m_currentSettings m))"

section \<open>The contract of a message store\<close>

definition settings_readable :: "'d lib \<Rightarrow> UserSettings json \<Rightarrow> string \<Rightarrow> 'd \<Rightarrow> bool" where
  "settings_readable L J p d =
     (case fs_read L p d of Content c \<Rightarrow> \<exists>old. snd (from_json J c old) = None | _ \<Rightarrow> False)"

lemmas settings_defs =
  loadSavedSettings_def loadDefaultSettings_def saveSettings_def Let_def act_def

interpretation settings_store: message_store "fs_laws L \<and> json_laws J" m_settingsPath
    m_currentSettings m_defaultSettings "settings_readable L J" "loadSavedSettings L J"
    loadDefaultSettings "saveSettings L J" for L J
proof unfold_locales
  fix p :: UserSettings and s t :: "'a \<times> user_settings_manager"
  assume l: "fs_laws L \<and> json_laws J" and s: "snd (saveSettings L J p s) = Inr ()"
    and t: "m_settingsPath (snd t) = m_settingsPath (snd s)" "fst t = fst (fst (saveSettings L J p s))"
  obtain js where j: "to_json J p = Inr js"
    using s by (auto simp: settings_defs split: sum.splits prod.splits)
  then have w: "snd (fs_write L (m_settingsPath (snd s)) js (fst s)) = Written"
    "fst (fst (saveSettings L J p s)) = fst (fs_write L (m_settingsPath (snd s)) js (fst s))"
    using s by (auto simp: settings_defs split: prod.splits ofstream_result.splits)
  then have "fs_read L (m_settingsPath (snd t)) (fst t) = Content js"
    using l t by (simp add: fs_laws_def)
  moreover have "from_json J js (m_currentSettings (snd t)) = (p, None)"
    using l j by (simp add: json_laws_def)
  ultimately show "snd (loadSavedSettings L J t) = Inr () \<and>
      m_currentSettings (snd (fst (loadSavedSettings L J t))) = p"
    by (simp add: settings_defs split_def)
qed (auto simp: settings_defs settings_readable_def
      split: sum.split prod.split ofstream_result.split ifstream_result.split option.split,
     metis snd_conv option.distinct(1))

end
