(* ===== verification/Dispatcher.thy ===== *)
theory Dispatcher
  imports BrewProfileManager UserSettingsManager
begin

text \<open>
  \<^verbatim>\<open>async_events_dispatcher/async_events_dispatcher\<close>: the one object through which buttons
  and remote calls reach the state manager. Every public operation only puts a procedure
  into the queue of the serial executor; the procedures run one after the other. The
  closures of the code are data here (\<open>procedure\<close>), the queue is the \<open>outbox\<close> that
  the heating status callback writes to as well, and the executor that empties it in order
  is the subject of \<open>Executor\<close>.
\<close>

section \<open>Events, procedures, tasks\<close>

datatype Event =
    PowerEvent bool
  | BrewEvent bool
  | SteamEvent bool
  | HeaterEvent HeatingStatus
  | ProfileEvent BrewProfile
  | SettingsEvent UserSettings
  | ProgressEvent "nat option"

datatype procedure =
    TogglePower
  | DoSetPower bool
  | ToggleBrew
  | DoStartBrew
  | DoStopBrew
  | ToggleSteam
  | DoSetSteam bool
  | NotifyHeating HeatingStatus
  | NotifyStep nat
  | AddReactor nat
  | ReleaseReactor nat
  | ResetScales
  | GetProfile
  | SetProfile BrewProfile
  | GetPower
  | GetBrew
  | StartBrew
  | StopBrew
  | GetSteam
  | GetSettings
  | SetSettings UserSettings
  | Shutdown

datatype task = Discard procedure | WithCallback nat procedure | WithFuture nat procedure

datatype reply = Done | Flag bool | Profile BrewProfile | Settings UserSettings

text \<open>
  The dispatcher owns the state manager, the two message managers and the event sinks: a
  sink is the queue of one event stream, named by a number in place of its address.
  \<open>results\<close> is what callbacks and futures received, with the number of the receiver.
\<close>

record 'd dispatcher = "('d, task list) state_manager" +
  m_brewProfileManager :: brew_profile_manager
  m_userSettings :: user_settings_manager
  m_eventsSinks :: "(nat \<times> Event list) list"
  m_brewCallback :: nat
  results :: "(nat \<times> (exn + reply)) list"

type_synonym ('d, 'z) dispatcher_stmt = "('d, 'z) dispatcher_scheme stmt"

section \<open>The queue\<close>

definition push :: "task \<Rightarrow> ('d, 'z) dispatcher_stmt" where
  "push t = act (\<lambda>s. s\<lparr>outbox := outbox s @ [t]\<rparr>)"

definition executeDiscardResult :: "procedure \<Rightarrow> ('d, 'z) dispatcher_stmt" where
  "executeDiscardResult p = push (Discard p)"

definition executeWithCallback :: "procedure \<Rightarrow> nat \<Rightarrow> ('d, 'z) dispatcher_stmt" where
  "executeWithCallback p callback = push (WithCallback callback p)"

definition executeWithFuture :: "procedure \<Rightarrow> nat \<Rightarrow> ('d, 'z) dispatcher_stmt" where
  "executeWithFuture p future = push (WithFuture future p)"

section \<open>Construction\<close>

definition heating_callback :: "HeatingStatus \<Rightarrow> task list \<Rightarrow> task list" where
  "heating_callback status queue = queue @ [Discard (NotifyHeating status)]"

definition AsyncEventDispatcher_create ::
    "'d lib \<Rightarrow> brew_profile_manager \<Rightarrow> user_settings_manager \<Rightarrow>
     (('d, task list) state_manager, 'd dispatcher) prog" where
  "AsyncEventDispatcher_create L profileManager settings = (\<lambda>stateManager.
     case registerBrewProfilerCallback L stateManager of
       (sm, Inl e) \<Rightarrow> (sm, Inl e)
     | (sm, Inr descr) \<Rightarrow>
         (sm, Inr (state_manager.extend (fst (setHeatingStatusChangeCallback heating_callback sm))
                \<lparr>m_brewProfileManager = profileManager, m_userSettings = settings,
                 m_eventsSinks = [], m_brewCallback = descr, results = []\<rparr>)))"

section \<open>Public operations\<close>

definition togglePowerState :: "('d, 'z) dispatcher_stmt" where
  "togglePowerState = executeDiscardResult TogglePower"

definition button_setPowerState :: "bool \<Rightarrow> ('d, 'z) dispatcher_stmt" where
  "button_setPowerState state = executeDiscardResult (DoSetPower state)"

definition toggleBrew :: "('d, 'z) dispatcher_stmt" where
  "toggleBrew = executeDiscardResult ToggleBrew"

definition button_startBrew :: "('d, 'z) dispatcher_stmt" where
  "button_startBrew = executeDiscardResult DoStartBrew"

definition button_stopBrew :: "('d, 'z) dispatcher_stmt" where
  "button_stopBrew = executeDiscardResult DoStopBrew"

definition toggleSteamModeState :: "('d, 'z) dispatcher_stmt" where
  "toggleSteamModeState = executeDiscardResult ToggleSteam"

definition button_setSteamModeState :: "bool \<Rightarrow> ('d, 'z) dispatcher_stmt" where
  "button_setSteamModeState state = executeDiscardResult (DoSetSteam state)"

definition addEventsStreamReactor :: "nat \<Rightarrow> ('d, 'z) dispatcher_stmt" where
  "addEventsStreamReactor reactor = executeDiscardResult (AddReactor reactor)"

definition releaseEventsStreamReactor :: "nat \<Rightarrow> ('d, 'z) dispatcher_stmt" where
  "releaseEventsStreamReactor reactor = executeDiscardResult (ReleaseReactor reactor)"

definition resetWeight :: "nat \<Rightarrow> ('d, 'z) dispatcher_stmt" where
  "resetWeight callback = executeWithCallback ResetScales callback"

definition getBrewProfile :: "nat \<Rightarrow> ('d, 'z) dispatcher_stmt" where
  "getBrewProfile callback = executeWithCallback GetProfile callback"

definition setBrewProfile :: "BrewProfile \<Rightarrow> nat \<Rightarrow> ('d, 'z) dispatcher_stmt" where
  "setBrewProfile profile callback = executeWithCallback (SetProfile profile) callback"

definition remote_getPowerState :: "nat \<Rightarrow> ('d, 'z) dispatcher_stmt" where
  "remote_getPowerState callback = executeWithCallback GetPower callback"

definition remote_setPowerState :: "bool \<Rightarrow> nat \<Rightarrow> ('d, 'z) dispatcher_stmt" where
  "remote_setPowerState state callback = executeWithCallback (DoSetPower state) callback"

definition remote_getBrewState :: "nat \<Rightarrow> ('d, 'z) dispatcher_stmt" where
  "remote_getBrewState callback = executeWithCallback GetBrew callback"

definition remote_startBrew :: "nat \<Rightarrow> ('d, 'z) dispatcher_stmt" where
  "remote_startBrew callback = executeWithCallback StartBrew callback"

definition remote_stopBrew :: "nat \<Rightarrow> ('d, 'z) dispatcher_stmt" where
  "remote_stopBrew callback = executeWithCallback StopBrew callback"

definition remote_getSteamModeState :: "nat \<Rightarrow> ('d, 'z) dispatcher_stmt" where
  "remote_getSteamModeState callback = executeWithCallback GetSteam callback"

definition remote_setSteamModeState :: "bool \<Rightarrow> nat \<Rightarrow> ('d, 'z) dispatcher_stmt" where
  "remote_setSteamModeState state callback = executeWithCallback (DoSetSteam state) callback"

definition getUserSettings :: "nat \<Rightarrow> ('d, 'z) dispatcher_stmt" where
  "getUserSettings callback = executeWithCallback GetSettings callback"

definition setUserSettings :: "UserSettings \<Rightarrow> nat \<Rightarrow> ('d, 'z) dispatcher_stmt" where
  "setUserSettings settings callback = executeWithCallback (SetSettings settings) callback"

text \<open>
  The callback that the brew profiler calls: with the index of the next step, or with
  the flag that the brew has stopped.
\<close>

definition brewCallback :: "nat option \<Rightarrow> ('d, 'z) dispatcher_stmt" where
  "brewCallback step =
     (case step of Some n \<Rightarrow> executeDiscardResult (NotifyStep n)
      | None \<Rightarrow> executeDiscardResult DoStopBrew)"

section \<open>Procedures\<close>

definition notifyChanged :: "Event \<Rightarrow> ('d, 'z) dispatcher_stmt" where
  "notifyChanged e = act (\<lambda>s. s\<lparr>m_eventsSinks := map (\<lambda>(i, q). (i, q @ [e])) (m_eventsSinks s)\<rparr>)"

definition doSetPowerState :: "'d lib \<Rightarrow> bool \<Rightarrow> ('d, 'z) dispatcher_stmt" where
  "doSetPowerState L state = block [setPowerState L state, notifyChanged (PowerEvent state)]"

definition doStartBrew :: "'d lib \<Rightarrow> ('d, 'z) dispatcher_stmt" where
  "doStartBrew L = block [startBrew L, notifyChanged (BrewEvent True)]"

definition doStopBrew :: "'d lib \<Rightarrow> ('d, 'z) dispatcher_stmt" where
  "doStopBrew L = branch (\<lambda>s. \<not> getBrewState L s) skip
     (block [stopBrew L, notifyChanged (BrewEvent False)])"

definition notifyHeatingStatusChange :: "HeatingStatus \<Rightarrow> ('d, 'z) dispatcher_stmt" where
  "notifyHeatingStatusChange status = notifyChanged (HeaterEvent status)"

definition doSetSteamModeState :: "'d lib \<Rightarrow> bool \<Rightarrow> ('d, 'z) dispatcher_stmt" where
  "doSetSteamModeState L state =
     block [setSteamModeState L state, notifyChanged (SteamEvent state)]"

definition doNotifyBrewStepChange :: "nat \<Rightarrow> ('d, 'z) dispatcher_stmt" where
  "doNotifyBrewStepChange step = notifyChanged (ProgressEvent (Some step))"

definition sendInitialState ::
    "'d lib \<Rightarrow> ('d, 'z) dispatcher_scheme \<Rightarrow> Event list \<Rightarrow> Event list" where
  "sendInitialState L s sink = sink @
     [PowerEvent (getPowerState s), BrewEvent (getBrewState L s),
      SteamEvent (getSteamModeState s), HeaterEvent (heatingStatus s),
      ProfileEvent (getProfile (m_brewProfileManager s)),
      SettingsEvent (getSettings (m_userSettings s))]"

definition addReactor :: "'d lib \<Rightarrow> nat \<Rightarrow> ('d, 'z) dispatcher_stmt" where
  "addReactor L reactor = act (\<lambda>s. s\<lparr>m_eventsSinks :=
     m_eventsSinks s @ [(reactor, sendInitialState L s [])]\<rparr>)"

definition removeReactor :: "nat \<Rightarrow> ('d, 'z) dispatcher_stmt" where
  "removeReactor reactor = act (\<lambda>s. s\<lparr>m_eventsSinks :=
     filter (\<lambda>(i, q). i \<noteq> reactor) (m_eventsSinks s)\<rparr>)"

definition on_profiles ::
    "('d \<times> brew_profile_manager, 'a) prog \<Rightarrow> (('d, 'z) dispatcher_scheme, 'a) prog" where
  "on_profiles m = zoom (\<lambda>s. (dev s, m_brewProfileManager s))
     (\<lambda>(d, p) s. s\<lparr>dev := d, m_brewProfileManager := p\<rparr>) m"

definition on_settings ::
    "('d \<times> user_settings_manager, 'a) prog \<Rightarrow> (('d, 'z) dispatcher_scheme, 'a) prog" where
  "on_settings m = zoom (\<lambda>s. (dev s, m_userSettings s))
     (\<lambda>(d, p) s. s\<lparr>dev := d, m_userSettings := p\<rparr>) m"

definition doSetBrewProfile ::
    "'d lib \<Rightarrow> BrewProfile json \<Rightarrow> BrewProfile \<Rightarrow> ('d, 'z) dispatcher_stmt" where
  "doSetBrewProfile L J profile = block
     [on_profiles (saveProfile L J profile),
      (\<lambda>s. applyBrewProfile L (m_brewProfileManager s) s),
      notifyChanged (ProfileEvent profile)]"

definition doSetUserSettings ::
    "'d lib \<Rightarrow> UserSettings json \<Rightarrow> UserSettings \<Rightarrow> ('d, 'z) dispatcher_stmt" where
  "doSetUserSettings L J settings = block
     [on_settings (saveSettings L J settings),
      (\<lambda>s. applySettings L (m_userSettings s) s),
      notifyChanged (SettingsEvent settings)]"

definition remoteStopBrew :: "'d lib \<Rightarrow> ('d, 'z) dispatcher_stmt" where
  "remoteStopBrew L = block [stopBrew L, notifyChanged (ProgressEvent None)]"

definition shutdown :: "'d lib \<Rightarrow> ('d, 'z) dispatcher_stmt" where
  "shutdown L = block
     [branch (getBrewState L) (stopBrew L) skip,
      (\<lambda>s. unregisterBrewProfileCallback L (m_brewCallback s) s),
      branch getPowerState (setPowerState L False) skip]"

definition AsyncEventDispatcher_destroy :: "nat \<Rightarrow> ('d, 'z) dispatcher_stmt" where
  "AsyncEventDispatcher_destroy future = executeWithFuture Shutdown future"

section \<open>Running procedures\<close>

definition finish :: "('s stmt) \<Rightarrow> ('s, reply) prog" where
  "finish m = bindp m (\<lambda>_. return Done)"

fun run_procedure ::
    "'d lib \<Rightarrow> BrewProfile json \<Rightarrow> UserSettings json \<Rightarrow> procedure \<Rightarrow>
     (('d, 'z) dispatcher_scheme, reply) prog" where
  "run_procedure L JP JS TogglePower = finish (\<lambda>s. doSetPowerState L (\<not> getPowerState s) s)"
| "run_procedure L JP JS (DoSetPower state) = finish (doSetPowerState L state)"
| "run_procedure L JP JS ToggleBrew =
     finish (branch (getBrewState L) (doStopBrew L) (doStartBrew L))"
| "run_procedure L JP JS DoStartBrew = finish (doStartBrew L)"
| "run_procedure L JP JS DoStopBrew = finish (doStopBrew L)"
| "run_procedure L JP JS ToggleSteam =
     finish (\<lambda>s. doSetSteamModeState L (\<not> getSteamModeState s) s)"
| "run_procedure L JP JS (DoSetSteam state) = finish (doSetSteamModeState L state)"
| "run_procedure L JP JS (NotifyHeating status) = finish (notifyHeatingStatusChange status)"
| "run_procedure L JP JS (NotifyStep n) = finish (doNotifyBrewStepChange n)"
| "run_procedure L JP JS (AddReactor reactor) = finish (addReactor L reactor)"
| "run_procedure L JP JS (ReleaseReactor reactor) = finish (removeReactor reactor)"
| "run_procedure L JP JS ResetScales = finish (resetScales L)"
| "run_procedure L JP JS GetProfile = get (\<lambda>s. Profile (getProfile (m_brewProfileManager s)))"
| "run_procedure L JP JS (SetProfile profile) = finish (doSetBrewProfile L JP profile)"
| "run_procedure L JP JS GetPower = get (\<lambda>s. Flag (getPowerState s))"
| "run_procedure L JP JS GetBrew = get (\<lambda>s. Flag (getBrewState L s))"
| "run_procedure L JP JS StartBrew = finish (startBrew L)"
| "run_procedure L JP JS StopBrew = finish (remoteStopBrew L)"
| "run_procedure L JP JS GetSteam = get (\<lambda>s. Flag (getSteamModeState s))"
| "run_procedure L JP JS GetSettings = get (\<lambda>s. Settings (getSettings (m_userSettings s)))"
| "run_procedure L JP JS (SetSettings settings) = finish (doSetUserSettings L JS settings)"
| "run_procedure L JP JS Shutdown = finish (shutdown L)"

text \<open>
  \<^verbatim>\<open>std::packaged_task\<close> turns an exception of the procedure into the result; a discarded
  result is dropped, the others reach the callback or the future.
\<close>

definition deliver :: "nat \<Rightarrow> exn + reply \<Rightarrow> ('d, 'z) dispatcher_stmt" where
  "deliver receiver r = act (\<lambda>s. s\<lparr>results := results s @ [(receiver, r)]\<rparr>)"

definition packaged ::
    "(('d, 'z) dispatcher_scheme, reply) prog \<Rightarrow>
     (('d, 'z) dispatcher_scheme, exn + reply) prog" where
  "packaged m = catching (bindp m (\<lambda>r. return (Inr r))) (\<lambda>e. return (Inl e))"

fun run_task ::
    "'d lib \<Rightarrow> BrewProfile json \<Rightarrow> UserSettings json \<Rightarrow> task \<Rightarrow> ('d, 'z) dispatcher_stmt" where
  "run_task L JP JS (Discard p) = bindp (packaged (run_procedure L JP JS p)) (\<lambda>_. skip)"
| "run_task L JP JS (WithCallback c p) = bindp (packaged (run_procedure L JP JS p)) (deliver c)"
| "run_task L JP JS (WithFuture f p) = bindp (packaged (run_procedure L JP JS p)) (deliver f)"

text \<open>One round of the worker: the first task of the queue, if there is one.\<close>

definition worker_step ::
    "'d lib \<Rightarrow> BrewProfile json \<Rightarrow> UserSettings json \<Rightarrow> ('d, 'z) dispatcher_stmt" where
  "worker_step L JP JS s =
     (case outbox s of
        [] \<Rightarrow> (s, Inr ())
      | t # ts \<Rightarrow> run_task L JP JS t (s\<lparr>outbox := ts\<rparr>))"

end
