(* ===== verification/Simulator.thy ===== *)
theory Simulator
  imports Interfaces
begin

text \<open>
  A concrete world, used only to show that the named hypotheses about libopenpresso can
  hold and to evaluate the model at concrete inputs: every device is a cell that
  remembers what it was told. No definition of the model depends on it.
\<close>

record sim =
  sim_active :: "label \<Rightarrow> bool"
  sim_out :: "label \<Rightarrow> bool"
  sim_in :: "label \<Rightarrow> bool"
  sim_target :: "label \<Rightarrow> int"
  sim_steps :: "(step_target \<times> advance_condition) list"
  sim_stop :: advance_condition
  sim_temperature :: int
  sim_fixed :: bool
  sim_next :: nat
  sim_clock :: int
  sim_files :: "string \<Rightarrow> string option"

definition sim_lib :: "sim lib" where
  "sim_lib =
     \<lparr>ctl_activate = (\<lambda>l. act (\<lambda>d. d\<lparr>sim_active := (sim_active d)(l := True)\<rparr>)),
      ctl_deactivate = (\<lambda>l. act (\<lambda>d. d\<lparr>sim_active := (sim_active d)(l := False)\<rparr>)),
      ctl_isActive = (\<lambda>l d. sim_active d l),
      out_setState = (\<lambda>l b. act (\<lambda>d. d\<lparr>sim_out := (sim_out d)(l := b)\<rparr>)),
      out_getState = (\<lambda>l d. sim_out d l),
      in_getState = (\<lambda>l. get (\<lambda>d. sim_in d l)),
      temp_getTarget = (\<lambda>l. get (\<lambda>d. sim_target d l)),
      temp_setTarget = (\<lambda>l t. act (\<lambda>d. d\<lparr>sim_target := (sim_target d)(l := t)\<rparr>)),
      prof_setSteps = (\<lambda>xs. act (\<lambda>d. d\<lparr>sim_steps := xs\<rparr>)),
      prof_setAutoStop = (\<lambda>c. act (\<lambda>d. d\<lparr>sim_stop := c\<rparr>)),
      prof_register = return 0,
      prof_unregister = (\<lambda>_. skip),
      in_register = (\<lambda>_. return 0),
      in_unregister = (\<lambda>_ _. skip),
      weight_tare = skip,
      sensor_getTemperature = get sim_temperature,
      sensor_fixedUpdateRate = (\<lambda>d. if sim_fixed d then Some 100000000 else None),
      sensor_register = (\<lambda>_ d. (d\<lparr>sim_next := Suc (sim_next d)\<rparr>, Inr (sim_next d))),
      sensor_unregister = (\<lambda>_. skip),
      lookup = (\<lambda>_. skip),
      steady_now = sim_clock,
      ticks_per_second = 1000000000,
      fits_units = (\<lambda>n. \<bar>n\<bar> < 2 ^ 31),
      fits_ticks = (\<lambda>n. \<bar>n\<bar> < 2 ^ 63),
      fs_read = (\<lambda>p d. case sim_files d p of None \<Rightarrow> ReadNotOpen | Some c \<Rightarrow> Content c),
      fs_write = (\<lambda>p c d. (d\<lparr>sim_files := (sim_files d)(p := Some c)\<rparr>, Written))\<rparr>"

definition sim_world :: sim where
  "sim_world =
     \<lparr>sim_active = (\<lambda>_. False), sim_out = (\<lambda>_. False), sim_in = (\<lambda>_. False),
      sim_target = (\<lambda>_. 0), sim_steps = [], sim_stop = Never, sim_temperature = 20000,
      sim_fixed = False, sim_next = 0, sim_clock = 0, sim_files = (\<lambda>_. None)\<rparr>"

lemma sim_no_device_errors [simp]: "no_device_errors sim_lib"
  by (simp add: no_device_errors_def sim_lib_def prog_defs)

lemma sim_activity_frames [simp]: "activity_frames sim_lib"
  by (simp add: activity_frames_def sim_lib_def frame_def prog_defs)

lemma sim_activity_switches [simp]: "activity_switches sim_lib"
  by (simp add: activity_switches_def sim_lib_def prog_defs)

lemma sim_device_laws [simp]: "device_laws sim_lib"
  by (simp add: device_laws_def)

lemma sim_led_laws [simp]: "led_laws sim_lib"
  by (auto simp: led_laws_def sim_lib_def frame_def prog_defs)

lemma sim_ticks [simp]: "ticks_per_second sim_lib = 1000000000"
  by (simp add: sim_lib_def)

lemma sim_isActive [simp]: "ctl_isActive sim_lib l d = sim_active d l"
  by (simp add: sim_lib_def)

lemma sim_now [simp]: "steady_now sim_lib d = sim_clock d"
  by (simp add: sim_lib_def)

end
