(* ===== verification/StatusProps.thy ===== *)
theory StatusProps
  imports StatusManager Simulator
begin

text \<open>
  What the status manager guarantees: the hysteresis of the ready status for sensors with
  and without a fixed rate, the statuses it publishes, and the agreement of the published
  status with the LEDs in every reachable state.
\<close>

section \<open>The order of the statuses\<close>

text \<open>From off to too hot.\<close>

fun heat_rank :: "HeatingStatus \<Rightarrow> nat" where
  "heat_rank DISABLED = 0"
| "heat_rank Preheat = 1"
| "heat_rank Ready = 2"
| "heat_rank Overheat = 3"

lemma heat_rank_inj [simp]: "heat_rank a = heat_rank b \<longleftrightarrow> a = b"
  by (cases a; cases b) simp_all

instantiation HeatingStatus :: linorder
begin

definition less_eq_HeatingStatus :: "HeatingStatus \<Rightarrow> HeatingStatus \<Rightarrow> bool" where
  "a \<le> b \<longleftrightarrow> heat_rank a \<le> heat_rank b"

definition less_HeatingStatus :: "HeatingStatus \<Rightarrow> HeatingStatus \<Rightarrow> bool" where
  "a < b \<longleftrightarrow> heat_rank a < heat_rank b"

instance
  by standard (auto simp: less_eq_HeatingStatus_def less_HeatingStatus_def simp flip: heat_rank_inj)

end

lemma makeStatus_ready: "makeStatus t tg w = Ready \<longleftrightarrow> \<bar>t - tg\<bar> \<le> w"
  by (auto simp: makeStatus_def)

lemma makeStatus_monotone: "t \<le> t' \<Longrightarrow> makeStatus t tg w \<le> makeStatus t' tg w"
  unfolding less_eq_HeatingStatus_def by (auto simp: makeStatus_def)

section \<open>Hysteresis of the ready status\<close>

definition in_range :: "int \<Rightarrow> int \<Rightarrow> int \<Rightarrow> bool" where
  "in_range target window temperature \<longleftrightarrow> makeStatus temperature target window = Ready"

text \<open>The number of values at the end of a list that satisfy a predicate.\<close>

definition streak :: "('a \<Rightarrow> bool) \<Rightarrow> 'a list \<Rightarrow> nat" where
  "streak P xs = length (takeWhile P (rev xs))"

lemma streak_Nil [simp]: "streak P [] = 0"
  by (simp add: streak_def)

lemma streak_snoc [simp]: "streak P (xs @ [x]) = (if P x then Suc (streak P xs) else 0)"
  by (simp add: streak_def)

lemma streak_le: "streak P xs \<le> length xs"
  using length_takeWhile_le [of P "rev xs"] by (simp add: streak_def)

definition deliverAll :: "'d lib \<Rightarrow> int list \<Rightarrow> ('d, 'o, 'z) status_manager_scheme stmt" where
  "deliverAll L ts = block (map (deliverTemperature L) ts)"

lemma deliverAll_snoc:
  "snd (deliverAll L ts s) = Inr () \<Longrightarrow>
   deliverAll L (ts @ [t]) s = deliverTemperature L t (fst (deliverAll L ts s))"
  by (cases "snd (deliverTemperature L t (fst (deliverAll L ts s)))")
    (auto simp: deliverAll_def block_append prod_eq_iff)

text \<open>What one delivery does to the status, the counter and the result.\<close>

lemma deliver_fixed:
  assumes "no_device_errors L" and "sensorCallback s = Some (FixedRate b tg w n c)"
  shows "snd (deliverTemperature L t s) = Inr ()"
    and "m_heatingStatusCached (fst (deliverTemperature L t s)) =
      (if \<not> in_range tg w t then makeStatus t tg w
       else if m_heatingStatusCached s = Ready \<or> n \<le> c + 1 then Ready
       else m_heatingStatusCached s)"
    and "sensorCallback (fst (deliverTemperature L t s)) =
      Some (FixedRate b tg w n
        (if \<not> in_range tg w t then 0 else if m_heatingStatusCached s = Ready then c else c + 1))"
  using assms
  by (simp_all add: deliverTemperature_def temperatureCallback_def fixedRateCallback_def
      in_range_def Let_def set_closure_def prog_defs applyStatus_result(1) applyStatus_fields)

definition status_after :: "nat \<Rightarrow> int \<Rightarrow> int \<Rightarrow> HeatingStatus \<Rightarrow> int list \<Rightarrow> HeatingStatus" where
  "status_after n tg w st ts =
     (let k = streak (in_range tg w) ts
      in if n \<le> k then Ready
         else if k = length ts then st
         else makeStatus (ts ! (length ts - Suc k)) tg w)"

lemma fixed_rate_run:
  assumes "no_device_errors L" and "sensorCallback s = Some (FixedRate b tg w n 0)"
    and "m_heatingStatusCached s \<noteq> Ready" and "0 < n"
  shows "snd (deliverAll L ts s) = Inr () \<and>
    m_heatingStatusCached (fst (deliverAll L ts s)) = status_after n tg w (m_heatingStatusCached s) ts \<and>
    (m_heatingStatusCached (fst (deliverAll L ts s)) = Ready \<longleftrightarrow> n \<le> streak (in_range tg w) ts) \<and>
    (\<exists>c. sensorCallback (fst (deliverAll L ts s)) = Some (FixedRate b tg w n c) \<and>
      (m_heatingStatusCached (fst (deliverAll L ts s)) \<noteq> Ready \<longrightarrow> c = streak (in_range tg w) ts))"
proof (induction ts rule: rev_induct)
  case Nil
  show ?case using assms by (simp add: deliverAll_def status_after_def)
next
  case (snoc t ts)
  let ?s = "fst (deliverAll L ts s)" and ?k = "streak (in_range tg w) ts"
  from snoc obtain c where ok: "snd (deliverAll L ts s) = Inr ()"
    and st: "m_heatingStatusCached ?s = status_after n tg w (m_heatingStatusCached s) ts"
    and rd: "m_heatingStatusCached ?s = Ready \<longleftrightarrow> n \<le> ?k"
    and cb: "sensorCallback ?s = Some (FixedRate b tg w n c)"
    and c: "m_heatingStatusCached ?s \<noteq> Ready \<longrightarrow> c = ?k" by blast
  note d = deliver_fixed [OF assms(1) cb, of t]
  have e: "deliverAll L (ts @ [t]) s = deliverTemperature L t ?s"
    using ok by (rule deliverAll_snoc)
  show ?case
  proof (cases "in_range tg w t")
    case False
    then show ?thesis using d assms(4)
      by (auto simp: e status_after_def in_range_def Let_def)
  next
    case True
    have "status_after n tg w (m_heatingStatusCached s) (ts @ [t]) =
      (if n \<le> Suc ?k then Ready else status_after n tg w (m_heatingStatusCached s) ts)"
      using True streak_le [of "in_range tg w" ts]
      by (auto simp: status_after_def Let_def nth_append)
    with True d rd c st show ?thesis by (auto simp: e)
  qed
qed

text \<open>
  C17: with a fixed sensor rate, the status after any number of readings is the status of
  the last reading outside the window, unless at least \<open>n\<close> readings since then were
  inside: exactly then it is ready. Readings inside the window alone leave the initial
  status until there are \<open>n\<close> of them. No reading fails.
\<close>

theorem fixed_rate_hysteresis:
  assumes "no_device_errors L" and "sensorCallback s = Some (FixedRate b tg w n 0)"
    and "m_heatingStatusCached s \<noteq> Ready" and "0 < n"
  shows "snd (deliverAll L ts s) = Inr () \<and>
    m_heatingStatusCached (fst (deliverAll L ts s)) =
      status_after n tg w (m_heatingStatusCached s) ts \<and>
    (m_heatingStatusCached (fst (deliverAll L ts s)) = Ready \<longleftrightarrow> n \<le> streak (in_range tg w) ts)"
  using fixed_rate_run [OF assms] by blast

definition sample_status :: "temperature_callback \<Rightarrow> (sim, HeatingStatus list) status_manager" where
  "sample_status cb =
     \<lparr>dev = sim_world, outbox = [], m_callback = (\<lambda>st q. q @ [st]),
      m_heatingStatus = Preheat, m_heatingStatusCached = Preheat,
      m_brewTemperatureWindow = 500, m_steamTemperatureWindow = 1000,
      m_readyHysteresisPeriod = 250000000, m_temperatureCallback = Some 0,
      sensorCallback = Some cb\<rparr>"

theorem fixed_rate_hysteresis_witness:
  "m_heatingStatusCached (fst (deliverAll sim_lib [95000, 95000, 94000, 95000, 95000, 95400]
     (sample_status (FixedRate False 95000 500 3 0)))) = Ready"
  using fixed_rate_hysteresis [of sim_lib "sample_status (FixedRate False 95000 500 3 0)"
      False 95000 500 3 "[95000, 95000, 94000, 95000, 95000, 95400]"]
  by (simp add: sample_status_def status_after_def streak_def in_range_def makeStatus_def)

text \<open>The same for a sensor without a fixed rate: readings come with the world they are read in.\<close>

definition deliverAt ::
    "'d lib \<Rightarrow> 'd \<times> int \<Rightarrow> ('d, 'o, 'z) status_manager_scheme stmt" where
  "deliverAt L x = block [act (\<lambda>s. s\<lparr>dev := fst x\<rparr>), deliverTemperature L (snd x)]"

definition deliverAllAt ::
    "'d lib \<Rightarrow> ('d \<times> int) list \<Rightarrow> ('d, 'o, 'z) status_manager_scheme stmt" where
  "deliverAllAt L xs = block (map (deliverAt L) xs)"

lemma deliverAllAt_snoc:
  "snd (deliverAllAt L xs s) = Inr () \<Longrightarrow>
   deliverAllAt L (xs @ [x]) s = deliverAt L x (fst (deliverAllAt L xs s))"
  by (cases "snd (deliverAt L x (fst (deliverAllAt L xs s)))")
    (auto simp: deliverAllAt_def block_append prod_eq_iff)

text \<open>Whether the window was kept for the hysteresis period between two clock readings.\<close>

definition held :: "'d lib \<Rightarrow> int \<Rightarrow> int \<Rightarrow> int \<Rightarrow> bool" where
  "held L period since now \<longleftrightarrow> period * 1000000000 \<le> (now - since) * ticks_per_second L"

lemma deliver_variable:
  fixes s :: "('d, 'o, 'z) status_manager_scheme"
  assumes "no_device_errors L" and "sensorCallback s = Some (VariableRate b tg w since)"
    and "now = steady_now L (fst x)" and "start = (case since of None \<Rightarrow> now | Some u \<Rightarrow> u)"
    and "ready = held L (m_readyHysteresisPeriod s) start now"
    and "s' = fst (deliverAt L x s)"
  shows "snd (deliverAt L x s) = Inr ()"
    and "m_readyHysteresisPeriod s' = m_readyHysteresisPeriod s"
    and "m_heatingStatusCached s' =
      (if \<not> in_range tg w (snd x) then makeStatus (snd x) tg w
       else if m_heatingStatusCached s = Ready \<or> ready then Ready
       else m_heatingStatusCached s)"
    and "sensorCallback s' =
      Some (VariableRate b tg w
        (if \<not> in_range tg w (snd x) then None
         else if m_heatingStatusCached s = Ready then since
         else if ready then None else Some start))"
  unfolding assms(3-6) using assms(1,2)
  by (simp_all add: deliverAt_def deliverTemperature_def temperatureCallback_def
      variableRateCallback_def held_def in_range_def Let_def set_closure_def prog_defs
      applyStatus_result(1) applyStatus_fields)

text \<open>The clock reading of the first of the readings inside the window at the end.\<close>

definition streak_start :: "'d lib \<Rightarrow> int \<Rightarrow> int \<Rightarrow> ('d \<times> int) list \<Rightarrow> int" where
  "streak_start L tg w xs =
     steady_now L (fst (xs ! (length xs - streak (\<lambda>x. in_range tg w (snd x)) xs)))"

definition held_for_period :: "'d lib \<Rightarrow> int \<Rightarrow> int \<Rightarrow> int \<Rightarrow> ('d \<times> int) list \<Rightarrow> bool" where
  "held_for_period L period tg w xs \<longleftrightarrow>
     0 < streak (\<lambda>x. in_range tg w (snd x)) xs \<and>
     held L period (streak_start L tg w xs) (steady_now L (fst (last xs)))"

lemma streak_start_snoc:
  assumes "in_range tg w (snd x)"
  shows "streak_start L tg w (xs @ [x]) =
    (if streak (\<lambda>x. in_range tg w (snd x)) xs = 0 then steady_now L (fst x)
     else streak_start L tg w xs)"
  using assms streak_le [of "\<lambda>x. in_range tg w (snd x)" xs]
  by (auto simp: streak_start_def nth_append)

text \<open>What was held until the last reading is held at a later one.\<close>

lemma held_later:
  assumes "held_for_period L p tg w xs" and "0 < ticks_per_second L"
    and "sorted (map (\<lambda>x. steady_now L (fst x)) (xs @ [x]))"
  shows "held L p (streak_start L tg w xs) (steady_now L (fst x))"
proof -
  have "xs \<noteq> []" using assms(1) by (auto simp: held_for_period_def)
  then have "steady_now L (fst (last xs)) \<le> steady_now L (fst x)"
    using assms(3) by (auto simp: sorted_append)
  then have "(steady_now L (fst (last xs)) - streak_start L tg w xs) * ticks_per_second L
      \<le> (steady_now L (fst x) - streak_start L tg w xs) * ticks_per_second L"
    using assms(2) by (intro mult_right_mono) auto
  with assms(1) show ?thesis by (auto simp: held_for_period_def held_def)
qed

lemma variable_rate_run:
  fixes s :: "('d, 'o, 'z) status_manager_scheme" and xs :: "('d \<times> int) list"
  assumes "no_device_errors L" and "sensorCallback s = Some (VariableRate b tg w None)"
    and "m_heatingStatusCached s \<noteq> Ready" and "0 < ticks_per_second L"
    and "sorted (map (\<lambda>x. steady_now L (fst x)) xs)"
  defines "P \<equiv> \<lambda>x :: 'd \<times> int. in_range tg w (snd x)"
  shows "snd (deliverAllAt L xs s) = Inr () \<and>
    m_readyHysteresisPeriod (fst (deliverAllAt L xs s)) = m_readyHysteresisPeriod s \<and>
    (m_heatingStatusCached (fst (deliverAllAt L xs s)) = Ready \<longleftrightarrow>
       held_for_period L (m_readyHysteresisPeriod s) tg w xs) \<and>
    (\<exists>u. sensorCallback (fst (deliverAllAt L xs s)) = Some (VariableRate b tg w u) \<and>
      (m_heatingStatusCached (fst (deliverAllAt L xs s)) \<noteq> Ready \<longrightarrow>
        u = (if streak P xs = 0 then None else Some (streak_start L tg w xs))))"
  using assms(5)
proof (induction xs rule: rev_induct)
  case Nil
  show ?case using assms(1-4) by (simp add: deliverAllAt_def held_for_period_def)
next
  case (snoc x xs)
  let ?s = "fst (deliverAllAt L xs s)" and ?p = "m_readyHysteresisPeriod s"
  from snoc obtain u where ok: "snd (deliverAllAt L xs s) = Inr ()"
    and p: "m_readyHysteresisPeriod ?s = ?p"
    and rd: "m_heatingStatusCached ?s = Ready \<longleftrightarrow> held_for_period L ?p tg w xs"
    and cb: "sensorCallback ?s = Some (VariableRate b tg w u)"
    and u: "m_heatingStatusCached ?s \<noteq> Ready \<longrightarrow>
      u = (if streak P xs = 0 then None else Some (streak_start L tg w xs))"
    by (auto simp: sorted_append)
  note d = deliver_variable [OF assms(1) cb refl refl refl refl, of x]
  have e: "deliverAllAt L (xs @ [x]) s = deliverAt L x ?s"
    using ok by (rule deliverAllAt_snoc)
  show ?case
  proof (cases "P x")
    case False
    then show ?thesis using d p
      by (auto simp: e held_for_period_def in_range_def P_def)
  next
    case True
    have mono: "held_for_period L ?p tg w xs \<Longrightarrow>
        held L ?p (streak_start L tg w xs) (steady_now L (fst x))"
      by (rule held_later [OF _ assms(4) snoc.prems])
    have h: "held_for_period L ?p tg w (xs @ [x]) \<longleftrightarrow>
        held L ?p (if streak P xs = 0 then steady_now L (fst x) else streak_start L tg w xs)
          (steady_now L (fst x))"
      using True by (simp add: held_for_period_def streak_start_snoc P_def)
    have nz: "held_for_period L ?p tg w xs \<Longrightarrow> streak P xs \<noteq> 0"
      by (simp add: held_for_period_def P_def)
    show ?thesis using True d rd u p mono nz h
      by (auto simp: e P_def streak_start_snoc)
  qed
qed

text \<open>
  C18: without a fixed sensor rate, and with clock readings that do not go back, the
  status after any number of readings is ready exactly when the readings at the end that
  are inside the window span at least the hysteresis period. No reading fails.
\<close>

theorem variable_rate_hysteresis:
  assumes "no_device_errors L" and "sensorCallback s = Some (VariableRate b tg w None)"
    and "m_heatingStatusCached s \<noteq> Ready" and "0 < ticks_per_second L"
    and "sorted (map (\<lambda>x. steady_now L (fst x)) xs)"
  shows "snd (deliverAllAt L xs s) = Inr () \<and>
    (m_heatingStatusCached (fst (deliverAllAt L xs s)) = Ready \<longleftrightarrow>
       held_for_period L (m_readyHysteresisPeriod s) tg w xs)"
  using variable_rate_run [OF assms] by blast


theorem variable_rate_hysteresis_witness:
  "m_heatingStatusCached (fst (deliverAllAt sim_lib
     (map (\<lambda>t. (sim_world\<lparr>sim_clock := t\<rparr>, 95000)) [0, 100000000, 250000000])
     (sample_status (VariableRate False 95000 500 None)))) = Ready"
  using variable_rate_hysteresis [of sim_lib "sample_status (VariableRate False 95000 500 None)"
      False 95000 500 "map (\<lambda>t. (sim_world\<lparr>sim_clock := t\<rparr>, 95000)) [0, 100000000, 250000000]"]
  by (simp add: sample_status_def streak_def in_range_def makeStatus_def held_for_period_def
      held_def streak_start_def)

section \<open>The number of readings the hysteresis period takes\<close>

lemma required_counts:
  assumes "ticks_per_second L = 1000000000"
  shows "requiredInvocations L 5000000000 100000000 = Inr 50 \<and>
    requiredInvocations L 250000000 100000000 = Inr 3 \<and>
    requiredInvocations L 0 100000000 = Inr 1 \<and>
    requiredInvocations L 4300000000 100000000 = Inr 44"
proof -
  have r: "requiredInvocations L p r =
      (case float_to_int fits_size_t (fceil (fdiv (fmul (fdiv (float_of_int p)
           (float_of_int 1000000000)) (float_of_int 1000000000)) (float_of_int r))) of
        Inl e \<Rightarrow> Inl e | Inr n \<Rightarrow> Inr (max 1 (nat n)))" for p r
    by (simp only: requiredInvocations_def float_seconds_over_ticks_def
        ticks_to_float_seconds_def assms)
  show ?thesis unfolding r by (intro conjI; code_simp)
qed

text \<open>
  In general the count is the quotient rounded up after five roundings to 24 binary digits,
  which move the quotient by at most one part in 2 to the 21.
\<close>

lemma requiredInvocations_near:
  assumes "0 < p" "p < 2 ^ 63" and "0 < r" "r < 2 ^ 63"
    and "0 < ticks_per_second L" "ticks_per_second L < 2 ^ 63"
  obtains f where "requiredInvocations L p r = Inr (max 1 (nat \<lceil>of_int p / of_int r * f\<rceil>))"
    and "1 - 1 / 2 ^ 21 \<le> f" and "f \<le> (1 + 1 / 2 ^ 21 :: rat)"
proof -
  obtain f where f: "fdiv (fmul (fdiv (float_of_int p) (float_of_int (ticks_per_second L)))
        (float_of_int (ticks_per_second L))) (float_of_int r) = Finite (of_int p / of_int r * f)"
    "1 - 1 / 2 ^ 21 \<le> f" "f \<le> 1 + 1 / 2 ^ 21"
    by (rule float_quotient [OF assms])
  define q :: rat where "q = of_int p / of_int r * f"
  have "(of_int p / of_int r :: rat) \<le> of_int p / 1"
    using assms by (intro divide_left_mono) simp_all
  moreover have "rat_of_int p \<le> 2 ^ 63"
    using assms of_int_le_iff [of p "2 ^ 63", where 'a = rat] by simp
  moreover have "0 \<le> (of_int p / of_int r :: rat)" "0 \<le> f" using assms f(2) by simp_all
  ultimately have "q \<le> 2 ^ 63 * (1 + 1 / 2 ^ 21)" "0 \<le> q"
    unfolding q_def using f(3) by (intro mult_mono mult_nonneg_nonneg; linarith)+
  then have "0 \<le> \<lceil>q\<rceil>" "\<lceil>q\<rceil> < 2 ^ 64" by (auto simp: ceiling_less_iff)
  then have "float_to_int fits_size_t (fceil (Finite q)) = Inr \<lceil>q\<rceil>"
    by (simp add: fits_size_t_def)
  then have "requiredInvocations L p r = Inr (max 1 (nat \<lceil>q\<rceil>))"
    by (simp only: requiredInvocations_def float_seconds_over_ticks_def
        ticks_to_float_seconds_def f(1) [folded q_def] sum.case)
  with f(2,3) that show ?thesis unfolding q_def by blast
qed

lemma requiredInvocations_zero:
  assumes "0 < r" "r < 2 ^ 63" and "0 < ticks_per_second L" "ticks_per_second L < 2 ^ 63"
  shows "requiredInvocations L 0 r = Inr 1"
proof -
  have nz: "\<exists>x. float_of_int n = Finite x \<and> x \<noteq> 0" if n: "0 < n" "n < 2 ^ 63" for n
  proof (rule float_of_int_near [OF n])
    fix d
    assume "float_of_int n = Finite (of_int n * (1 + d))" "1 / 2 \<le> of_int n * (1 + d)"
    then show ?thesis by (metis divide_le_0_1_iff not_numeral_le_zero zero_le_numeral)
  qed
  have z: "float_of_int 0 = Finite 0" by (simp add: float_of_int_def f32_def)
  obtain x where x: "float_of_int (ticks_per_second L) = Finite x" "x \<noteq> 0" using nz [OF assms(3,4)] by blast
  obtain y where y: "float_of_int r = Finite y" "y \<noteq> 0" using nz [OF assms(1,2)] by blast
  have f0: "f32 0 = Finite 0" by (simp add: f32_def)
  show ?thesis
    by (simp add: requiredInvocations_def float_seconds_over_ticks_def ticks_to_float_seconds_def
        x y z f0 fits_size_t_def trunc_def)
qed

lemma required_readings_near:
  fixes L :: "'d lib"
  assumes "0 \<le> p" "p < 2 ^ 63" and "0 < r" "r < 2 ^ 63"
    and "0 < ticks_per_second L" "ticks_per_second L < 2 ^ 63"
  defines "q \<equiv> of_int p / of_int r :: rat"
  shows "\<exists>n. requiredInvocations L p r = Inr n \<and>
    max 1 \<lceil>q * (1 - 1 / 2 ^ 21)\<rceil> \<le> int n \<and> int n \<le> max 1 \<lceil>q * (1 + 1 / 2 ^ 21)\<rceil> \<and>
    (q \<le> 2 ^ 20 \<longrightarrow> \<bar>int n - max 1 \<lceil>q\<rceil>\<bar> \<le> 1)"
proof (cases "p = 0")
  case True
  then have "requiredInvocations L p r = Inr 1"
    using requiredInvocations_zero [OF assms(3-6)] by simp
  with True show ?thesis by (simp add: q_def)
next
  case False
  then obtain f where f: "requiredInvocations L p r = Inr (max 1 (nat \<lceil>q * f\<rceil>))"
    "1 - 1 / 2 ^ 21 \<le> f" "f \<le> 1 + 1 / 2 ^ 21"
    using requiredInvocations_near [of p r L] assms by auto
  have q: "0 \<le> q" using assms by (simp add: q_def)
  have lo: "q * (1 - 1 / 2 ^ 21) \<le> q * f" by (rule mult_left_mono [OF f(2) q])
  have hi: "q * f \<le> q * (1 + 1 / 2 ^ 21)" by (rule mult_left_mono [OF f(3) q])
  from lo hi have c: "\<lceil>q * (1 - 1 / 2 ^ 21)\<rceil> \<le> \<lceil>q * f\<rceil>" "\<lceil>q * f\<rceil> \<le> \<lceil>q * (1 + 1 / 2 ^ 21)\<rceil>"
    by (simp_all only: ceiling_mono)
  have "\<bar>\<lceil>q * f\<rceil> - \<lceil>q\<rceil>\<bar> \<le> 1" if "q \<le> 2 ^ 20"
  proof -
    have "q / 2 ^ 21 \<le> 1 / 2" using that by simp
    then have "q * f \<le> q + 1" "q \<le> q * f + 1"
      using lo hi by (simp_all add: algebra_simps)
    then show ?thesis by linarith
  qed
  with f(1) c show ?thesis by (intro exI [of _ "max 1 (nat \<lceil>q * f\<rceil>)"]) auto
qed

text \<open>
  C31: the sample count is computed in binary32. For every period and rate of a signed 64 bit
  tick type the computation is defined (the conversion to an integer is never out of range),
  gives at least one reading and lies between the ceilings of the exact quotient made smaller
  and larger by one part in 2 to the 21; up to a million readings it is off by at most one. It
  can be off: with nanosecond ticks, 4.3 s at 100 ms gives 44 readings where the quotient is
  43. The default period of 5 s gives the 50 it should.
\<close>

theorem required_readings_bound:
  fixes L :: "'d lib"
  assumes "0 \<le> p" "p < 2 ^ 63" and "0 < r" "r < 2 ^ 63"
    and "0 < ticks_per_second L" "ticks_per_second L < 2 ^ 63"
  shows "(\<exists>n. requiredInvocations L p r = Inr n \<and> 1 \<le> n \<and>
      (let q = of_int p / of_int r :: rat in
         \<lceil>q * (1 - 1 / 2 ^ 21)\<rceil> \<le> int n \<and> int n \<le> max 1 \<lceil>q * (1 + 1 / 2 ^ 21)\<rceil> \<and>
         (q \<le> 2 ^ 20 \<longrightarrow> \<bar>int n - max 1 \<lceil>q\<rceil>\<bar> \<le> 1))) \<and>
    (ticks_per_second L = 1000000000 \<longrightarrow>
       requiredInvocations L 5000000000 100000000 = Inr 50 \<and>
       requiredInvocations L 4300000000 100000000 = Inr 44)"
  using required_readings_near [OF assms] required_counts [of L] by (auto simp: Let_def)

theorem required_readings_bound_witness:
  "\<exists>n. requiredInvocations sim_lib 4300000000 100000000 = Inr n \<and> \<bar>int n - 43\<bar> \<le> 1"
  using required_readings_bound [of 4300000000 100000000 sim_lib]
  by (auto simp: Let_def sim_ticks)

section \<open>Every reachable state of the status manager\<close>

text \<open>
  The steps of a status manager whose callback appends to a list: its operations with any
  target, a reading of any temperature, and any change of the world that leaves the LEDs
  alone. An operation may end with an exception: the step then leads to the state the
  exception left.
\<close>

inductive status_step ::
    "'d lib \<Rightarrow> ('d, HeatingStatus list) status_manager \<Rightarrow>
     ('d, HeatingStatus list) status_manager \<Rightarrow> bool" for L where
  brew: "status_step L s (fst (indicateBrewState L t s))"
| steam: "status_step L s (fst (indicateSteamState L t s))"
| off: "status_step L s (fst (disable L s))"
| reading: "status_step L s (fst (deliverTemperature L t s))"
| world: "led_display L d = led_display L (dev s) \<Longrightarrow> status_step L s (s\<lparr>dev := d\<rparr>)"

definition status_start ::
    "'d lib \<Rightarrow> int \<Rightarrow> int \<Rightarrow> int \<Rightarrow> ('d, HeatingStatus list) status_manager \<Rightarrow> bool" where
  "status_start L bw sw p s \<longleftrightarrow>
     (\<exists>d d' s0. StatusManager_create L bw sw p [] d = (d', Inr s0) \<and>
        s = fst (setCallback (\<lambda>st q. q @ [st]) s0))"

definition publications_ok :: "('d, HeatingStatus list) status_manager \<Rightarrow> bool" where
  "publications_ok s \<longleftrightarrow>
     m_callback s = (\<lambda>st q. q @ [st]) \<and>
     distinct_adj (DISABLED # outbox s) \<and>
     last (DISABLED # outbox s) = m_heatingStatusCached s \<and>
     m_heatingStatus s = m_heatingStatusCached s"

lemma publications_on_dev [kept]: "keeps publications_ok (on_dev m)"
  by (simp add: keeps_def publications_ok_def)

lemma publications_act [kept]:
  "(\<And>s. m_callback (g s) = m_callback s \<and> outbox (g s) = outbox s \<and>
     m_heatingStatusCached (g s) = m_heatingStatusCached s \<and>
     m_heatingStatus (g s) = m_heatingStatus s) \<Longrightarrow> keeps publications_ok (act g)"
  by (simp add: keeps_def publications_ok_def prog_defs)

lemma publications_publishStatus [kept]: "keeps publications_ok (publishStatus st)"
  by (auto simp: keeps_def publications_ok_def publishStatus_result distinct_adj_append_iff
      simp flip: append_Cons)

lemma publications_applyStatus [kept]: "keeps publications_ok (applyStatus L b st)"
  unfolding applyStatus_def by (intro kept)

lemma publications_unregister [kept]: "keeps publications_ok (unregisterTemperatureCallback L)"
proof -
  have "keeps publications_ok (block [act (\<lambda>s. s\<lparr>m_temperatureCallback := None\<rparr>),
      on_dev (sensor_unregister L descr), act (\<lambda>s. s\<lparr>sensorCallback := None\<rparr>)])" for descr
    by (intro kept publications_act) simp_all
  then show ?thesis
    by (auto simp: keeps_def unregisterTemperatureCallback_def split: option.split)
qed

lemma publications_indicate [kept]: "keeps publications_ok (indicateState L b t)"
  unfolding indicateState_def registerTemperatureCallback_def
  by (intro kept publications_act keeps_frame [of id, simplified] frames) simp_all

lemma publications_disable [kept]: "keeps publications_ok (disable L)"
  unfolding disable_def by (intro kept)

lemma publications_deliver [kept]: "keeps publications_ok (deliverTemperature L t)"
proof -
  have "keeps publications_ok (fixedRateCallback L b tg w n c t)" for b tg w n c
    unfolding fixedRateCallback_def set_closure_def Let_def
    by (intro kept publications_act) simp_all
  moreover have "keeps publications_ok (variableRateCallback L b tg w u t)" for b tg w u
    unfolding variableRateCallback_def set_closure_def Let_def
    by (intro kept publications_act) simp_all
  ultimately have "keeps publications_ok (temperatureCallback L cb t)" for cb
    by (cases cb) (simp_all add: temperatureCallback_def)
  then show ?thesis
    by (auto simp: keeps_def deliverTemperature_def split: option.split)
qed

lemma publications_step: "status_step L s t \<Longrightarrow> publications_ok s \<Longrightarrow> publications_ok t"
proof (induction rule: status_step.induct)
  case (world d s)
  then show ?case by (simp add: publications_ok_def)
qed (simp_all add: indicateState_eq keepsD [OF publications_indicate]
    keepsD [OF publications_disable] keepsD [OF publications_deliver])

lemma publications_start: "status_start L bw sw p s \<Longrightarrow> publications_ok s"
  by (auto simp: status_start_def setCallback_def act_def publications_ok_def
      dest!: StatusManager_create_result)

interpretation publications: safety "status_start L bw sw p" "status_step L" publications_ok
  for L bw sw p
  by unfold_locales (auto intro: publications_start publications_step)

text \<open>
  C25: whatever the devices do, exceptions included, the status manager publishes a status
  exactly when it changes: no status is published twice in a row, the first one is not
  \<open>DISABLED\<close>, and the last one published is the status it reports.
\<close>

theorem statuses_published_on_change:
  assumes "status_start L bw sw p s" and "(status_step L)\<^sup>*\<^sup>* s t"
  shows "distinct_adj (DISABLED # outbox t) \<and>
    last (DISABLED # outbox t) = getCurrentStatus t"
  using publications.reachable_inv [OF assms]
  by (simp add: publications_ok_def getCurrentStatus_def)

text \<open>
  A run used as a witness: power on at 20 degrees (target 95), readings up to the window,
  overheating, and power off.
\<close>

definition sample_run :: "(sim, HeatingStatus list) status_manager list" where
  "sample_run =
     (let s0 = \<lparr>dev = sim_world, outbox = [], m_callback = (\<lambda>st q. q @ [st]),
                m_heatingStatus = DISABLED, m_heatingStatusCached = DISABLED,
                m_brewTemperatureWindow = 500, m_steamTemperatureWindow = 1000,
                m_readyHysteresisPeriod = 0, m_temperatureCallback = None,
                sensorCallback = None\<rparr>;
          s1 = fst (indicateBrewState sim_lib 95000 s0);
          s2 = fst (deliverTemperature sim_lib 95000 s1);
          s3 = fst (deliverTemperature sim_lib 97000 s2);
          s4 = fst (disable sim_lib s3)
      in [s0, s1, s2, s3, s4])"

lemma sample_run_start: "status_start sim_lib 500 1000 0 (sample_run ! 0)"
proof -
  have "StatusManager_create sim_lib 500 1000 0 [] sim_world =
      (sim_world, Inr ((sample_run ! 0)\<lparr>m_callback := (\<lambda>_ q. q)\<rparr>))"
    by (simp add: StatusManager_create_def sim_lib_def prog_defs sample_run_def Let_def)
  moreover have "sample_run ! 0 =
      fst (setCallback (\<lambda>st q. q @ [st]) ((sample_run ! 0)\<lparr>m_callback := (\<lambda>_ q. q)\<rparr>))"
    by (simp add: setCallback_def act_def sample_run_def Let_def)
  ultimately show ?thesis unfolding status_start_def by blast
qed

lemma sample_run_steps:
  "status_step sim_lib (sample_run ! 0) (sample_run ! 1)"
  "status_step sim_lib (sample_run ! 1) (sample_run ! 2)"
  "status_step sim_lib (sample_run ! 2) (sample_run ! 3)"
  "status_step sim_lib (sample_run ! 3) (sample_run ! 4)"
  by (simp_all add: sample_run_def Let_def status_step.intros numeral_eq_Suc)

lemma sample_run_reach:
  "(status_step sim_lib)\<^sup>*\<^sup>* (sample_run ! 0) (sample_run ! 3)"
  "(status_step sim_lib)\<^sup>*\<^sup>* (sample_run ! 0) (sample_run ! 4)"
  using sample_run_steps by (meson rtranclp.rtrancl_into_rtrancl rtranclp.rtrancl_refl)+

lemmas status_eval =
  sample_run_def Let_def indicateBrewState_def disable_def unregisterTemperatureCallback_def
  applyStatus_def publishStatus_def makeStatus_def makeTemperatureCallback_def
  makeVariableRateCallback_def registerTemperatureCallback_def deliverTemperature_def
  temperatureCallback_def variableRateCallback_def set_closure_def indicate_defs
  on_dev_def sim_lib_def sim_world_def prog_defs

lemma sample_run_outbox: "outbox (sample_run ! 4) = [Preheat, Ready, Overheat, DISABLED]"
  by (simp add: status_eval)

lemma sample_run_status: "getCurrentStatus (sample_run ! 4) = DISABLED"
  by (simp add: status_eval getCurrentStatus_def)

theorem statuses_published_on_change_witness:
  "distinct_adj [DISABLED, Preheat, Ready, Overheat, DISABLED] \<and>
   getCurrentStatus (sample_run ! 4) = DISABLED"
  using statuses_published_on_change [OF sample_run_start sample_run_reach(2)]
  by (simp add: sample_run_outbox)

section \<open>The LEDs show the published status\<close>

definition rates_ok :: "'d lib \<Rightarrow> int \<Rightarrow> bool" where
  "rates_ok L p \<longleftrightarrow>
     (\<forall>d r. sensor_fixedUpdateRate L d = Some r \<longrightarrow> (\<exists>n. requiredInvocations L p r = Inr n))"

lemma unregister_result:
  assumes "no_device_errors L"
  shows "snd (unregisterTemperatureCallback L s) = Inr ()"
    and "m_temperatureCallback (fst (unregisterTemperatureCallback L s)) = None"
    and "m_readyHysteresisPeriod (fst (unregisterTemperatureCallback L s)) = m_readyHysteresisPeriod s"
    and "temperature_window b (fst (unregisterTemperatureCallback L s)) = temperature_window b s"
    and "m_heatingStatusCached (fst (unregisterTemperatureCallback L s)) = m_heatingStatusCached s"
    and "m_temperatureCallback s = None \<longrightarrow> sensorCallback s = None \<Longrightarrow>
         sensorCallback (fst (unregisterTemperatureCallback L s)) = None"
  using assms
  by (auto simp: unregisterTemperatureCallback_def no_device_errors_def prog_defs
      temperature_window_def split: option.split)

lemma makeTemperatureCallback_result:
  assumes "rates_ok L (m_readyHysteresisPeriod s)" and "r = sensor_fixedUpdateRate L d"
  shows "\<exists>cb. makeTemperatureCallback L b tg w r s = (s, Inr cb) \<and> closure_mode cb = b"
proof (cases r)
  case None
  then show ?thesis
    by (simp add: makeTemperatureCallback_def makeVariableRateCallback_def return_def)
next
  case (Some q)
  then obtain n where "requiredInvocations L (m_readyHysteresisPeriod s) q = Inr n"
    using assms by (auto simp: rates_ok_def)
  with Some show ?thesis
    by (simp add: makeTemperatureCallback_def makeFixedRateCallback_def)
qed

lemma register_result:
  assumes "no_device_errors L"
  shows "snd (registerTemperatureCallback L cb s) = Inr ()"
    and "sensorCallback (fst (registerTemperatureCallback L cb s)) = Some cb"
    and "m_temperatureCallback (fst (registerTemperatureCallback L cb s)) \<noteq> None"
    and "m_heatingStatusCached (fst (registerTemperatureCallback L cb s)) = m_heatingStatusCached s"
    and "m_readyHysteresisPeriod (fst (registerTemperatureCallback L cb s)) = m_readyHysteresisPeriod s"
    and "led_laws L \<Longrightarrow>
      led_display L (dev (fst (registerTemperatureCallback L cb s))) = led_display L (dev s)"
proof -
  obtain n where n: "snd (sensor_register L cb (dev s)) = Inr n"
    using no_device_errors_values(3) [OF assms(1)] by blast
  have "led_laws L \<Longrightarrow> led_display L (fst (sensor_register L cb d)) = led_display L d" for d
    using led_framesD(2) [of L _ cb] by (simp add: led_display_def frame_def)
  with n show "snd (registerTemperatureCallback L cb s) = Inr ()"
    "sensorCallback (fst (registerTemperatureCallback L cb s)) = Some cb"
    "m_temperatureCallback (fst (registerTemperatureCallback L cb s)) \<noteq> None"
    "m_heatingStatusCached (fst (registerTemperatureCallback L cb s)) = m_heatingStatusCached s"
    "m_readyHysteresisPeriod (fst (registerTemperatureCallback L cb s)) = m_readyHysteresisPeriod s"
    "led_laws L \<Longrightarrow>
      led_display L (dev (fst (registerTemperatureCallback L cb s))) = led_display L (dev s)"
    by (simp_all add: registerTemperatureCallback_def bindp_def act_def)
qed

lemma temperature_window_dev [simp]:
  "temperature_window b (s\<lparr>dev := d\<rparr>) = temperature_window b s"
  by (simp add: temperature_window_def)

lemma indicateState_result:
  assumes "no_device_errors L" and "rates_ok L (m_readyHysteresisPeriod s)"
  shows "\<exists>t cb s'. indicateState L b tg s = (s', Inr ()) \<and>
    sensorCallback s' = Some cb \<and> closure_mode cb = b \<and> m_temperatureCallback s' \<noteq> None \<and>
    m_readyHysteresisPeriod s' = m_readyHysteresisPeriod s \<and>
    m_heatingStatusCached s' = makeStatus t tg (temperature_window b s) \<and>
    (led_laws L \<longrightarrow> led_display L (dev s') = leds_for b (m_heatingStatusCached s'))"
proof -
  define s1 where "s1 = fst (unregisterTemperatureCallback L s)"
  obtain t where t: "snd (sensor_getTemperature L (dev s1)) = Inr t"
    using no_device_errors_values(2) [OF assms(1)] by blast
  define st where "st = makeStatus t tg (temperature_window b s)"
  define s2 where "s2 = fst (applyStatus L b st (s1\<lparr>dev := fst (sensor_getTemperature L (dev s1))\<rparr>))"
  have nd: "st \<noteq> DISABLED" by (simp add: st_def)
  note u = unregister_result [OF assms(1)]
  have p: "m_readyHysteresisPeriod s2 = m_readyHysteresisPeriod s"
    by (simp add: s2_def applyStatus_fields assms(1) nd s1_def u)
  then obtain cb where cb: "makeTemperatureCallback L b tg (temperature_window b s2)
      (sensor_fixedUpdateRate L (dev s2)) s2 = (s2, Inr cb)" "closure_mode cb = b"
    using makeTemperatureCallback_result [of L s2 _ "dev s2"] assms(2) by metis
  note r = register_result [OF assms(1), of cb s2]
  have d: "led_laws L \<Longrightarrow> led_display L (dev s2) = leds_for b st"
    unfolding s2_def by (rule applyStatus_display [OF assms(1) _ nd])
  have c: "m_heatingStatusCached s2 = st"
    by (simp add: s2_def applyStatus_fields assms(1) nd)
  have "bindp (on_dev (sensor_getTemperature L)) (\<lambda>temperature.
      bindp (get (temperature_window b)) (\<lambda>window.
        applyStatus L b (makeStatus temperature tg window))) s1 = (s2, Inr ())"
    using t applyStatus_result(1) [OF assms(1) nd, of b]
    by (simp add: bindp_def get_def s2_def st_def u s1_def prod_eq_iff)
  moreover have "bindp (get (temperature_window b)) (\<lambda>window.
      bindp (get (\<lambda>s. sensor_fixedUpdateRate L (dev s))) (\<lambda>rate.
      bindp (makeTemperatureCallback L b tg window rate) (\<lambda>callback.
        registerTemperatureCallback L callback))) s2 = registerTemperatureCallback L cb s2"
    using cb(1) by (simp add: bindp_def get_def)
  ultimately have "indicateState L b tg s = registerTemperatureCallback L cb s2"
    using r(1) by (simp add: indicateState_def u(1) s1_def [symmetric] prod_eq_iff)
  then show ?thesis using r cb(2) d c p st_def
    by (intro exI [of _ t] exI [of _ cb] exI [of _ "fst (registerTemperatureCallback L cb s2)"])
      (simp add: prod_eq_iff)
qed


text \<open>
  The manager is off, with no callback and dark LEDs, or it is on, its callback is
  registered, and the LEDs show the published status of the mode it was put in.
\<close>

definition leds_ok :: "'d lib \<Rightarrow> int \<Rightarrow> ('d, 'o, 'z) status_manager_scheme \<Rightarrow> bool" where
  "leds_ok L p s \<longleftrightarrow>
     m_readyHysteresisPeriod s = p \<and>
     (m_temperatureCallback s = None \<longleftrightarrow> sensorCallback s = None) \<and>
     (case sensorCallback s of
        None \<Rightarrow> m_heatingStatusCached s = DISABLED \<and> led_display L (dev s) = (False, False, False)
      | Some cb \<Rightarrow> m_heatingStatusCached s \<noteq> DISABLED \<and>
          led_display L (dev s) = leds_for (closure_mode cb) (m_heatingStatusCached s))"

definition status_env :: "'d lib \<Rightarrow> int \<Rightarrow> bool" where
  "status_env L p \<longleftrightarrow> no_device_errors L \<and> led_laws L \<and> rates_ok L p"

lemma leds_ok_indicate:
  assumes "status_env L p" and "leds_ok L p s"
  shows "leds_ok L p (fst (indicateState L b tg s))"
proof -
  have "m_readyHysteresisPeriod s = p" using assms(2) by (simp add: leds_ok_def)
  then obtain t cb s' where "indicateState L b tg s = (s', Inr ())"
    "sensorCallback s' = Some cb" "closure_mode cb = b" "m_temperatureCallback s' \<noteq> None"
    "m_readyHysteresisPeriod s' = p"
    "m_heatingStatusCached s' = makeStatus t tg (temperature_window b s)"
    "led_display L (dev s') = leds_for b (m_heatingStatusCached s')"
    using indicateState_result [of L s b tg] assms(1) by (auto simp: status_env_def)
  then show ?thesis by (simp add: leds_ok_def)
qed

lemma leds_ok_disable:
  assumes "status_env L p" and "leds_ok L p s"
  shows "leds_ok L p (fst (disable L s))"
proof -
  have e: "no_device_errors L" "led_laws L" using assms(1) by (simp_all add: status_env_def)
  define s1 where "s1 = fst (unregisterTemperatureCallback L s)"
  have "sensorCallback s1 = None" and "m_temperatureCallback s1 = None"
    and "m_readyHysteresisPeriod s1 = p"
    using assms(2) by (auto simp: s1_def leds_ok_def unregister_result [OF e(1)])
  moreover have "fst (disable L s) = fst (publishStatus DISABLED
      (s1\<lparr>dev := fst (set_leds L False False False (dev s1))\<rparr>))"
    by (simp add: disable_def unregister_result(1) [OF e(1)] s1_def indicate_set_leds
        set_leds_ok [OF e(1)] publishStatus_result(1))
  ultimately show ?thesis
    using set_leds_display [OF e(2) set_leds_ok [OF e(1)]]
    by (simp add: leds_ok_def publishStatus_result(2))
qed

lemma leds_ok_deliver:
  assumes "status_env L p" and "leds_ok L p s"
  shows "leds_ok L p (fst (deliverTemperature L t s))"
proof (cases "sensorCallback s")
  case None
  then show ?thesis using assms(2) by (simp add: deliverTemperature_def)
next
  case (Some cb)
  have e: "no_device_errors L" "led_laws L" using assms(1) by (simp_all add: status_env_def)
  note a = applyStatus_result(1) [OF e(1)] applyStatus_fields [OF e(1)] applyStatus_display [OF e]
  show ?thesis
  proof (cases cb)
    case (FixedRate b tg w n c)
    with Some show ?thesis using assms(2)
      by (auto simp: a leds_ok_def deliverTemperature_def temperatureCallback_def
          fixedRateCallback_def Let_def set_closure_def prog_defs)
  next
    case (VariableRate b tg w u)
    with Some show ?thesis using assms(2)
      by (auto simp: a leds_ok_def deliverTemperature_def temperatureCallback_def
          variableRateCallback_def Let_def set_closure_def prog_defs)
  qed
qed

lemma leds_ok_step:
  "status_step L s t \<Longrightarrow> status_env L p \<and> leds_ok L p s \<Longrightarrow> status_env L p \<and> leds_ok L p t"
proof (induction rule: status_step.induct)
  case (world d s)
  then show ?case by (simp add: leds_ok_def split: option.splits)
qed (simp_all add: indicateState_eq leds_ok_indicate leds_ok_disable leds_ok_deliver)

definition leds_start :: "'d lib \<Rightarrow> int \<Rightarrow> int \<Rightarrow> int \<Rightarrow> ('d, HeatingStatus list) status_manager \<Rightarrow> bool" where
  "leds_start L bw sw p s \<longleftrightarrow>
     status_env L p \<and> status_start L bw sw p s \<and> led_display L (dev s) = (False, False, False)"

interpretation leds_shown: safety "leds_start L bw sw p" "status_step L"
    "\<lambda>s. status_env L p \<and> leds_ok L p s" for L bw sw p
proof unfold_locales
  fix s :: "('a, HeatingStatus list) status_manager"
  assume "leds_start L bw sw p s"
  then show "status_env L p \<and> leds_ok L p s"
    by (auto simp: leds_start_def status_start_def setCallback_def act_def leds_ok_def
        dest!: StatusManager_create_result)
qed (rule leds_ok_step)


lemma sample_rates: "rates_ok sim_lib 0"
  using required_counts [OF sim_ticks] by (auto simp: rates_ok_def sim_lib_def)

lemma sample_leds_start: "leds_start sim_lib 500 1000 0 (sample_run ! 0)"
  using sample_run_start sample_rates
  by (simp add: leds_start_def status_env_def led_display_def)
    (simp add: sample_run_def Let_def sim_lib_def sim_world_def)


section \<open>What one reading does\<close>

fun closure_target :: "temperature_callback \<Rightarrow> int" where
  "closure_target (FixedRate _ tg _ _ _) = tg"
| "closure_target (VariableRate _ tg _ _) = tg"

fun closure_window :: "temperature_callback \<Rightarrow> int" where
  "closure_window (FixedRate _ _ w _ _) = w"
| "closure_window (VariableRate _ _ w _) = w"

text \<open>
  A reading outside the window sets the status; one inside makes it ready or leaves it,
  which does not depend on the temperature that was read.
\<close>

lemma deliver_status:
  assumes "no_device_errors L" and "sensorCallback s = Some cb"
  obtains r where "\<And>x. snd (deliverTemperature L x s) = Inr ()"
    and "\<And>x. m_heatingStatusCached (fst (deliverTemperature L x s)) =
      (if \<not> in_range (closure_target cb) (closure_window cb) x
       then makeStatus x (closure_target cb) (closure_window cb)
       else if r then Ready else m_heatingStatusCached s)"
proof (cases cb)
  case (FixedRate b tg w n c)
  with assms show ?thesis
    using that [of "m_heatingStatusCached s = Ready \<or> n \<le> c + 1"] deliver_fixed(1,2) [of L s b tg w n c]
    by simp
next
  case (VariableRate b tg w u)
  define now where "now = steady_now L (dev s)"
  define r where "r \<longleftrightarrow> m_heatingStatusCached s = Ready \<or>
    held L (m_readyHysteresisPeriod s) (case u of None \<Rightarrow> now | Some v \<Rightarrow> v) now"
  have e: "deliverTemperature L x s = deliverAt L (dev s, x) s" for x
    by (auto simp: deliverAt_def prog_defs prod_eq_iff split: sum.split)
  have cb: "sensorCallback s = Some (VariableRate b tg w u)" using assms(2) VariableRate by simp
  note d = deliver_variable [OF assms(1) cb refl refl refl refl]
  show ?thesis
  proof (rule that [of r])
    show "snd (deliverTemperature L x s) = Inr ()" for x unfolding e by (rule d(1))
    show "m_heatingStatusCached (fst (deliverTemperature L x s)) =
      (if \<not> in_range (closure_target cb) (closure_window cb) x
       then makeStatus x (closure_target cb) (closure_window cb)
       else if r then Ready else m_heatingStatusCached s)" for x
      using d(3) [of "(dev s, x)"] VariableRate by (cases u) (simp_all add: e r_def now_def)
  qed
qed

text \<open>
  C19: in every reachable state in which the machine is on, a reading never fails and decides
  the status the manager reports: below the window it is preheat, above it overheat, inside
  ready or what it was before. A hotter reading never gives a lower status than a colder one
  would have given in the same state, hysteresis included. With a negative window, which the
  configuration does not refuse, no reading makes the machine ready.
\<close>

theorem reading_decides_status:
  assumes "leds_start L bw sw p s" and "(status_step L)\<^sup>*\<^sup>* s t" and "sensorCallback t = Some cb"
  shows "snd (deliverTemperature L x t) = Inr () \<and>
    (let tg = closure_target cb; w = closure_window cb;
         status = (\<lambda>x. getCurrentStatus (fst (deliverTemperature L x t)))
     in (x + w < tg \<longrightarrow> status x = Preheat) \<and>
        (tg \<le> x + w \<and> tg + w < x \<longrightarrow> status x = Overheat) \<and>
        (\<bar>x - tg\<bar> \<le> w \<longrightarrow> status x = Ready \<or> status x = getCurrentStatus t) \<and>
        mono status \<and> (w < 0 \<longrightarrow> status x \<noteq> Ready))"
proof -
  let ?m = "\<lambda>x. m_heatingStatusCached (fst (deliverTemperature L x t))"
  have l: "leds_ok L p t" "status_env L p" using leds_shown.reachable_inv [OF assms(1,2)] by blast+
  then have nd: "m_heatingStatusCached t \<noteq> DISABLED" using assms(3) by (simp add: leds_ok_def)
  have "no_device_errors L" using l(2) by (simp add: status_env_def)
  then obtain r where ok: "\<And>x. snd (deliverTemperature L x t) = Inr ()"
    and st: "\<And>x. ?m x = (if \<not> in_range (closure_target cb) (closure_window cb) x
       then makeStatus x (closure_target cb) (closure_window cb)
       else if r then Ready else m_heatingStatusCached t)"
    using deliver_status [OF _ assms(3)] by metis
  have pub: "publications_ok u" if "(status_step L)\<^sup>*\<^sup>* s u" for u
    using publications.reachable_inv [OF _ that, of bw sw p] assms(1) by (simp add: leds_start_def)
  have c: "getCurrentStatus (fst (deliverTemperature L x t)) = ?m x" for x
    using pub [OF rtranclp.rtrancl_into_rtrancl [OF assms(2) status_step.reading]]
    by (simp add: publications_ok_def getCurrentStatus_def)
  have c0: "getCurrentStatus t = m_heatingStatusCached t"
    using pub [OF assms(2)] by (simp add: publications_ok_def getCurrentStatus_def)
  have "mono ?m"
    using nd unfolding mono_def monotone_def less_eq_HeatingStatus_def st
    by (cases "m_heatingStatusCached t") (auto simp: in_range_def makeStatus_def)
  then show ?thesis
    using ok by (auto simp: c c0 Let_def st in_range_def makeStatus_ready) (auto simp: makeStatus_def)
qed

lemma sample_run_closure:
  "sensorCallback (sample_run ! 1) = Some (VariableRate False 95000 500 None)"
  by (simp add: status_eval)

theorem reading_decides_status_witness:
  "getCurrentStatus (fst (deliverTemperature sim_lib 95501 (sample_run ! 1))) = Overheat \<and>
   getCurrentStatus (fst (deliverTemperature sim_lib 94499 (sample_run ! 1))) = Preheat"
  using reading_decides_status [OF sample_leds_start r_into_rtranclp [of "status_step sim_lib", OF sample_run_steps(1)]
      sample_run_closure]
  by (simp add: Let_def)

end
