(* ===== verification/StateProps.thy ===== *)
theory StateProps
  imports StateManager StatusProps
begin

text \<open>
  What the state manager promises: its operations refine an abstract machine with three
  switches, and in every reachable state at most one heater controller is active, none
  when the machine is off, and coffee is brewed only with power on and steam mode off.
\<close>

section \<open>The abstract machine\<close>

record machine =
  powered :: bool
  steaming :: bool
  brewing :: bool

definition spec_setPower :: "bool \<Rightarrow> (machine, unit) prog" where
  "spec_setPower b m =
     (if powered m = b then (m, Inr ())
      else if b then (m\<lparr>powered := True\<rparr>, Inr ())
      else (m\<lparr>powered := False, brewing := False\<rparr>, Inr ()))"

definition spec_startBrew :: "(machine, unit) prog" where
  "spec_startBrew m =
     (if brewing m then (m, Inr ())
      else if \<not> powered m then (m, Inl (RuntimeError ''Cannot start brew while power is off''))
      else if steaming m then (m, Inl (RuntimeError ''Cannot start brew in steam mode''))
      else (m\<lparr>brewing := True\<rparr>, Inr ()))"

definition spec_stopBrew :: "(machine, unit) prog" where
  "spec_stopBrew m = (m\<lparr>brewing := False\<rparr>, Inr ())"

definition spec_setSteam :: "bool \<Rightarrow> (machine, unit) prog" where
  "spec_setSteam b m =
     (if steaming m = b then (m, Inr ())
      else if brewing m
        then (m, Inl (RuntimeError ''Cannot switch to steam mode while brewing''))
      else (m\<lparr>steaming := b\<rparr>, Inr ()))"

definition machine_of :: "'d lib \<Rightarrow> ('d, 'o, 'z) state_manager_scheme \<Rightarrow> machine" where
  "machine_of L s = \<lparr>powered = m_power s, steaming = m_steam s, brewing = profilerActive L s\<rparr>"

text \<open>Which heater controllers are active, as a function of the switches.\<close>

definition heaters_ok :: "'d lib \<Rightarrow> ('d, 'o, 'z) state_manager_scheme \<Rightarrow> bool" where
  "heaters_ok L s \<longleftrightarrow>
     (deviceActive L STEAM_CONTROLLER_LABEL s \<longleftrightarrow> m_power s \<and> m_steam s) \<and>
     (deviceActive L BREW_TEMPERATURE_CONTROLLER_LABEL s \<longleftrightarrow> m_power s \<and> \<not> m_steam s) \<and>
     (profilerActive L s \<longrightarrow> m_power s \<and> \<not> m_steam s)"

definition machine_env :: "'d lib \<Rightarrow> int \<Rightarrow> bool" where
  "machine_env L p \<longleftrightarrow> device_laws L \<and> rates_ok L p"

section \<open>Effects of the status manager on the machine state\<close>

lemmas machine_frames =
  frame_status_operations [of m_power, simplified]
  frame_status_operations [of m_steam, simplified]
  frame_status_operations [of m_brewTimer, simplified]

lemma machine_fields [simp]:
  "m_power (fst (indicateState L b t s)) = m_power s"
  "m_steam (fst (indicateState L b t s)) = m_steam s"
  "m_brewTimer (fst (indicateState L b t s)) = m_brewTimer s"
  "m_power (fst (disable L s)) = m_power s"
  "m_steam (fst (disable L s)) = m_steam s"
  "m_brewTimer (fst (disable L s)) = m_brewTimer s"
  "m_power (fst (deliverTemperature L t s)) = m_power s"
  "m_steam (fst (deliverTemperature L t s)) = m_steam s"
  "m_brewTimer (fst (deliverTemperature L t s)) = m_brewTimer s"
  by (rule frameD, rule machine_frames)+

lemma period_field [simp]:
  "m_readyHysteresisPeriod (fst (indicateState L b t s)) = m_readyHysteresisPeriod s"
  "m_readyHysteresisPeriod (fst (disable L s)) = m_readyHysteresisPeriod s"
  "m_readyHysteresisPeriod (fst (deliverTemperature L t s)) = m_readyHysteresisPeriod s"
  by (rule frameD, rule readyHysteresisPeriod_frames)+

lemma active_after:
  assumes "device_laws L" and "a \<in> actuators"
  shows "deviceActive L a (fst (indicateState L b t s)) = deviceActive L a s"
    and "deviceActive L a (fst (disable L s)) = deviceActive L a s"
    and "deviceActive L a (fst (deliverTemperature L t s)) = deviceActive L a s"
proof -
  show "deviceActive L a (fst (indicateState L b t s)) = deviceActive L a s"
    by (cases b) (simp_all add: indicateState_eq [symmetric]
        frameD [OF deviceActive_StatusManager(2) [OF assms]]
        frameD [OF deviceActive_StatusManager(3) [OF assms]])
qed (rule frameD, rule deviceActive_StatusManager(4) deviceActive_deliver, rule assms, rule assms)+

lemma active_target:
  assumes "device_laws L" and "a \<in> actuators"
  shows "deviceActive L a (s\<lparr>dev := fst (temp_getTarget L l (dev s))\<rparr>) = deviceActive L a s"
    and "deviceActive L a (s\<lparr>dev := fst (temp_setTarget L l t (dev s))\<rparr>) = deviceActive L a s"
  using activity_framesD [OF assms] by (simp_all add: deviceActive_def frame_def)

lemma active_field [simp]:
  "deviceActive L a (s\<lparr>m_power := b\<rparr>) = deviceActive L a s"
  "deviceActive L a (s\<lparr>m_steam := b\<rparr>) = deviceActive L a s"
  "deviceActive L a (s\<lparr>m_brewTimer := w\<rparr>) = deviceActive L a s"
  by (simp_all add: deviceActive_def)

lemma indicate_ok:
  assumes "machine_env L (m_readyHysteresisPeriod s)"
  shows "snd (indicateState L b t s) = Inr ()"
  using indicateState_result [of L s b t] assms
  by (auto simp: machine_env_def device_laws_def)

lemma disable_ok:
  assumes "device_laws L"
  shows "snd (disable L s) = Inr ()"
proof -
  have "no_device_errors L" using assms by (simp add: device_laws_def)
  then show ?thesis
    by (simp add: disable_def unregister_result(1) indicate_set_leds set_leds_ok
        publishStatus_result(1))
qed

text \<open>Reading a target and indicating it: one step of the state manager.\<close>

definition indicateTarget ::
    "'d lib \<Rightarrow> bool \<Rightarrow> label \<Rightarrow> ('d, 'o, 'z) status_manager_scheme stmt" where
  "indicateTarget L b l = bindp (on_dev (temp_getTarget L l)) (indicateState L b)"

lemma indicateTarget_result:
  assumes "machine_env L (m_readyHysteresisPeriod s)"
  shows "snd (indicateTarget L b l s) = Inr ()"
    and "a \<in> actuators \<Longrightarrow>
      deviceActive L a (fst (indicateTarget L b l s)) = deviceActive L a s"
    and "m_readyHysteresisPeriod (fst (indicateTarget L b l s)) = m_readyHysteresisPeriod s"
proof -
  have d: "device_laws L" using assms(1) by (simp add: machine_env_def)
  then obtain t where "snd (temp_getTarget L l (dev s)) = Inr t"
    using no_device_errors_values(1) by (metis device_laws_def)
  then have "indicateTarget L b l s = indicateState L b t (s\<lparr>dev := fst (temp_getTarget L l (dev s))\<rparr>)"
    by (simp add: indicateTarget_def bindp_def)
  then show "snd (indicateTarget L b l s) = Inr ()"
    and "a \<in> actuators \<Longrightarrow>
      deviceActive L a (fst (indicateTarget L b l s)) = deviceActive L a s"
    and "m_readyHysteresisPeriod (fst (indicateTarget L b l s)) = m_readyHysteresisPeriod s"
    using assms d by (simp_all add: indicate_ok active_after active_target)
qed

lemma indicateTarget_fields [simp]:
  "m_power (fst (indicateTarget L b l s)) = m_power s"
  "m_steam (fst (indicateTarget L b l s)) = m_steam s"
  "m_brewTimer (fst (indicateTarget L b l s)) = m_brewTimer s"
  by (simp_all add: indicateTarget_def bindp_def split: sum.split)

lemma indicateTarget_eq:
  "bindp (on_dev (temp_getTarget L l)) (indicateBrewState L) = indicateTarget L False l"
  "bindp (on_dev (temp_getTarget L l)) (indicateSteamState L) = indicateTarget L True l"
  by (simp_all add: indicateTarget_def indicateState_eq)

section \<open>Refinement\<close>

text \<open>
  A program of the state manager implements a program of the abstract machine: same
  result, related states, and the heaters stay as the switches say.
\<close>

definition implements ::
    "'d lib \<Rightarrow> ('d, 'o, 'z) state_manager_scheme stmt \<Rightarrow> (machine, unit) prog \<Rightarrow>
     ('d, 'o, 'z) state_manager_scheme \<Rightarrow> bool" where
  "implements L m spec s \<longleftrightarrow>
     machine_of L (fst (m s)) = fst (spec (machine_of L s)) \<and>
     snd (m s) = snd (spec (machine_of L s)) \<and>
     heaters_ok L (fst (m s)) \<and>
     m_readyHysteresisPeriod (fst (m s)) = m_readyHysteresisPeriod s"

lemmas refine_simps =
  indicateTarget_eq indicateTarget_result [unfolded deviceActive_def] activity_switchesD
  active_after [unfolded deviceActive_def] active_target [unfolded deviceActive_def]
  disable_ok device_lawsD(1,2) deviceActive_def machine_of_def heaters_ok_def implements_def branch_def act_def
  skip_def throw_def profilerActive_def

lemma setPowerState_implements:
  assumes "machine_env L (m_readyHysteresisPeriod s)" and "heaters_ok L s"
  shows "implements L (setPowerState L b) (spec_setPower b) s"
proof -
  have d: "device_laws L" using assms(1) by (simp add: machine_env_def)
  show ?thesis using assms d
    by (auto simp: refine_simps setPowerState_def spec_setPower_def)
qed

lemma startBrew_implements:
  assumes "machine_env L (m_readyHysteresisPeriod s)" and "heaters_ok L s"
  shows "implements L (startBrew L) spec_startBrew s"
proof -
  have d: "device_laws L" using assms(1) by (simp add: machine_env_def)
  show ?thesis using assms d
    by (auto simp: refine_simps startBrew_def spec_startBrew_def)
qed

lemma stopBrew_implements:
  assumes "machine_env L (m_readyHysteresisPeriod s)" and "heaters_ok L s"
  shows "implements L (stopBrew L) spec_stopBrew s"
proof -
  have d: "device_laws L" using assms(1) by (simp add: machine_env_def)
  show ?thesis using assms d
    by (auto simp: refine_simps stopBrew_def spec_stopBrew_def)
qed

lemma setSteamModeState_implements:
  assumes "machine_env L (m_readyHysteresisPeriod s)" and "heaters_ok L s"
  shows "implements L (setSteamModeState L b) (spec_setSteam b) s"
proof -
  have d: "device_laws L" using assms(1) by (simp add: machine_env_def)
  show ?thesis using assms d
    by (auto simp: refine_simps setSteamModeState_def spec_setSteam_def)
qed

section \<open>Every operation of the state manager\<close>

lemma active_ops:
  assumes "device_laws L" and "a \<in> actuators"
  shows "ctl_isActive L a (fst (weight_tare L d)) = ctl_isActive L a d"
    "ctl_isActive L a (fst (prof_setSteps L xs d)) = ctl_isActive L a d"
    "ctl_isActive L a (fst (prof_setAutoStop L c d)) = ctl_isActive L a d"
    "ctl_isActive L a (fst (temp_setTarget L l t d)) = ctl_isActive L a d"
    "ctl_isActive L a (fst (temp_getTarget L l d)) = ctl_isActive L a d"
  by (rule frameD, rule activity_framesD, rule assms, rule assms)+

lemma setBrewTemperature_implements:
  assumes "machine_env L (m_readyHysteresisPeriod s)" and "heaters_ok L s"
  shows "implements L (setBrewTemperature L t) skip s"
proof -
  have d: "device_laws L" using assms(1) by (simp add: machine_env_def)
  show ?thesis using assms d
    by (cases "m_power s"; cases "m_steam s")
      (simp_all add: refine_simps indicate_ok device_lawsD(4) active_ops setBrewTemperature_def
        indicateState_eq)
qed

lemma setSteamTemperature_implements:
  assumes "machine_env L (m_readyHysteresisPeriod s)" and "heaters_ok L s"
  shows "implements L (setSteamTemperature L t) skip s"
proof -
  have d: "device_laws L" using assms(1) by (simp add: machine_env_def)
  show ?thesis using assms d
    by (cases "m_power s"; cases "m_steam s")
      (simp_all add: refine_simps indicate_ok device_lawsD(4) active_ops setSteamTemperature_def
        indicateState_eq)
qed

text \<open>The operations that are refused while brewing.\<close>

definition spec_idle :: "exn \<Rightarrow> exn + unit \<Rightarrow> (machine, unit) prog" where
  "spec_idle e r m = (m, if brewing m then Inl e else r)"

lemma resetScales_implements:
  assumes "machine_env L (m_readyHysteresisPeriod s)" and "heaters_ok L s"
  shows "implements L (resetScales L)
    (spec_idle (RuntimeError ''Cannot reset scale while brewing'') (Inr ())) s"
proof -
  have d: "device_laws L" using assms(1) by (simp add: machine_env_def)
  show ?thesis using assms d
    by (auto simp: refine_simps resetScales_def spec_idle_def active_ops device_lawsD(7))
qed

lemma setBrewSteps_implements:
  assumes "machine_env L (m_readyHysteresisPeriod s)" and "heaters_ok L s"
  shows "implements L (setBrewSteps L r)
    (spec_idle (RuntimeError ''Cannot set brew steps sequence brewing'')
       (map_sum id (\<lambda>_. ()) r)) s"
proof -
  have d: "device_laws L" using assms(1) by (simp add: machine_env_def)
  show ?thesis using assms d
    by (cases r) (auto simp: refine_simps setBrewSteps_def spec_idle_def active_ops
        device_lawsD(5) bindp_def lift_result_def)
qed

lemma setAutoStopCondition_implements:
  assumes "machine_env L (m_readyHysteresisPeriod s)" and "heaters_ok L s"
  shows "implements L (setAutoStopCondition L c)
    (spec_idle (RuntimeError ''Cannot change auto stop condition while brewing'') (Inr ())) s"
proof -
  have d: "device_laws L" using assms(1) by (simp add: machine_env_def)
  show ?thesis using assms d
    by (auto simp: refine_simps setAutoStopCondition_def spec_idle_def active_ops
        device_lawsD(6))
qed

lemmas state_operations_implement =
  setPowerState_implements startBrew_implements stopBrew_implements
  setSteamModeState_implements setBrewTemperature_implements setSteamTemperature_implements
  resetScales_implements setBrewSteps_implements setAutoStopCondition_implements

text \<open>
  C3: with devices that obey their laws, switching power, starting and stopping a brew
  and switching steam mode have exactly the effect and the result of the abstract
  machine: power off ends a brew, a brew starts only with power on and steam mode off and
  is refused otherwise, steam mode cannot be switched while brewing, and a request for
  the state the machine is in changes nothing.
\<close>

theorem switches_refine:
  assumes "machine_env L (m_readyHysteresisPeriod s)" and "heaters_ok L s"
  shows "implements L (setPowerState L b) (spec_setPower b) s \<and>
    implements L (startBrew L) spec_startBrew s \<and>
    implements L (stopBrew L) spec_stopBrew s \<and>
    implements L (setSteamModeState L b) (spec_setSteam b) s"
  using assms by (simp add: state_operations_implement)

definition sample_state :: "(sim, HeatingStatus list) state_manager" where
  "sample_state = status_manager.extend
     ((sample_status (FixedRate False 95000 500 3 0))
        \<lparr>m_readyHysteresisPeriod := 0, dev := sim_world
           \<lparr>sim_active := (\<lambda>l. l = BREW_TEMPERATURE_CONTROLLER_LABEL)\<rparr>\<rparr>)
     \<lparr>m_power = True, m_steam = False, m_brewTimer = timer_init\<rparr>"

lemma sample_state_ok:
  "machine_env sim_lib (m_readyHysteresisPeriod sample_state)" "heaters_ok sim_lib sample_state"
  by (simp_all add: machine_env_def sample_state_def sample_status_def sample_rates
      status_manager.defs heaters_ok_def deviceActive_def profilerActive_def)

theorem switches_refine_witness:
  "fst (spec_startBrew (machine_of sim_lib sample_state)) =
     \<lparr>powered = True, steaming = False, brewing = True\<rparr> \<and>
   machine_of sim_lib (fst (startBrew sim_lib sample_state)) =
     \<lparr>powered = True, steaming = False, brewing = True\<rparr>"
  using switches_refine [OF sample_state_ok, of True]
  by (simp add: implements_def spec_startBrew_def machine_of_def sample_state_def
      sample_status_def status_manager.defs profilerActive_def deviceActive_def)

section \<open>Reachable states\<close>

text \<open>
  One step: an operation of the state manager, a reading of the temperature sensor, or a
  change of the world in which no heater controller is switched and the profiler may
  finish its brew on its own but never starts one.
\<close>

inductive state_step ::
    "'d lib \<Rightarrow> ('d, 'o, 'z) state_manager_scheme \<Rightarrow> ('d, 'o, 'z) state_manager_scheme \<Rightarrow> bool"
  for L where
  power: "state_step L s (fst (setPowerState L b s))"
| start: "state_step L s (fst (startBrew L s))"
| stop: "state_step L s (fst (stopBrew L s))"
| steam: "state_step L s (fst (setSteamModeState L b s))"
| brewTemperature: "state_step L s (fst (setBrewTemperature L t s))"
| steamTemperature: "state_step L s (fst (setSteamTemperature L t s))"
| scales: "state_step L s (fst (resetScales L s))"
| steps: "state_step L s (fst (setBrewSteps L r s))"
| autoStop: "state_step L s (fst (setAutoStopCondition L c s))"
| reading: "state_step L s (fst (deliverTemperature L t s))"
| world: "\<lbrakk>ctl_isActive L STEAM_CONTROLLER_LABEL d =
             ctl_isActive L STEAM_CONTROLLER_LABEL (dev s);
           ctl_isActive L BREW_TEMPERATURE_CONTROLLER_LABEL d =
             ctl_isActive L BREW_TEMPERATURE_CONTROLLER_LABEL (dev s);
           ctl_isActive L BREW_PROFILER_LABEL d \<longrightarrow>
             ctl_isActive L BREW_PROFILER_LABEL (dev s)\<rbrakk>
          \<Longrightarrow> state_step L s (s\<lparr>dev := d\<rparr>)"

definition state_start ::
    "'d lib \<Rightarrow> int \<Rightarrow> ('d, 'o) state_manager \<Rightarrow> bool" where
  "state_start L p s \<longleftrightarrow>
     machine_env L p \<and>
     (\<exists>sm d. m_readyHysteresisPeriod sm = p \<and> snd (StateManager_create L sm d) = Inr s) \<and>
     (\<forall>a \<in> actuators. \<not> ctl_isActive L a (dev s))"

definition state_ok :: "'d lib \<Rightarrow> int \<Rightarrow> ('d, 'o, 'z) state_manager_scheme \<Rightarrow> bool" where
  "state_ok L p s \<longleftrightarrow> machine_env L p \<and> m_readyHysteresisPeriod s = p \<and> heaters_ok L s"

lemma heaters_ok_deliver:
  assumes "device_laws L" and "heaters_ok L s"
  shows "heaters_ok L (fst (deliverTemperature L t s))"
  using assms by (simp add: heaters_ok_def profilerActive_def active_after)

lemma state_ok_step:
  assumes "state_step L s t" and "state_ok L p s"
  shows "state_ok L p t"
proof -
  have e: "machine_env L (m_readyHysteresisPeriod s)" "heaters_ok L s"
    and p: "m_readyHysteresisPeriod s = p" and d: "device_laws L"
    using assms(2) by (auto simp: state_ok_def machine_env_def)
  note ops = state_operations_implement [OF e, unfolded implements_def]
  from assms(1) show ?thesis
  proof cases
    case reading
    then show ?thesis using assms(2) d by (simp add: state_ok_def heaters_ok_deliver)
  next
    case (world d')
    then show ?thesis using assms(2)
      by (auto simp: state_ok_def heaters_ok_def profilerActive_def deviceActive_def)
  qed (use ops e p in \<open>simp_all add: state_ok_def\<close>)
qed

lemma state_start_ok: "state_start L p s \<Longrightarrow> state_ok L p s"
proof -
  assume a: "state_start L p s"
  then obtain sm d where sm: "m_readyHysteresisPeriod sm = p"
    and "snd (StateManager_create L sm d) = Inr s" by (auto simp: state_start_def)
  then obtain d' st where "s = status_manager.extend (sm\<lparr>dev := d'\<rparr>)
      \<lparr>m_power = False, m_steam = st, m_brewTimer = timer_init\<rparr>"
    by (auto simp: StateManager_create_def bindp_def split: sum.splits)
  then show ?thesis using a sm
    by (auto simp: state_ok_def state_start_def heaters_ok_def profilerActive_def
        deviceActive_def status_manager.defs)
qed

interpretation heaters: safety "state_start L p" "state_step L" "state_ok L p" for L p
  by unfold_locales (rule state_start_ok, assumption, rule state_ok_step)


definition sample_off :: "(sim, HeatingStatus list) state_manager" where
  "sample_off = status_manager.extend
     ((sample_status (FixedRate False 95000 500 3 0)) \<lparr>m_readyHysteresisPeriod := 0\<rparr>)
     \<lparr>m_power = False, m_steam = False, m_brewTimer = timer_init\<rparr>"

lemma sample_off_start: "state_start sim_lib 0 sample_off"
  unfolding state_start_def
proof (intro conjI exI)
  show "snd (StateManager_create sim_lib
      ((sample_status (FixedRate False 95000 500 3 0)) \<lparr>m_readyHysteresisPeriod := 0\<rparr>) sim_world)
      = Inr sample_off"
    by (simp add: StateManager_create_def sample_off_def sim_lib_def prog_defs sample_status_def
        sim_world_def)
qed (simp_all add: machine_env_def sample_rates sample_off_def status_manager.defs
       sample_status_def sim_world_def)


end
