(* ===== verification/ProfileProps.thy ===== *)
theory ProfileProps
  imports BrewProfileManager StateProps
begin

text \<open>
  What the brew profile manager guarantees: which profiles translate into brew profiler
  data and how, and what applying a profile does in every case.
\<close>

section \<open>Valid profiles\<close>

definition convertible :: "(int \<Rightarrow> bool) \<Rightarrow> float32 \<Rightarrow> bool" where
  "convertible fits x = (case x of Finite r \<Rightarrow> fits (trunc r) | _ \<Rightarrow> False)"

definition time_convertible :: "'d lib \<Rightarrow> float32 \<Rightarrow> bool" where
  "time_convertible L x =
     convertible (fits_ticks L) (fmul x (float_of_int (ticks_per_second L)))"

definition condition_valid :: "'d lib \<Rightarrow> BrewStepAdvanceCondition \<Rightarrow> bool" where
  "condition_valid L c =
     (case advance_type c of
        Advance_TotalWeight \<Rightarrow> convertible (fits_units L) (advance_value c)
      | Advance_Other _ \<Rightarrow> False
      | _ \<Rightarrow> time_convertible L (advance_value c))"

definition step_valid :: "'d lib \<Rightarrow> BrewStep \<Rightarrow> bool" where
  "step_valid L step \<longleftrightarrow>
     targettype step \<in> {Target_Pressure, Target_FlowRate} \<and>
     convertible (fits_units L) (targetvalue step) \<and>
     (case advancecondition step of None \<Rightarrow> True | Some c \<Rightarrow> condition_valid L c)"

definition stop_valid :: "'d lib \<Rightarrow> StopCondition option \<Rightarrow> bool" where
  "stop_valid L s =
     (case s of None \<Rightarrow> True
      | Some c \<Rightarrow> (case stop_type c of
            Stop_TotalTime \<Rightarrow> time_convertible L (stop_value c)
          | Stop_TotalWeight \<Rightarrow> convertible (fits_units L) (stop_value c)
          | Stop_Other _ \<Rightarrow> False))"

definition profile_valid :: "'d lib \<Rightarrow> BrewProfile \<Rightarrow> bool" where
  "profile_valid L p \<longleftrightarrow> (\<forall>step \<in> set (steps p). step_valid L step) \<and> stop_valid L (stopcondition p)"

lemma float_to_int_convertible:
  "(\<exists>n. float_to_int fits x = Inr n) \<longleftrightarrow> convertible fits x"
  by (cases x) (simp_all add: convertible_def)

lemma float_to_int_cases:
  obtains (ok) n where "float_to_int fits x = Inr n" "convertible fits x"
  | (undefined) "float_to_int fits x = Inl UndefinedBehaviour" "\<not> convertible fits x"
  by (cases x) (auto simp: convertible_def split: if_splits)

lemma float_to_int_value:
  "float_to_int fits (Finite r) = Inr n \<Longrightarrow> n = trunc r"
  by (simp split: if_splits)

lemma getStepTarget_valid:
  "(\<exists>t. getStepTarget L step = Inr t) \<longleftrightarrow>
   targettype step \<in> {Target_Pressure, Target_FlowRate} \<and>
   convertible (fits_units L) (targetvalue step)"
  by (rule float_to_int_cases [of "fits_units L" "targetvalue step"])
    (cases "targettype step"; simp add: getStepTarget_def)+

lemma time_conversion:
  "(\<exists>n. ToDuration L x = Inr n) \<longleftrightarrow> time_convertible L x"
  "(\<exists>n. ToWeight L x = Inr n) \<longleftrightarrow> convertible (fits_units L) x"
  by (simp_all add: ToDuration_def ToWeight_def float_seconds_to_ticks_def time_convertible_def
      float_to_int_convertible)

lemma map_sum_Inr: "(\<exists>y. map_sum id f r = Inr y) \<longleftrightarrow> (\<exists>x. r = Inr x)"
  by (cases r) simp_all

lemma getStepCondition_valid:
  "(\<exists>c. getStepCondition L step = Inr c) \<longleftrightarrow>
   (case advancecondition step of None \<Rightarrow> True | Some c \<Rightarrow> condition_valid L c)"
  by (simp add: getStepCondition_def condition_valid_def map_sum_Inr time_conversion
      split: option.split BrewStepAdvanceConditionType.split)

lemma stepTransformer_valid:
  "(\<exists>x. stepTransformer L step = Inr x) \<longleftrightarrow> step_valid L step"
proof -
  have "(\<exists>x. stepTransformer L step = Inr x) \<longleftrightarrow>
      (\<exists>t. getStepTarget L step = Inr t) \<and> (\<exists>c. getStepCondition L step = Inr c)"
    by (cases "getStepTarget L step"; cases "getStepCondition L step")
      (simp_all add: stepTransformer_def)
  then show ?thesis
    by (simp only: getStepTarget_valid getStepCondition_valid step_valid_def conj_assoc)
qed

lemma steps_valid:
  "(\<exists>xs. map_result (stepTransformer L) ss = Inr xs) \<longleftrightarrow> (\<forall>step \<in> set ss. step_valid L step)"
  by (simp only: map_result_Inr_iff stepTransformer_valid)

text \<open>The value a target carries.\<close>

fun target_value :: "step_target \<Rightarrow> int" where
  "target_value (ConstantPressure v) = v"
| "target_value (ConstantFlow v) = v"

lemma stepTransformer_value:
  assumes "stepTransformer L step = Inr (t, c)"
  obtains r where "targetvalue step = Finite r" "target_value t = trunc r"
    "t = (if targettype step = Target_Pressure then ConstantPressure (trunc r)
          else ConstantFlow (trunc r))"
    "c = Never \<longleftrightarrow> advancecondition step = None"
proof -
  have t: "getStepTarget L step = Inr t" and c: "getStepCondition L step = Inr c"
    using assms by (auto simp: stepTransformer_def map_sum_def split: sum.splits)
  from t obtain r where r: "targetvalue step = Finite r"
    by (cases "targetvalue step") (auto simp: getStepTarget_def split: BrewStepTargetType.splits)
  have n: "c = Never \<longleftrightarrow> advancecondition step = None"
  proof (cases "advancecondition step")
    case None
    with c show ?thesis by (simp add: getStepCondition_def)
  next
    case (Some a)
    with c show ?thesis
      by (cases "advance_type a"; cases "ToDuration L (advance_value a)";
          cases "ToWeight L (advance_value a)") (auto simp: getStepCondition_def)
  qed
  have e: "t = (if targettype step = Target_Pressure then ConstantPressure (trunc r)
      else ConstantFlow (trunc r))"
    using t r by (cases "targettype step"; cases "fits_units L (trunc r)")
      (simp_all add: getStepTarget_def)
  then have "target_value t = trunc r" by simp
  then show ?thesis by (rule that [OF r _ e n])
qed


definition sample_step :: BrewStep where
  "sample_step = \<lparr>targettype = Target_Pressure, targetvalue = Finite (17999 / 2),
     advancecondition = None\<rparr>"



section \<open>Applying a profile\<close>

definition stop_result :: "'d lib \<Rightarrow> StopCondition option \<Rightarrow> exn + advance_condition" where
  "stop_result L s =
     (case s of None \<Rightarrow> Inr Never
      | Some c \<Rightarrow> (case stop_type c of
            Stop_TotalTime \<Rightarrow> map_sum id OnTotalTime (ToDuration L (stop_value c))
          | Stop_TotalWeight \<Rightarrow> map_sum id OnWeight (ToWeight L (stop_value c))
          | Stop_Other _ \<Rightarrow> Inl (RuntimeError ''Unknow stop condition'')))"

lemma stop_result_valid: "(\<exists>c. stop_result L s = Inr c) \<longleftrightarrow> stop_valid L s"
  by (simp add: stop_result_def stop_valid_def map_sum_Inr time_conversion
      split: option.split StopConditionType.split)

lemma applyAutoStopCondition_eq:
  "applyAutoStopCondition L m =
     bindp (lift_result (stop_result L (stopcondition (m_currentProfile m))))
       (setAutoStopCondition L)"
proof (rule ext)
  fix s :: "('a, 'b, 'c) state_manager_scheme"
  show "applyAutoStopCondition L m s =
     bindp (lift_result (stop_result L (stopcondition (m_currentProfile m))))
       (setAutoStopCondition L) s"
  proof (cases "stopcondition (m_currentProfile m)")
    case None
    then show ?thesis by (simp add: applyAutoStopCondition_def stop_result_def prog_defs)
  next
    case (Some c)
    then show ?thesis
      by (cases "stop_type c"; cases "ToDuration L (stop_value c)"; cases "ToWeight L (stop_value c)")
        (simp_all add: applyAutoStopCondition_def stop_result_def prog_defs)
  qed
qed

definition profile_applied ::
    "'d lib \<Rightarrow> BrewProfile \<Rightarrow> ('d, 'o, 'z) state_manager_scheme \<Rightarrow>
     ('d, 'o, 'z) state_manager_scheme \<times> (exn + unit)" where
  "profile_applied L p s =
     (if profilerActive L s then (s, Inl (RuntimeError ''Cannot set brew steps sequence brewing''))
      else (case map_result (stepTransformer L) (steps p) of
          Inl e \<Rightarrow> (s, Inl e)
        | Inr xs \<Rightarrow>
            (let s2 = s\<lparr>dev := fst (prof_setSteps L xs (dev s))\<rparr>
             in case stop_result L (stopcondition p) of
                  Inl e \<Rightarrow> (s2, Inl e)
                | Inr c \<Rightarrow> (s2\<lparr>dev := fst (prof_setAutoStop L c (dev s2))\<rparr>, Inr ()))))"

lemma profilerActive_steps:
  "device_laws L \<Longrightarrow>
   profilerActive L (s\<lparr>dev := fst (prof_setSteps L xs (dev s))\<rparr>) = profilerActive L s"
  by (simp add: profilerActive_def deviceActive_def active_ops)

lemma apply_steps_and_stop:
  assumes "device_laws L"
  shows "block [setBrewSteps L (map_result (stepTransformer L) (steps (m_currentProfile m))),
      applyAutoStopCondition L m] s = profile_applied L (m_currentProfile m) s"
proof (cases "profilerActive L s")
  case True
  then show ?thesis by (simp add: profile_applied_def setBrewSteps_def prog_defs)
next
  case False
  let ?p = "m_currentProfile m"
  show ?thesis
  proof (cases "map_result (stepTransformer L) (steps ?p)")
    case (Inl e)
    with False show ?thesis by (simp add: profile_applied_def setBrewSteps_def prog_defs)
  next
    case (Inr xs)
    then have "setBrewSteps L (map_result (stepTransformer L) (steps ?p)) s =
        (s\<lparr>dev := fst (prof_setSteps L xs (dev s))\<rparr>, Inr ())"
      using False assms by (simp add: setBrewSteps_def prod_eq_iff device_lawsD(5) branch_def
          bindp_def lift_result_def)
    with Inr False assms show ?thesis
      by (cases "stop_result L (stopcondition ?p)")
        (simp_all add: profile_applied_def applyAutoStopCondition_eq setAutoStopCondition_def
          profilerActive_steps device_lawsD(6) Let_def branch_def bindp_def lift_result_def)
  qed
qed

lemma applyBrewProfile_result:
  assumes "machine_env L (m_readyHysteresisPeriod s)" and "heaters_ok L s"
  shows "applyBrewProfile L m s =
      profile_applied L (m_currentProfile m)
        (fst (setBrewTemperature L (temperature (m_currentProfile m)) s)) \<and>
    (snd (applyBrewProfile L m s) = Inr () \<longleftrightarrow>
       \<not> getBrewState L s \<and> profile_valid L (m_currentProfile m))"
proof -
  let ?p = "m_currentProfile m"
  let ?s1 = "fst (setBrewTemperature L (temperature ?p) s)"
  have d: "device_laws L" using assms(1) by (simp add: machine_env_def)
  have i: "snd (setBrewTemperature L (temperature ?p) s) = Inr ()"
      "profilerActive L ?s1 = profilerActive L s"
    using setBrewTemperature_implements [OF assms, of "temperature ?p"]
    by (simp_all add: implements_def skip_def machine_of_def)
  have e: "applyBrewProfile L m s = profile_applied L ?p ?s1"
    using i(1) apply_steps_and_stop [OF d] by (simp add: applyBrewProfile_def)
  moreover have "snd (profile_applied L ?p ?s1) = Inr () \<longleftrightarrow>
      \<not> getBrewState L s \<and> profile_valid L ?p"
    unfolding profile_valid_def steps_valid [symmetric] stop_result_valid [symmetric]
    by (auto simp: profile_applied_def i(2) getBrewState_def Let_def split: sum.split)
  ultimately show ?thesis by simp
qed


definition sample_profiles :: brew_profile_manager where
  "sample_profiles = snd (fst (loadDefaultProfile
     (sim_world, BrewProfileManager_create ''profile.json'' 95000 9000)))"

lemma sample_profile: "m_currentProfile sample_profiles = makeDefaultProfile 95000 9000"
  by (simp add: sample_profiles_def loadDefaultProfile_def act_def BrewProfileManager_create_def)

lemma sample_profile_valid: "profile_valid sim_lib (makeDefaultProfile 95000 9000)"
proof -
  have "float_of_int 9000 = Finite (of_int 9000)"
    by (simp only: float_of_int_def) (rule f32_of_int_exact, simp)
  then show ?thesis
    by (simp add: profile_valid_def makeDefaultProfile_def empty_profile_def step_valid_def
        convertible_def stop_valid_def trunc_def sim_lib_def)
qed

lemma sample_brewing:
  "machine_env sim_lib (m_readyHysteresisPeriod (fst (startBrew sim_lib sample_state)))"
  "heaters_ok sim_lib (fst (startBrew sim_lib sample_state))"
  "getBrewState sim_lib (fst (startBrew sim_lib sample_state))"
proof -
  have i: "implements sim_lib (startBrew sim_lib) spec_startBrew sample_state"
    by (rule startBrew_implements [OF sample_state_ok])
  then show "machine_env sim_lib (m_readyHysteresisPeriod (fst (startBrew sim_lib sample_state)))"
    and "heaters_ok sim_lib (fst (startBrew sim_lib sample_state))"
    using sample_state_ok by (simp_all add: implements_def)
  from i show "getBrewState sim_lib (fst (startBrew sim_lib sample_state))"
    by (simp add: implements_def spec_startBrew_def machine_of_def sample_state_def
        sample_status_def status_manager.defs profilerActive_def deviceActive_def getBrewState_def)
qed

lemma sample_idle: "\<not> getBrewState sim_lib sample_state"
  by (simp add: getBrewState_def profilerActive_def deviceActive_def sample_state_def
      sample_status_def status_manager.defs)


end
