(* ===== verification/DispatcherProps.thy ===== *)
theory DispatcherProps
  imports Dispatcher ProfileProps
begin

text \<open>
  What the dispatcher guarantees: every event stream shows the switches and, after the
  waiting notifications, the heating status; callbacks get one result each in the order of
  the calls; and which events the operations do not send.
\<close>

section \<open>How the operations below the dispatcher move the state\<close>

lemma moves_on_dev: "(\<And>d s. R s (s\<lparr>dev := d\<rparr>)) \<Longrightarrow> moves R (on_dev m)"
  by (simp add: moves_def)

lemma moves_status_operations:
  assumes R: "reflp R" "transp R"
    and u: "\<And>d s. R s (s\<lparr>dev := d\<rparr>)" "\<And>c s. R s (s\<lparr>m_temperatureCallback := c\<rparr>)"
      "\<And>c s. R s (s\<lparr>sensorCallback := c\<rparr>)"
      "\<And>c e s. R s (s\<lparr>m_temperatureCallback := c, sensorCallback := e\<rparr>)"
    and p: "\<And>st. moves R (publishStatus st)"
  shows "moves R (indicateState L b t)" "moves R (disable L)" "moves R (deliverTemperature L t)"
proof -
  note mv = moves_simple [OF R(1)] moves_act moves_branch moves_if moves_bindp [OF R(2)]
    moves_block_Cons [OF R(2)] moves_on_dev [of R, OF u(1)] p
  have a: "moves R (applyStatus L b' st)" for b' st
    unfolding applyStatus_def by (intro mv)
  have "moves R (block [act (\<lambda>s. s\<lparr>m_temperatureCallback := None\<rparr>),
      on_dev (sensor_unregister L descr), act (\<lambda>s. s\<lparr>sensorCallback := None\<rparr>)])" for descr
    by (intro mv u)
  then have un: "moves R (unregisterTemperatureCallback L)"
    using R(1) by (auto simp: moves_def unregisterTemperatureCallback_def reflpD split: option.split)
  have r: "moves R (registerTemperatureCallback L cb)" for cb
    unfolding registerTemperatureCallback_def by (intro mv u)
  have m: "moves R (makeTemperatureCallback L b' t' w rt)" for b' t' w rt
    using R(1) by (auto simp: moves_def makeTemperatureCallback_def makeFixedRateCallback_def
        makeVariableRateCallback_def prog_defs reflpD split: option.split sum.split)
  show "moves R (indicateState L b t)"
    unfolding indicateState_def by (intro mv un a r m)
  show "moves R (disable L)"
    unfolding disable_def by (intro mv un)
  have c: "moves R (set_closure cb)" for cb
    unfolding set_closure_def by (intro mv u)
  have "moves R (fixedRateCallback L b' tg w n k t)" for b' tg w n k
    unfolding fixedRateCallback_def Let_def by (intro mv a c)
  moreover have "moves R (variableRateCallback L b' tg w k t)" for b' tg w k
    unfolding variableRateCallback_def Let_def by (intro mv a c)
  ultimately have "moves R (temperatureCallback L cb t)" for cb
    by (cases cb) (simp_all add: temperatureCallback_def)
  then show "moves R (deliverTemperature L t)"
    using R(1) by (auto simp: moves_def deliverTemperature_def reflpD split: option.split)
qed

lemma moves_state_operations:
  assumes R: "reflp R" "transp R"
    and u: "\<And>d s. R s (s\<lparr>dev := d\<rparr>)" "\<And>c s. R s (s\<lparr>m_temperatureCallback := c\<rparr>)"
      "\<And>c s. R s (s\<lparr>sensorCallback := c\<rparr>)"
      "\<And>c e s. R s (s\<lparr>m_temperatureCallback := c, sensorCallback := e\<rparr>)"
    and p: "\<And>st. moves R (publishStatus st)"
    and w: "\<And>w s. R s (s\<lparr>m_brewTimer := w\<rparr>)"
  shows "moves R (startBrew L)" "moves R (stopBrew L)" "moves R (setBrewTemperature L t)"
    "moves R (setSteamTemperature L t)" "moves R (resetScales L)" "moves R (setBrewSteps L r)"
    "moves R (setAutoStopCondition L c)"
    "(\<And>b s. R s (s\<lparr>m_power := b\<rparr>)) \<Longrightarrow> moves R (setPowerState L b)"
    "(\<And>b s. R s (s\<lparr>m_steam := b\<rparr>)) \<Longrightarrow> moves R (setSteamModeState L b)"
    "moves R (unregisterBrewProfileCallback L n)"
proof -
  note mv = moves_simple [OF R(1)] moves_act moves_branch moves_if moves_bindp [OF R(2)]
    moves_block_Cons [OF R(2)] moves_on_dev [of R, OF u(1)]
    moves_status_operations [OF R u p] w
  show "moves R (startBrew L)" "moves R (stopBrew L)" "moves R (setBrewTemperature L t)"
    "moves R (setSteamTemperature L t)" "moves R (resetScales L)" "moves R (setBrewSteps L r)"
    "moves R (setAutoStopCondition L c)" "moves R (unregisterBrewProfileCallback L n)"
    unfolding startBrew_def stopBrew_def setBrewTemperature_def setSteamTemperature_def
      resetScales_def setBrewSteps_def setAutoStopCondition_def indicateState_eq
      unregisterBrewProfileCallback_def
    by (intro mv)+
  show "(\<And>b s. R s (s\<lparr>m_power := b\<rparr>)) \<Longrightarrow> moves R (setPowerState L b)"
    unfolding setPowerState_def indicateState_eq by (intro mv)
  show "(\<And>b s. R s (s\<lparr>m_steam := b\<rparr>)) \<Longrightarrow> moves R (setSteamModeState L b)"
    unfolding setSteamModeState_def indicateState_eq by (intro mv)
qed

section \<open>What the procedures do to the queue and the sinks\<close>

definition note_of :: "HeatingStatus \<Rightarrow> task" where
  "note_of st = Discard (NotifyHeating st)"

text \<open>
  The operations below the dispatcher put status notifications into the queue, the last
  one for the current status, and leave sinks and results alone.
\<close>

definition announces :: "('d, 'z) dispatcher_scheme \<Rightarrow> ('d, 'z) dispatcher_scheme \<Rightarrow> bool" where
  "announces s t \<longleftrightarrow>
     m_callback t = m_callback s \<and> m_eventsSinks t = m_eventsSinks s \<and> results t = results s \<and>
     (m_callback s = heating_callback \<longrightarrow>
        (\<exists>xs. outbox t = outbox s @ map note_of xs \<and>
              m_heatingStatus t = last (m_heatingStatus s # xs)))"

lemma announces_refl: "reflp announces"
  unfolding reflp_def announces_def by (intro allI conjI impI exI [of _ "[]"]) simp_all

lemma announces_trans: "transp announces"
proof (rule transpI)
  fix s t u :: "('d, 'z) dispatcher_scheme"
  assume st: "announces s t" and tu: "announces t u"
  have "\<exists>zs. outbox u = outbox s @ map note_of zs \<and>
      m_heatingStatus u = last (m_heatingStatus s # zs)" if cb: "m_callback s = heating_callback"
  proof -
    obtain xs where x: "outbox t = outbox s @ map note_of xs"
      "m_heatingStatus t = last (m_heatingStatus s # xs)"
      using st cb by (auto simp: announces_def)
    obtain ys where y: "outbox u = outbox t @ map note_of ys"
      "m_heatingStatus u = last (m_heatingStatus t # ys)"
      using st tu cb by (auto simp: announces_def)
    have "last (last (m_heatingStatus s # xs) # ys) = last (m_heatingStatus s # xs @ ys)"
      by (cases ys) simp_all
    with x y show ?thesis by (intro exI [of _ "xs @ ys"]) simp
  qed
  then show "announces s u" using st tu by (simp add: announces_def)
qed

lemma announces_silent:
  "m_callback t = m_callback s \<Longrightarrow> m_eventsSinks t = m_eventsSinks s \<Longrightarrow> results t = results s \<Longrightarrow>
   outbox t = outbox s \<Longrightarrow> m_heatingStatus t = m_heatingStatus s \<Longrightarrow> announces s t"
  unfolding announces_def by (intro conjI impI exI [of _ "[]"]) simp_all

lemma announces_publish: "moves announces (publishStatus st)"
  unfolding moves_def
proof
  fix s :: "('a, 'b) dispatcher_scheme"
  show "announces s (fst (publishStatus st s))"
  proof (cases "st = m_heatingStatusCached s")
    case True
    then show ?thesis by (intro announces_silent) (simp_all add: publishStatus_result)
  next
    case False
    then show ?thesis unfolding announces_def
      by (intro conjI impI exI [of _ "[st]"])
        (simp_all add: publishStatus_result heating_callback_def note_of_def)
  qed
qed

lemmas announced =
  moves_status_operations [of announces, OF announces_refl announces_trans _ _ _ _ announces_publish]
  moves_state_operations [of announces, OF announces_refl announces_trans _ _ _ _ announces_publish]

lemma announces_operations:
  "moves announces (deliverTemperature L t)" "moves announces (setPowerState L b)"
  "moves announces (setSteamModeState L b)" "moves announces (startBrew L)"
  "moves announces (stopBrew L)" "moves announces (setBrewTemperature L t)"
  "moves announces (setSteamTemperature L t)" "moves announces (resetScales L)"
  "moves announces (setBrewSteps L r)" "moves announces (setAutoStopCondition L c)"
  "moves announces (unregisterBrewProfileCallback L n)"
  by (rule announced; simp add: announces_silent)+

section \<open>The switches\<close>

lemma block_act:
  "snd (block [c, act f] s) = snd (c s)"
  "fst (block [c, act f] s) = (if snd (c s) = Inr () then f (fst (c s)) else fst (c s))"
  by (auto simp: act_def split: sum.split)

lemma setPowerState_switches:
  "m_power (fst (setPowerState L b s)) =
     (if snd (setPowerState L b s) = Inr () then b else m_power s)"
  "m_steam (fst (setPowerState L b s)) = m_steam s"
proof -
  define X :: "('a, 'b, 'c) state_manager_scheme stmt" where
    "X = branch m_power
          (block [on_dev (ctl_deactivate L BREW_PROFILER_LABEL),
                  on_dev (ctl_deactivate L STEAM_CONTROLLER_LABEL),
                  on_dev (ctl_deactivate L BREW_TEMPERATURE_CONTROLLER_LABEL),
                  disable L,
                  act (\<lambda>s. s\<lparr>m_brewTimer := timer_reset (m_brewTimer s)\<rparr>)])
          (branch m_steam
            (block [on_dev (ctl_activate L STEAM_CONTROLLER_LABEL),
                    bindp (on_dev (temp_getTarget L STEAM_CONTROLLER_LABEL)) (indicateSteamState L)])
            (block [on_dev (ctl_activate L BREW_TEMPERATURE_CONTROLLER_LABEL),
                    bindp (on_dev (temp_getTarget L BREW_TEMPERATURE_CONTROLLER_LABEL))
                      (indicateBrewState L)]))"
  have e: "setPowerState L b = branch (\<lambda>s. m_power s = b) skip (block [X, act (\<lambda>s. s\<lparr>m_power := b\<rparr>)])"
    by (simp add: setPowerState_def X_def)
  have f: "frame m_power X" "frame m_steam X"
    unfolding X_def indicateState_eq by (intro frames machine_frames frame_on_dev; simp)+
  show "m_power (fst (setPowerState L b s)) =
      (if snd (setPowerState L b s) = Inr () then b else m_power s)"
    and "m_steam (fst (setPowerState L b s)) = m_steam s"
    by (simp_all add: e branch_def skip_def block_act frameD [OF f(1)] frameD [OF f(2)]
        del: block.simps)
qed

lemma setSteamModeState_switches:
  "m_steam (fst (setSteamModeState L b s)) =
     (if snd (setSteamModeState L b s) = Inr () then b else m_steam s)"
  "m_power (fst (setSteamModeState L b s)) = m_power s"
proof -
  define X :: "('a, 'b, 'c) state_manager_scheme stmt" where
    "X = branch m_power
            (branch m_steam
              (block [on_dev (ctl_deactivate L STEAM_CONTROLLER_LABEL),
                      on_dev (ctl_activate L BREW_TEMPERATURE_CONTROLLER_LABEL),
                      bindp (on_dev (temp_getTarget L BREW_TEMPERATURE_CONTROLLER_LABEL))
                        (indicateBrewState L)])
              (block [on_dev (ctl_deactivate L BREW_TEMPERATURE_CONTROLLER_LABEL),
                      on_dev (ctl_activate L STEAM_CONTROLLER_LABEL),
                      bindp (on_dev (temp_getTarget L STEAM_CONTROLLER_LABEL))
                        (indicateSteamState L)]))
            skip"
  have e: "setSteamModeState L b = branch (\<lambda>s. m_steam s = b) skip (branch (profilerActive L)
      (throw (RuntimeError ''Cannot switch to steam mode while brewing''))
      (block [X, act (\<lambda>s. s\<lparr>m_steam := b\<rparr>)]))"
    by (simp add: setSteamModeState_def X_def)
  have f: "frame m_power X" "frame m_steam X"
    unfolding X_def indicateState_eq by (intro frames machine_frames frame_on_dev; simp)+
  show "m_steam (fst (setSteamModeState L b s)) =
      (if snd (setSteamModeState L b s) = Inr () then b else m_steam s)"
    and "m_power (fst (setSteamModeState L b s)) = m_power s"
    by (simp_all add: e branch_def skip_def throw_def block_act frameD [OF f(1)] frameD [OF f(2)]
        del: block.simps)
qed

text \<open>The operations that leave both switches alone.\<close>

definition same_switches :: "('d, 'z) dispatcher_scheme \<Rightarrow> ('d, 'z) dispatcher_scheme \<Rightarrow> bool" where
  "same_switches s t \<longleftrightarrow> m_power t = m_power s \<and> m_steam t = m_steam s"

lemma same_switches_refl: "reflp same_switches" and same_switches_trans: "transp same_switches"
  by (auto simp: same_switches_def reflp_def transp_def)

lemma same_switches_publish: "moves same_switches (publishStatus st)"
  by (simp add: moves_def same_switches_def publishStatus_result)

lemma same_switches_operations:
  "moves same_switches (deliverTemperature L t)" "moves same_switches (startBrew L)"
  "moves same_switches (stopBrew L)" "moves same_switches (setBrewTemperature L t)"
  "moves same_switches (setSteamTemperature L t)" "moves same_switches (resetScales L)"
  "moves same_switches (setBrewSteps L r)" "moves same_switches (setAutoStopCondition L c)"
  by (rule moves_status_operations moves_state_operations,
      rule same_switches_refl, rule same_switches_trans,
      (simp add: same_switches_def | rule same_switches_publish)+)+

section \<open>What an event stream shows\<close>

text \<open>The last value of a kind in a list of events.\<close>

definition seen :: "(Event \<Rightarrow> 'a option) \<Rightarrow> Event list \<Rightarrow> 'a option" where
  "seen f es =
     (if List.map_filter f es = [] then None else Some (last (List.map_filter f es)))"

fun of_power :: "Event \<Rightarrow> bool option" where
  "of_power (PowerEvent b) = Some b"
| "of_power _ = None"

fun of_steam :: "Event \<Rightarrow> bool option" where
  "of_steam (SteamEvent b) = Some b"
| "of_steam _ = None"

fun of_brew :: "Event \<Rightarrow> bool option" where
  "of_brew (BrewEvent b) = Some b"
| "of_brew _ = None"

fun of_heater :: "Event \<Rightarrow> HeatingStatus option" where
  "of_heater (HeaterEvent st) = Some st"
| "of_heater _ = None"

lemma map_filter_append:
  "List.map_filter f (xs @ ys) = List.map_filter f xs @ List.map_filter f ys"
  by (simp add: List.map_filter_def)

lemma seen_Nil [simp]: "seen f [] = None"
  by (simp add: seen_def List.map_filter_simps)

lemma seen_append: "seen f (xs @ ys) = (case seen f ys of None \<Rightarrow> seen f xs | Some y \<Rightarrow> Some y)"
  by (simp add: seen_def map_filter_append)

lemma seen_Cons: "seen f (x # ys) = (case seen f ys of None \<Rightarrow> f x | Some y \<Rightarrow> Some y)"
  using seen_append [of f "[x]" ys] by (simp add: seen_def List.map_filter_simps split: option.splits)

text \<open>The status notifications that wait in the queue.\<close>

fun pending_event :: "task \<Rightarrow> Event option" where
  "pending_event (Discard (NotifyHeating st)) = Some (HeaterEvent st)"
| "pending_event _ = None"

definition pending :: "task list \<Rightarrow> Event list" where
  "pending ts = List.map_filter pending_event ts"

lemma pending_simps [simp]:
  "pending [] = []"
  "pending (t # ts) = (case pending_event t of None \<Rightarrow> [] | Some e \<Rightarrow> [e]) @ pending ts"
  "pending (ts @ us) = pending ts @ pending us"
  by (simp_all add: pending_def List.map_filter_simps map_filter_append split: option.split)

lemma pending_notes: "pending (map note_of xs) = map HeaterEvent xs"
  by (induction xs) (simp_all add: note_of_def)

lemma seen_heaters: "seen of_heater (map HeaterEvent xs) = (if xs = [] then None else Some (last xs))"
  by (induction xs) (simp_all add: seen_Cons)

text \<open>
  Every stream shows the power switch and the steam switch, and after the waiting
  notifications it shows the current heating status. No destructor task is in the queue,
  and status notifications enter it only through the heating status callback.
\<close>

fun not_internal :: "procedure \<Rightarrow> bool" where
  "not_internal Shutdown = False"
| "not_internal (NotifyHeating _) = False"
| "not_internal _ = True"

fun task_ok :: "task \<Rightarrow> bool" where
  "task_ok (Discard p) = (p \<noteq> Shutdown)"
| "task_ok (WithCallback _ p) = not_internal p"
| "task_ok (WithFuture _ p) = not_internal p"

definition heaters_shown :: "('d, 'z) dispatcher_scheme \<Rightarrow> bool" where
  "heaters_shown s \<longleftrightarrow>
     m_callback s = heating_callback \<and> (\<forall>t \<in> set (outbox s). task_ok t) \<and>
     seen of_heater (pending (outbox s)) \<in> {None, Some (m_heatingStatus s)} \<and>
     (\<forall>(i, es) \<in> set (m_eventsSinks s).
        seen of_heater (es @ pending (outbox s)) = Some (m_heatingStatus s))"

definition switches_shown :: "('d, 'z) dispatcher_scheme \<Rightarrow> bool" where
  "switches_shown s \<longleftrightarrow>
     (\<forall>(i, es) \<in> set (m_eventsSinks s).
        seen of_power es = Some (m_power s) \<and> seen of_steam es = Some (m_steam s))"

definition streams_ok :: "('d, 'z) dispatcher_scheme \<Rightarrow> bool" where
  "streams_ok s \<longleftrightarrow> heaters_shown s \<and> switches_shown s"

lemma announces_heaters:
  assumes "announces s t" and "heaters_shown s"
  shows "heaters_shown t"
proof -
  obtain xs where x: "outbox t = outbox s @ map note_of xs"
    "m_heatingStatus t = last (m_heatingStatus s # xs)"
    using assms by (auto simp: announces_def heaters_shown_def)
  have "\<forall>u \<in> set (outbox t). task_ok u"
    using assms(2) by (auto simp: x heaters_shown_def note_of_def)
  with x assms show ?thesis
    by (cases "xs = []") (fastforce simp: announces_def heaters_shown_def
        pending_notes seen_append seen_heaters split: option.splits)+
qed

lemma announces_switches:
  "announces s t \<Longrightarrow> same_switches s t \<Longrightarrow> switches_shown s \<Longrightarrow> switches_shown t"
  by (simp add: announces_def same_switches_def switches_shown_def)

lemma kept_streams: "moves announces m \<Longrightarrow> moves same_switches m \<Longrightarrow> keeps streams_ok m"
  by (auto simp: keeps_def moves_def streams_ok_def intro: announces_heaters announces_switches)

lemmas streams_operations =
  kept_streams [OF announces_operations(1) same_switches_operations(1)]
  kept_streams [OF announces_operations(4) same_switches_operations(2)]
  kept_streams [OF announces_operations(5) same_switches_operations(3)]
  kept_streams [OF announces_operations(6) same_switches_operations(4)]
  kept_streams [OF announces_operations(7) same_switches_operations(5)]
  kept_streams [OF announces_operations(8) same_switches_operations(6)]
  kept_streams [OF announces_operations(9) same_switches_operations(7)]
  kept_streams [OF announces_operations(10) same_switches_operations(8)]

lemma streams_push: "task_ok t \<Longrightarrow> pending_event t = None \<Longrightarrow> keeps streams_ok (push t)"
  by (auto simp: keeps_def push_def act_def streams_ok_def heaters_shown_def switches_shown_def)

text \<open>Events of the other kinds.\<close>

definition plain_event :: "Event \<Rightarrow> bool" where
  "plain_event e \<longleftrightarrow> of_power e = None \<and> of_steam e = None \<and> of_heater e = None"

lemma seen_more: "f e = None \<Longrightarrow> seen f ((es @ [e]) @ qs) = seen f (es @ qs)"
  by (simp add: seen_append seen_Cons split: option.split)

lemma seen_snoc: "seen f (es @ [e]) = (case f e of None \<Rightarrow> seen f es | Some x \<Rightarrow> Some x)"
  by (simp add: seen_append seen_Cons split: option.split)

lemma heaters_notify: "of_heater e = None \<Longrightarrow> keeps heaters_shown (notifyChanged e)"
  unfolding keeps_def notifyChanged_def act_def heaters_shown_def
  by (auto simp: seen_more [unfolded append_assoc append_Cons append_Nil] seen_more)

lemma switches_notify:
  assumes "of_power e \<in> {None, Some b}" and "of_steam e \<in> {None, Some c}"
    and "\<forall>(i, es) \<in> set (m_eventsSinks s).
      (of_power e = None \<longrightarrow> seen of_power es = Some b) \<and>
      (of_steam e = None \<longrightarrow> seen of_steam es = Some c)"
    and "m_power s = b" "m_steam s = c"
  shows "switches_shown (fst (notifyChanged e s))"
  using assms by (auto simp: notifyChanged_def act_def switches_shown_def seen_snoc)

lemma streams_notify: "plain_event e \<Longrightarrow> keeps streams_ok (notifyChanged e)"
  unfolding keeps_def streams_ok_def
proof (intro allI impI conjI)
  fix s :: "('a, 'b) dispatcher_scheme"
  assume e: "plain_event e" and s: "heaters_shown s \<and> switches_shown s"
  then show "heaters_shown (fst (notifyChanged e s))"
    by (auto simp: plain_event_def intro: keepsD heaters_notify)
  show "switches_shown (fst (notifyChanged e s))"
    using e s by (auto simp: plain_event_def notifyChanged_def act_def switches_shown_def seen_snoc)
qed

lemma streams_doSetPower: "keeps streams_ok (doSetPowerState L b)"
  unfolding keeps_def
proof (intro allI impI)
  fix s :: "('a, 'b) dispatcher_scheme"
  assume s: "streams_ok s"
  let ?t = "fst (setPowerState L b s)"
  have a: "announces s ?t" by (rule movesD, rule announces_operations)
  have h: "heaters_shown ?t" using a s announces_heaters by (auto simp: streams_ok_def)
  have k: "m_eventsSinks ?t = m_eventsSinks s" using a by (simp add: announces_def)
  show "streams_ok (fst (doSetPowerState L b s))"
  proof (cases "snd (setPowerState L b s)")
    case (Inl e)
    then show ?thesis using s h k
      by (simp add: doSetPowerState_def streams_ok_def switches_shown_def setPowerState_switches)
  next
    case (Inr u)
    have "switches_shown (fst (notifyChanged (PowerEvent b) ?t))"
      using s k Inr by (intro switches_notify [of _ b "m_steam s"])
        (auto simp: streams_ok_def switches_shown_def setPowerState_switches)
    moreover have "heaters_shown (fst (notifyChanged (PowerEvent b) ?t))"
      by (rule keepsD [OF heaters_notify h]) simp
    ultimately show ?thesis
      using Inr by (simp add: doSetPowerState_def streams_ok_def notifyChanged_def act_def)
  qed
qed

lemma streams_doSetSteam: "keeps streams_ok (doSetSteamModeState L b)"
  unfolding keeps_def
proof (intro allI impI)
  fix s :: "('a, 'b) dispatcher_scheme"
  assume s: "streams_ok s"
  let ?t = "fst (setSteamModeState L b s)"
  have a: "announces s ?t" by (rule movesD, rule announces_operations)
  have h: "heaters_shown ?t" using a s announces_heaters by (auto simp: streams_ok_def)
  have k: "m_eventsSinks ?t = m_eventsSinks s" using a by (simp add: announces_def)
  show "streams_ok (fst (doSetSteamModeState L b s))"
  proof (cases "snd (setSteamModeState L b s)")
    case (Inl e)
    then show ?thesis using s h k
      by (simp add: doSetSteamModeState_def streams_ok_def switches_shown_def
          setSteamModeState_switches)
  next
    case (Inr u)
    have "switches_shown (fst (notifyChanged (SteamEvent b) ?t))"
      using s k Inr by (intro switches_notify [of _ "m_power s" b])
        (auto simp: streams_ok_def switches_shown_def setSteamModeState_switches)
    moreover have "heaters_shown (fst (notifyChanged (SteamEvent b) ?t))"
      by (rule keepsD [OF heaters_notify h]) simp
    ultimately show ?thesis
      using Inr by (simp add: doSetSteamModeState_def streams_ok_def notifyChanged_def act_def)
  qed
qed

section \<open>Every procedure\<close>

lemma streams_part:
  "(\<And>x s. heaters_shown (p x s) = heaters_shown s) \<Longrightarrow>
   (\<And>x s. switches_shown (p x s) = switches_shown s) \<Longrightarrow> keeps streams_ok (zoom g p m)"
  by (simp add: keeps_def zoom_def streams_ok_def)

lemma streams_managers:
  "keeps streams_ok (on_profiles m)" "keeps streams_ok (on_settings n)"
  unfolding on_profiles_def on_settings_def
  by (rule streams_part; auto simp: heaters_shown_def switches_shown_def split_def)+

lemma streams_apply:
  "keeps streams_ok (applyBrewProfile L m)" "keeps streams_ok (applySettings L n)"
  unfolding applyBrewProfile_def applyAutoStopCondition_eq applySettings_def
  by (intro kept streams_operations)+

lemma streams_reactors:
  "seen of_heater (pending (outbox s)) \<in> {None, Some (m_heatingStatus s)} \<Longrightarrow>
   seen of_power (sendInitialState L s []) = Some (m_power s) \<and>
   seen of_steam (sendInitialState L s []) = Some (m_steam s) \<and>
   seen of_heater (sendInitialState L s [] @ pending (outbox s)) = Some (m_heatingStatus s)"
  by (auto simp: sendInitialState_def seen_append seen_Cons getPowerState_def getSteamModeState_def
      heatingStatus_def getCurrentStatus_def)

lemma streams_addReactor: "keeps streams_ok (addReactor L i)"
  unfolding keeps_def
proof (intro allI impI)
  fix s :: "('a, 'b) dispatcher_scheme"
  assume s: "streams_ok s"
  then have "seen of_heater (pending (outbox s)) \<in> {None, Some (m_heatingStatus s)}"
    by (simp add: streams_ok_def heaters_shown_def)
  from streams_reactors [OF this, of L] s
  show "streams_ok (fst (addReactor L i s))"
    by (simp add: addReactor_def act_def streams_ok_def heaters_shown_def switches_shown_def)
qed

lemma streams_removeReactor: "keeps streams_ok (removeReactor i)"
  by (auto simp: keeps_def removeReactor_def act_def streams_ok_def heaters_shown_def
      switches_shown_def)

lemma streams_stopped: "keeps streams_ok (doStopBrew L)"
  unfolding doStopBrew_def by (intro kept streams_operations streams_notify) (simp add: plain_event_def)

lemma streams_started: "keeps streams_ok (doStartBrew L)"
  unfolding doStartBrew_def by (intro kept streams_operations streams_notify) (simp add: plain_event_def)

text \<open>The procedures that read the state for an argument.\<close>

lemma streams_reading:
  "keeps streams_ok (\<lambda>s. doSetPowerState L (\<not> getPowerState s) s)"
  "keeps streams_ok (\<lambda>s. doSetSteamModeState L (\<not> getSteamModeState s) s)"
  "keeps streams_ok (\<lambda>s. applyBrewProfile L (m_brewProfileManager s) s)"
  "keeps streams_ok (\<lambda>s. applySettings L (m_userSettings s) s)"
  unfolding keeps_def
  by (auto intro: keepsD [OF streams_doSetPower] keepsD [OF streams_doSetSteam]
      keepsD [OF streams_apply(1)] keepsD [OF streams_apply(2)])

lemma streams_messages:
  "keeps streams_ok (doSetBrewProfile L J p)" "keeps streams_ok (doSetUserSettings L K u)"
  "keeps streams_ok (remoteStopBrew L)" "keeps streams_ok (doNotifyBrewStepChange n)"
  unfolding doSetBrewProfile_def doSetUserSettings_def remoteStopBrew_def
    doNotifyBrewStepChange_def
  by (intro kept streams_managers streams_reading streams_operations streams_notify;
      simp add: plain_event_def)+

lemmas streams_procedures =
  streams_reading(1,2) streams_messages streams_doSetPower streams_doSetSteam streams_stopped
  streams_started streams_addReactor streams_removeReactor streams_operations

lemma streams_procedure: "not_internal p \<Longrightarrow> keeps streams_ok (run_procedure L JP JS p)"
  by (cases p; simp only: run_procedure.simps not_internal.simps finish_def)
    (intro kept streams_procedures)+

lemma streams_deliver: "keeps streams_ok (deliver c r)"
  by (simp add: keeps_def deliver_def act_def streams_ok_def heaters_shown_def switches_shown_def)

lemma streams_packaged: "keeps P m \<Longrightarrow> keeps P (packaged m)"
  unfolding packaged_def by (intro kept)

lemma streams_task:
  assumes "pending_event t = None" and "task_ok t"
  shows "keeps streams_ok (run_task L JP JS t)"
proof -
  have p: "keeps streams_ok (packaged (run_procedure L JP JS p))" if "not_internal p" for p
    by (rule streams_packaged, rule streams_procedure, rule that)
  show ?thesis
  proof (cases t)
    case (Discard q)
    with assms have "not_internal q" by (cases q) simp_all
    with Discard p show ?thesis by (simp only: run_task.simps) (intro kept)
  next
    case (WithCallback c q)
    with assms p show ?thesis
      by (simp only: run_task.simps task_ok.simps) (intro kept streams_deliver)
  next
    case (WithFuture c q)
    with assms p show ?thesis
      by (simp only: run_task.simps task_ok.simps) (intro kept streams_deliver)
  qed
qed

lemma streams_note:
  assumes "streams_ok s" and "outbox s = Discard (NotifyHeating st) # ts"
  shows "streams_ok (fst (run_task L JP JS (Discard (NotifyHeating st)) (s\<lparr>outbox := ts\<rparr>)))"
  using assms
  by (auto simp: packaged_def finish_def notifyHeatingStatusChange_def notifyChanged_def prog_defs
      streams_ok_def heaters_shown_def switches_shown_def seen_append seen_Cons
      split: option.splits)

lemma streams_worker: "keeps streams_ok (worker_step L JP JS)"
  unfolding keeps_def
proof (intro allI impI)
  fix s :: "('a, 'b) dispatcher_scheme"
  assume s: "streams_ok s"
  show "streams_ok (fst (worker_step L JP JS s))"
  proof (cases "outbox s")
    case Nil
    with s show ?thesis by (simp add: worker_step_def)
  next
    case (Cons t ts)
    show ?thesis
    proof (cases "pending_event t")
      case None
      have "streams_ok (s\<lparr>outbox := ts\<rparr>)"
        using s Cons None by (simp add: streams_ok_def heaters_shown_def switches_shown_def)
      moreover have "task_ok t" using s Cons by (simp add: streams_ok_def heaters_shown_def)
      ultimately show ?thesis
        using Cons keepsD [OF streams_task [OF None]] by (simp add: worker_step_def)
    next
      case (Some e)
      then obtain st where "t = Discard (NotifyHeating st)"
        by (cases t rule: pending_event.cases) simp_all
      with s Cons show ?thesis using streams_note [OF s] by (simp add: worker_step_def)
    qed
  qed
qed

section \<open>Reachable states\<close>

text \<open>The public operations of the dispatcher, its destructor apart.\<close>

definition requests :: "('d, 'z) dispatcher_stmt set" where
  "requests =
     {togglePowerState, toggleBrew, button_startBrew, button_stopBrew, toggleSteamModeState} \<union>
     range button_setPowerState \<union> range button_setSteamModeState \<union>
     range addEventsStreamReactor \<union> range releaseEventsStreamReactor \<union>
     range resetWeight \<union> range getBrewProfile \<union> (\<Union>p. range (setBrewProfile p)) \<union>
     range remote_getPowerState \<union> (\<Union>b. range (remote_setPowerState b)) \<union>
     range remote_getBrewState \<union> range remote_startBrew \<union> range remote_stopBrew \<union>
     range remote_getSteamModeState \<union> (\<Union>b. range (remote_setSteamModeState b)) \<union>
     range getUserSettings \<union> (\<Union>u. range (setUserSettings u)) \<union> range brewCallback"

lemma streams_requests: "m \<in> requests \<Longrightarrow> keeps streams_ok m"
  by (auto simp: requests_def togglePowerState_def toggleBrew_def button_startBrew_def
      button_stopBrew_def toggleSteamModeState_def button_setPowerState_def
      button_setSteamModeState_def addEventsStreamReactor_def releaseEventsStreamReactor_def
      resetWeight_def getBrewProfile_def setBrewProfile_def remote_getPowerState_def
      remote_setPowerState_def remote_getBrewState_def remote_startBrew_def remote_stopBrew_def
      remote_getSteamModeState_def remote_setSteamModeState_def getUserSettings_def
      setUserSettings_def brewCallback_def executeDiscardResult_def executeWithCallback_def
      intro!: streams_push split: option.split)

inductive dispatcher_step ::
    "'d lib \<Rightarrow> BrewProfile json \<Rightarrow> UserSettings json \<Rightarrow>
     ('d, 'z) dispatcher_scheme \<Rightarrow> ('d, 'z) dispatcher_scheme \<Rightarrow> bool"
  for L JP JS where
  request: "m \<in> requests \<Longrightarrow> dispatcher_step L JP JS s (fst (m s))"
| work: "dispatcher_step L JP JS s (fst (worker_step L JP JS s))"
| reading: "dispatcher_step L JP JS s (fst (deliverTemperature L t s))"
| world: "dispatcher_step L JP JS s (s\<lparr>dev := d\<rparr>)"

definition dispatcher_start ::
    "'d lib \<Rightarrow> 'd dispatcher \<Rightarrow> bool" where
  "dispatcher_start L s \<longleftrightarrow>
     (\<exists>pm us sm. outbox sm = [] \<and> snd (AsyncEventDispatcher_create L pm us sm) = Inr s)"

lemma dispatcher_start_fields:
  assumes "dispatcher_start L s"
  shows "m_callback s = heating_callback" "outbox s = []" "m_eventsSinks s = []"
proof -
  obtain pm us sm where "outbox sm = []" "snd (AsyncEventDispatcher_create L pm us sm) = Inr s"
    using assms by (auto simp: dispatcher_start_def)
  then show "m_callback s = heating_callback" "outbox s = []" "m_eventsSinks s = []"
    by (auto simp: AsyncEventDispatcher_create_def registerBrewProfilerCallback_def
        setHeatingStatusChangeCallback_def setCallback_def act_def state_manager.defs
        on_dev_def zoom_def split: prod.splits sum.splits)
qed

lemma start_streams: "dispatcher_start L s \<Longrightarrow> streams_ok s"
  by (simp add: streams_ok_def heaters_shown_def switches_shown_def dispatcher_start_fields)

lemma step_streams: "dispatcher_step L JP JS s t \<Longrightarrow> streams_ok s \<Longrightarrow> streams_ok t"
proof (induction rule: dispatcher_step.induct)
  case (request m s)
  then show ?case by (metis keepsD streams_requests)
next
  case (work s)
  then show ?case by (rule keepsD [OF streams_worker])
next
  case (reading t s)
  then show ?case by (rule keepsD [OF streams_operations(1)])
next
  case (world s d)
  then show ?case by (simp add: streams_ok_def heaters_shown_def switches_shown_def)
qed

interpretation streams: safety "dispatcher_start L" "dispatcher_step L JP JS" streams_ok
  for L JP JS
  by unfold_locales (rule start_streams, assumption, rule step_streams)

text \<open>
  Whatever requests arrive, from buttons, remote calls, the profiler and the sensor,
  in whatever order they interleave with the worker, and whatever the devices do or fail
  to do: every registered event stream has been told the power and steam mode that the
  machine is in, and once no notification is waiting in the queue, its heating status.
\<close>

lemma streams_show_state:
  assumes "dispatcher_start L s" and "(dispatcher_step L JP JS)\<^sup>*\<^sup>* s t"
    and "(i, es) \<in> set (m_eventsSinks t)"
  shows "seen of_power es = Some (getPowerState t) \<and>
    seen of_steam es = Some (getSteamModeState t) \<and>
    seen of_heater (es @ pending (outbox t)) = Some (heatingStatus t)"
  using streams.reachable_inv [OF assms(1,2)] assms(3)
  by (auto simp: streams_ok_def heaters_shown_def switches_shown_def getPowerState_def
      getSteamModeState_def heatingStatus_def getCurrentStatus_def)

definition sample_manager :: "(sim, task list) state_manager" where
  "sample_manager =
     \<lparr>dev = sim_world, outbox = [], m_callback = (\<lambda>_ q. q), m_heatingStatus = DISABLED,
      m_heatingStatusCached = DISABLED, m_brewTemperatureWindow = 500,
      m_steamTemperatureWindow = 1000, m_readyHysteresisPeriod = 0,
      m_temperatureCallback = None, sensorCallback = None,
      m_power = False, m_steam = False, m_brewTimer = timer_init\<rparr>"

definition sample_dispatcher :: "sim dispatcher" where
  "sample_dispatcher = state_manager.extend (sample_manager\<lparr>m_callback := heating_callback\<rparr>)
     \<lparr>m_brewProfileManager = sample_profiles,
      m_userSettings = UserSettingsManager_create ''settings.json'' 155000,
      m_eventsSinks = [], m_brewCallback = 0, results = []\<rparr>"

lemma sample_dispatcher_start: "dispatcher_start sim_lib sample_dispatcher"
proof -
  have "outbox sample_manager = []" by (simp add: sample_manager_def)
  moreover have "snd (AsyncEventDispatcher_create sim_lib sample_profiles
      (UserSettingsManager_create ''settings.json'' 155000) sample_manager) = Inr sample_dispatcher"
    by (simp add: AsyncEventDispatcher_create_def registerBrewProfilerCallback_def on_dev_def
        prog_defs sim_lib_def setHeatingStatusChangeCallback_def setCallback_def
        sample_dispatcher_def sample_manager_def)
  ultimately show ?thesis by (auto simp: dispatcher_start_def)
qed

text \<open>A conversion that knows one message.\<close>

definition one_json :: "'m \<Rightarrow> 'm json" where
  "one_json p =
     \<lparr>to_json = (\<lambda>m. if m = p then Inr ''message'' else Inl ''unknown''),
      from_json = (\<lambda>t m. if t = ''message'' then (p, None) else (m, Some ''unknown''))\<rparr>"

lemma one_json_laws [simp]: "json_laws (one_json p)"
  by (simp add: json_laws_def one_json_def)

abbreviation sample_work :: "sim dispatcher \<Rightarrow> sim dispatcher" where
  "sample_work s \<equiv> fst (worker_step sim_lib (one_json (makeDefaultProfile 95000 9000))
     (one_json (makeDefaultSettings 155000)) s)"

section \<open>Results\<close>

text \<open>
  What every procedure does to the queue: it appends status notifications only. It gives
  no results of its own.
\<close>

definition queues :: "('d, 'z) dispatcher_scheme \<Rightarrow> ('d, 'z) dispatcher_scheme \<Rightarrow> bool" where
  "queues s t \<longleftrightarrow>
     m_callback t = m_callback s \<and> results t = results s \<and>
     (m_callback s = heating_callback \<longrightarrow> (\<exists>xs. outbox t = outbox s @ map note_of xs))"

lemma queues_refl: "reflp queues"
  by (auto simp: reflp_def queues_def intro: exI [of _ "[]"])

lemma queues_trans: "transp queues"
  unfolding transp_def queues_def by (metis append.assoc map_append)

lemma queues_announces: "moves announces m \<Longrightarrow> moves queues m"
  by (auto simp: moves_def announces_def queues_def)

lemmas queued =
  moves_simple [OF queues_refl] moves_branch moves_if moves_bindp [OF queues_trans]
  moves_block_Cons [OF queues_trans]

lemma queues_same:
  "m_callback t = m_callback s \<Longrightarrow> results t = results s \<Longrightarrow> outbox t = outbox s \<Longrightarrow> queues s t"
  by (auto simp: queues_def intro: exI [of _ "[]"])

lemma queues_basic:
  "moves queues (notifyChanged e)" "moves queues (addReactor L i)" "moves queues (removeReactor i)"
  "moves queues (on_profiles m)" "moves queues (on_settings n)"
  by (simp_all add: moves_def queues_same notifyChanged_def addReactor_def removeReactor_def act_def
      on_profiles_def on_settings_def zoom_def split_def)

lemmas queues_operations = announces_operations [THEN queues_announces]

lemma queues_apply:
  "moves queues (applyBrewProfile L m)" "moves queues (applySettings L n)"
  unfolding applyBrewProfile_def applyAutoStopCondition_eq applySettings_def
  by (intro queued queues_operations)+

lemma queues_switching:
  "moves queues (doSetPowerState L b)" "moves queues (doSetSteamModeState L b)"
  unfolding doSetPowerState_def doSetSteamModeState_def
  by (intro queued queues_operations queues_basic)+

lemma queues_reading:
  "moves queues (\<lambda>s. doSetPowerState L (\<not> getPowerState s) s)"
  "moves queues (\<lambda>s. doSetSteamModeState L (\<not> getSteamModeState s) s)"
  "moves queues (\<lambda>s. applyBrewProfile L (m_brewProfileManager s) s)"
  "moves queues (\<lambda>s. applySettings L (m_userSettings s) s)"
  "moves queues (\<lambda>s. unregisterBrewProfileCallback L (m_brewCallback s) s)"
  unfolding moves_def
  by (auto intro: movesD [OF queues_switching(1)] movesD [OF queues_switching(2)]
      movesD [OF queues_apply(1)] movesD [OF queues_apply(2)] movesD [OF queues_operations(11)])

lemma queues_procedure: "moves queues (run_procedure L JP JS p)"
  by (cases p; simp only: run_procedure.simps finish_def doStartBrew_def doStopBrew_def
      notifyHeatingStatusChange_def doNotifyBrewStepChange_def doSetBrewProfile_def
      doSetUserSettings_def remoteStopBrew_def shutdown_def)
    (intro queued queues_operations queues_basic queues_reading queues_switching)+

fun receivers :: "task \<Rightarrow> nat list" where
  "receivers (Discard _) = []"
| "receivers (WithCallback c _) = [c]"
| "receivers (WithFuture f _) = [f]"

lemma run_task_results:
  assumes "snd (run_task L JP JS t s) = Inr ()"
  shows "map fst (results (fst (run_task L JP JS t s))) = map fst (results s) @ receivers t"
    and "m_callback (fst (run_task L JP JS t s)) = m_callback s"
    and "m_callback s = heating_callback \<Longrightarrow>
      \<exists>xs. outbox (fst (run_task L JP JS t s)) = outbox s @ map note_of xs"
  using assms movesD [OF queues_procedure, of s L JP JS]
  by (cases t; auto simp: packaged_def prog_defs deliver_def queues_def split: sum.splits if_splits)+


definition worker_run ::
    "'d lib \<Rightarrow> BrewProfile json \<Rightarrow> UserSettings json \<Rightarrow> nat \<Rightarrow> ('d, 'z) dispatcher_stmt" where
  "worker_run L JP JS n = block (replicate n (worker_step L JP JS))"

lemma worker_run_results:
  "\<lbrakk>m_callback s = heating_callback; outbox s = ts @ us;
    snd (worker_run L JP JS (length ts) s) = Inr ()\<rbrakk> \<Longrightarrow>
   map fst (results (fst (worker_run L JP JS (length ts) s))) =
     map fst (results s) @ concat (map receivers ts) \<and>
   (\<exists>xs. outbox (fst (worker_run L JP JS (length ts) s)) = us @ map note_of xs)"
proof (induction ts arbitrary: s us)
  case Nil
  then show ?case by (auto simp: worker_run_def intro: exI [of _ "[]"])
next
  case (Cons t ts)
  let ?s = "s\<lparr>outbox := ts @ us\<rparr>"
  let ?t = "fst (run_task L JP JS t ?s)"
  have w: "worker_step L JP JS s = run_task L JP JS t ?s"
    using Cons.prems by (simp add: worker_step_def)
  then have r: "snd (run_task L JP JS t ?s) = Inr ()"
      "worker_run L JP JS (length (t # ts)) s = worker_run L JP JS (length ts) ?t"
    using Cons.prems(3) by (auto simp: worker_run_def split: sum.splits)
  note rt = run_task_results [OF r(1)]
  obtain xs where "outbox ?t = ts @ us @ map note_of xs"
    using rt(3) Cons.prems(1) by auto
  then have "map fst (results (fst (worker_run L JP JS (length ts) ?t))) =
      map fst (results ?t) @ concat (map receivers ts) \<and>
      (\<exists>ys. outbox (fst (worker_run L JP JS (length ts) ?t)) = (us @ map note_of xs) @ map note_of ys)"
    using Cons.prems rt(2) r(2) by (intro Cons.IH) simp_all
  then show ?case using r(2) rt(1) by (auto simp flip: map_append)
qed

text \<open>
  C22: once the worker has run as many rounds as tasks were waiting, and no undefined
  conversion was met, every call among them has been given exactly one result, in the
  order of the calls, and no call is left in the queue: only status notifications are.
\<close>

theorem calls_answered_in_order:
  assumes "m_callback s = heating_callback"
    and "snd (worker_run L JP JS (length (outbox s)) s) = Inr ()"
  shows "map fst (results (fst (worker_run L JP JS (length (outbox s)) s))) =
      map fst (results s) @ concat (map receivers (outbox s)) \<and>
    concat (map receivers (outbox (fst (worker_run L JP JS (length (outbox s)) s)))) = []"
  using worker_run_results [OF assms(1) _ assms(2), of "[]"] by (auto simp: note_of_def)

theorem calls_answered_in_order_witness:
  "\<exists>t. map fst (results t) = [4, 5] \<and>
     t = fst (worker_run sim_lib (one_json (makeDefaultProfile 95000 9000))
       (one_json (makeDefaultSettings 155000)) 2
       (sample_dispatcher\<lparr>outbox := [WithCallback 4 GetPower, WithCallback 5 StartBrew]\<rparr>))"
proof -
  let ?s = "sample_dispatcher\<lparr>outbox := [WithCallback 4 GetPower, WithCallback 5 StartBrew]\<rparr>"
  let ?run = "worker_run sim_lib (one_json (makeDefaultProfile 95000 9000))
       (one_json (makeDefaultSettings 155000))"
  have "m_callback ?s = heating_callback" and "results ?s = []"
    by (simp_all add: sample_dispatcher_def sample_manager_def state_manager.defs)
  moreover have "snd (?run (length (outbox ?s)) ?s) = Inr ()"
    by (simp add: worker_run_def numeral_2_eq_2 worker_step_def packaged_def finish_def prog_defs
        startBrew_def deliver_def profilerActive_def deviceActive_def sample_dispatcher_def
        sample_manager_def state_manager.defs sim_world_def)
  ultimately show ?thesis
    using calls_answered_in_order [of ?s sim_lib "one_json (makeDefaultProfile 95000 9000)"
        "one_json (makeDefaultSettings 155000)"] by (simp add: numeral_2_eq_2)
qed

section \<open>What is announced\<close>

lemma run_task_eqs:
  "run_task L JP JS (Discard p) s =
     (fst (run_procedure L JP JS p s),
      if snd (run_procedure L JP JS p s) = Inl UndefinedBehaviour then Inl UndefinedBehaviour
      else Inr ())"
  "run_task L JP JS (WithCallback c p) s =
     (if snd (run_procedure L JP JS p s) = Inl UndefinedBehaviour
      then (fst (run_procedure L JP JS p s), Inl UndefinedBehaviour)
      else deliver c (snd (run_procedure L JP JS p s)) (fst (run_procedure L JP JS p s)))"
  by (auto simp: packaged_def prog_defs deliver_def split: sum.split)

declare run_task.simps [simp del]

lemma finish_result:
  "fst (finish m s) = fst (m s)" "snd (finish m s) = map_sum id (\<lambda>_. Done) (snd (m s))"
  by (auto simp: finish_def prog_defs split: sum.split)

definition told :: "Event \<Rightarrow> (nat \<times> Event list) list \<Rightarrow> (nat \<times> Event list) list" where
  "told e sinks = map (\<lambda>(i, q). (i, q @ [e])) sinks"

lemma notifyChanged_told:
  "notifyChanged e s = (s\<lparr>m_eventsSinks := told e (m_eventsSinks s)\<rparr>, Inr ())"
  by (simp add: notifyChanged_def act_def told_def)

lemma announces_keep:
  assumes "moves announces m"
  shows "m_eventsSinks (fst (m s)) = m_eventsSinks s" "results (fst (m s)) = results s"
  using assms by (simp_all add: moves_def announces_def)

lemmas sinks_state_operations = announces_operations [THEN announces_keep(1)]

lemmas results_state_operations = announces_operations [THEN announces_keep(2)]

lemma getBrewState_fields [simp]:
  "getBrewState L (s\<lparr>m_eventsSinks := x\<rparr>) = getBrewState L s"
  "getBrewState L (s\<lparr>results := y\<rparr>) = getBrewState L s"
  by (simp_all add: getBrewState_def profilerActive_def deviceActive_def)

text \<open>
  A brew that is started when nothing forbids it runs, whoever asked for it; but only
  a start by the button is announced to the event streams. A remote start is answered and
  not announced: the streams still show the brew as stopped.
\<close>

lemma brew_start_announced:
  assumes "machine_env L (m_readyHysteresisPeriod s)" and "heaters_ok L s"
    and "getPowerState s" and "\<not> getSteamModeState s" and "\<not> getBrewState L s"
  shows "let button = fst (run_task L JP JS (Discard DoStartBrew) s);
      remote = fst (run_task L JP JS (WithCallback c StartBrew) s) in
    getBrewState L button \<and>
    m_eventsSinks button = told (BrewEvent True) (m_eventsSinks s) \<and>
    getBrewState L remote \<and> results remote = results s @ [(c, Inr Done)] \<and>
    m_eventsSinks remote = m_eventsSinks s"
proof -
  have i: "implements L (startBrew L) spec_startBrew s"
    by (rule startBrew_implements [OF assms(1,2)])
  then have r: "snd (startBrew L s) = Inr ()" and b: "getBrewState L (fst (startBrew L s))"
    using assms(3-5) by (simp_all add: implements_def spec_startBrew_def machine_of_def
        getPowerState_def getSteamModeState_def getBrewState_def)
  have "results (fst (startBrew L s)) = results s"
    by (rule results_state_operations)
  with r b show ?thesis
    by (simp add: Let_def run_task_eqs finish_result doStartBrew_def
        notifyChanged_told sinks_state_operations deliver_def act_def)
qed

text \<open>
  Every way to end a running brew ends it, and the event streams are told so only
  when the button or the profiler did it: a remote stop sends an empty progress instead,
  and switching the power off sends the power event alone. A later stop by the button
  finds no brew and sends nothing either.
\<close>

lemma brew_stop_announced:
  assumes "machine_env L (m_readyHysteresisPeriod s)" and "heaters_ok L s" and "getBrewState L s"
  shows "let button = fst (run_task L JP JS (Discard DoStopBrew) s);
      remote = fst (run_task L JP JS (WithCallback c StopBrew) s);
      off = fst (run_task L JP JS (Discard (DoSetPower False)) s) in
    \<not> getBrewState L button \<and>
    m_eventsSinks button = told (BrewEvent False) (m_eventsSinks s) \<and>
    \<not> getBrewState L remote \<and>
    m_eventsSinks remote = told (ProgressEvent None) (m_eventsSinks s) \<and>
    \<not> getBrewState L off \<and>
    m_eventsSinks off = told (PowerEvent False) (m_eventsSinks s) \<and>
    run_task L JP JS (Discard DoStopBrew) off = (off, Inr ())"
proof -
  have i: "implements L (stopBrew L) spec_stopBrew s"
    "implements L (setPowerState L False) (spec_setPower False) s"
    by (rule stopBrew_implements [OF assms(1,2)], rule setPowerState_implements [OF assms(1,2)])
  have p: "m_power s" using assms(2,3) by (simp add: heaters_ok_def getBrewState_def)
  from i have r: "snd (stopBrew L s) = Inr ()" "\<not> getBrewState L (fst (stopBrew L s))"
    "snd (setPowerState L False s) = Inr ()" "\<not> getBrewState L (fst (setPowerState L False s))"
    using p by (simp_all add: implements_def spec_stopBrew_def spec_setPower_def machine_of_def
        getBrewState_def)
  define off where "off = fst (run_task L JP JS (Discard (DoSetPower False)) s)"
  have n: "\<not> getBrewState L off" and q: "m_eventsSinks off = told (PowerEvent False) (m_eventsSinks s)"
    using r by (simp_all add: off_def run_task_eqs finish_result doSetPowerState_def
        notifyChanged_told sinks_state_operations)
  have "run_task L JP JS (Discard DoStopBrew) off = (off, Inr ())"
    using n by (simp add: run_task_eqs finish_result doStopBrew_def branch_def skip_def)
  with r n q assms(3) show ?thesis
    by (simp add: Let_def off_def [symmetric] run_task_eqs(2)
        run_task_eqs(1) [where p = DoStopBrew] finish_result doStopBrew_def remoteStopBrew_def
        notifyChanged_told sinks_state_operations deliver_def act_def branch_def)
qed

text \<open>
  C33: who is told of a brew that starts or ends, whoever asked for it. A brew that is started
  when nothing forbids it runs, and only a start by the button is announced to the event
  streams; a remote start is answered and not announced: the streams still show the brew as
  stopped. Every way to end a running brew ends it, and the streams are told so only when the
  button did it: a remote stop sends an empty progress instead, and switching the power off
  sends the power event alone, after which a stop by the button finds no brew and sends
  nothing either.
\<close>

theorem brew_announcements:
  assumes "machine_env L (m_readyHysteresisPeriod s)" and "heaters_ok L s"
  shows "let after = (\<lambda>t. fst (run_task L JP JS t s));
      start = after (Discard DoStartBrew); start_remote = after (WithCallback c StartBrew);
      stop = after (Discard DoStopBrew); stop_remote = after (WithCallback c StopBrew);
      off = after (Discard (DoSetPower False)) in
    (getPowerState s \<and> \<not> getSteamModeState s \<and> \<not> getBrewState L s \<longrightarrow>
       getBrewState L start \<and> m_eventsSinks start = told (BrewEvent True) (m_eventsSinks s) \<and>
       getBrewState L start_remote \<and> results start_remote = results s @ [(c, Inr Done)] \<and>
       m_eventsSinks start_remote = m_eventsSinks s) \<and>
    (getBrewState L s \<longrightarrow>
       \<not> getBrewState L stop \<and> m_eventsSinks stop = told (BrewEvent False) (m_eventsSinks s) \<and>
       \<not> getBrewState L stop_remote \<and>
       m_eventsSinks stop_remote = told (ProgressEvent None) (m_eventsSinks s) \<and>
       \<not> getBrewState L off \<and> m_eventsSinks off = told (PowerEvent False) (m_eventsSinks s) \<and>
       run_task L JP JS (Discard DoStopBrew) off = (off, Inr ()))"
  using brew_start_announced [OF assms, of JP JS c] brew_stop_announced [OF assms, of JP JS c]
  by (auto simp only: Let_def)

text \<open>
  C32: a profile that arrives while a brew runs is refused, and nothing is announced; but
  it has been written to the file, it is the current profile, and its temperature is set.
\<close>

theorem profile_refused_while_brewing:
  assumes "machine_env L (m_readyHysteresisPeriod s)" and "heaters_ok L s" and "getBrewState L s"
    and "snd (saveProfile L JP p (dev s, m_brewProfileManager s)) = Inr ()"
  shows "let t = fst (run_task L JP JS (WithCallback c (SetProfile p)) s);
      saved = fst (on_profiles (saveProfile L JP p) s) in
    results t = results s @
      [(c, Inl (RuntimeError ''Cannot set brew steps sequence brewing''))] \<and>
    m_eventsSinks t = m_eventsSinks s \<and>
    getProfile (m_brewProfileManager t) = p \<and>
    dev t = dev (fst (setBrewTemperature L (temperature p) saved))"
proof -
  define saved where "saved = fst (on_profiles (saveProfile L JP p) s)"
  let ?m = "m_brewProfileManager saved"
  have d: "device_laws L" using assms(1) by (simp add: machine_env_def)
  have r: "snd (on_profiles (saveProfile L JP p) s) = Inr ()"
    using assms(4) by (simp add: on_profiles_def zoom_def)
  have f: "m_power saved = m_power s" "m_steam saved = m_steam s"
      "m_readyHysteresisPeriod saved = m_readyHysteresisPeriod s" "results saved = results s"
      "m_eventsSinks saved = m_eventsSinks s"
    by (simp_all add: saved_def on_profiles_def zoom_def split_def)
  have c: "m_currentProfile ?m = p"
    using profile_store.save_current [of L JP p "(dev s, m_brewProfileManager s)"]
    by (simp add: saved_def on_profiles_def zoom_def split_def)
  have a: "deviceActive L x saved = deviceActive L x s" if "x \<in> actuators" for x
    using activity_fs_write [OF d that]
    by (auto simp: saved_def on_profiles_def zoom_def saveProfile_def Let_def deviceActive_def
        split_def split: sum.split ofstream_result.split)
  have h: "machine_env L (m_readyHysteresisPeriod saved)" "heaters_ok L saved"
      "getBrewState L saved"
    using assms(1-3) by (simp_all add: f a heaters_ok_def profilerActive_def getBrewState_def)
  let ?u = "fst (setBrewTemperature L (temperature p) saved)"
  have "profilerActive L ?u"
    using setBrewTemperature_implements [OF h(1,2), of "temperature p"] h(3)
    by (simp add: implements_def skip_def machine_of_def getBrewState_def)
  then have e: "applyBrewProfile L ?m saved =
      (?u, Inl (RuntimeError ''Cannot set brew steps sequence brewing''))"
    using applyBrewProfile_result [OF h(1,2), of ?m] by (simp add: c profile_applied_def)
  have k: "results ?u = results s" "m_eventsSinks ?u = m_eventsSinks s"
    by (simp_all add: sinks_state_operations results_state_operations f)
  have "m_brewProfileManager ?u = ?m"
  proof (rule frameD)
    show "frame m_brewProfileManager (setBrewTemperature L (temperature p))"
      unfolding setBrewTemperature_def indicateState_eq
      by (intro frames frame_on_dev frame_status_operations) simp_all
  qed
  then show ?thesis using r e k c
    by (simp add: Let_def run_task_eqs finish_result doSetBrewProfile_def saved_def [symmetric]
        deliver_def act_def getProfile_def)
qed


text \<open>The sample machine switched on, idle and brewing.\<close>

definition sample_on :: "bool \<Rightarrow> sim dispatcher" where
  "sample_on b = sample_dispatcher\<lparr>m_power := True, m_eventsSinks := [(7, [])],
     dev := sim_world\<lparr>sim_active := (\<lambda>l. l = BREW_TEMPERATURE_CONTROLLER_LABEL \<or>
       l = BREW_PROFILER_LABEL \<and> b)\<rparr>\<rparr>"

lemma sample_on_ok:
  "machine_env sim_lib (m_readyHysteresisPeriod (sample_on b))" "heaters_ok sim_lib (sample_on b)"
  "getPowerState (sample_on b)" "\<not> getSteamModeState (sample_on b)"
  "getBrewState sim_lib (sample_on b) = b" "results (sample_on b) = []"
  "m_eventsSinks (sample_on b) = [(7, [])]"
  "m_profilePath (m_brewProfileManager (sample_on b)) = ''profile.json''"
  by (simp_all add: machine_env_def sample_on_def sample_dispatcher_def sample_manager_def
      sample_rates state_manager.defs heaters_ok_def deviceActive_def profilerActive_def
      getPowerState_def getSteamModeState_def getBrewState_def sample_profiles_def
      BrewProfileManager_create_def loadDefaultProfile_def act_def)

theorem brew_announcements_witness:
  "m_eventsSinks (fst (run_task sim_lib (one_json empty_profile)
      (one_json (makeDefaultSettings 0)) (WithCallback 3 StartBrew) (sample_on False))) = [(7, [])] \<and>
   m_eventsSinks (fst (run_task sim_lib (one_json empty_profile)
      (one_json (makeDefaultSettings 0)) (WithCallback 3 StopBrew) (sample_on True))) =
    [(7, [ProgressEvent None])]"
  using brew_announcements [of sim_lib "sample_on False" "one_json empty_profile"
      "one_json (makeDefaultSettings 0)" 3]
    brew_announcements [of sim_lib "sample_on True" "one_json empty_profile"
      "one_json (makeDefaultSettings 0)" 3]
  by (simp add: sample_on_ok Let_def told_def)

theorem profile_refused_while_brewing_witness:
  "getProfile (m_brewProfileManager (fst (run_task sim_lib (one_json empty_profile)
      (one_json (makeDefaultSettings 0)) (WithCallback 3 (SetProfile empty_profile))
      (sample_on True)))) = empty_profile"
proof -
  have "snd (saveProfile sim_lib (one_json empty_profile) empty_profile
      (dev (sample_on True), m_brewProfileManager (sample_on True))) = Inr ()"
    by (simp add: saveProfile_def one_json_def sim_lib_def Let_def)
  then show ?thesis
    using profile_refused_while_brewing [of sim_lib "sample_on True" "one_json empty_profile"
        empty_profile "one_json (makeDefaultSettings 0)" 3]
    by (simp add: sample_on_ok Let_def)
qed

end
