(* ===== verification/Buttons.thy ===== *)
theory Buttons
  imports DispatcherProps
begin

text \<open>
  \<^verbatim>\<open>buttons/buttons_callback_registrator\<close>: the three buttons and what they ask of the event
  sink, an interface that the dispatcher implements. The closures that the inputs hold are
  data, the calls they make on the sink are a list.
\<close>

section \<open>The sink interface and the closures\<close>

datatype sink_call =
    CallTogglePower
  | CallSetPower bool
  | CallToggleBrew
  | CallStartBrew
  | CallStopBrew
  | CallToggleSteam
  | CallSetSteam bool

datatype button_closure =
    PowerBistable | PowerMomentary
  | BrewBistable | BrewMomentary
  | SteamBistable | SteamMomentary

fun power_calls :: "bool \<Rightarrow> bool \<Rightarrow> sink_call list" where
  "power_calls True state = [CallSetPower state]"
| "power_calls False state = (if state then [CallTogglePower] else [])"

fun brew_calls :: "bool \<Rightarrow> bool \<Rightarrow> sink_call list" where
  "brew_calls True state = (if state then [CallStartBrew] else [CallStopBrew])"
| "brew_calls False state = (if state then [CallToggleBrew] else [])"

fun steam_calls :: "bool \<Rightarrow> bool \<Rightarrow> sink_call list" where
  "steam_calls True state = [CallSetSteam state]"
| "steam_calls False state = (if state then [CallToggleSteam] else [])"

fun button_calls :: "button_closure \<Rightarrow> bool \<Rightarrow> sink_call list" where
  "button_calls PowerBistable = power_calls True"
| "button_calls PowerMomentary = power_calls False"
| "button_calls BrewBistable = brew_calls True"
| "button_calls BrewMomentary = brew_calls False"
| "button_calls SteamBistable = steam_calls True"
| "button_calls SteamMomentary = steam_calls False"

section \<open>Registration\<close>

record buttons =
  m_powerButtonCallback :: nat
  m_brewButtonCallback :: nat
  m_steamButtonCallback :: nat
  powerClosure :: button_closure
  brewClosure :: button_closure
  steamClosure :: button_closure

definition registerPowerButtonCallback ::
    "'d lib \<Rightarrow> bool \<Rightarrow> ('d, nat \<times> button_closure) prog" where
  "registerPowerButtonCallback L bistable = bindp (in_register L POWER_BUTTON_LABEL)
     (\<lambda>descr. return (descr, if bistable then PowerBistable else PowerMomentary))"

definition registerBrewButtonCallback ::
    "'d lib \<Rightarrow> bool \<Rightarrow> ('d, nat \<times> button_closure) prog" where
  "registerBrewButtonCallback L bistable = bindp (in_register L BREW_BUTTON_LABEL)
     (\<lambda>descr. return (descr, if bistable then BrewBistable else BrewMomentary))"

definition registerSteamButtonCallback ::
    "'d lib \<Rightarrow> bool \<Rightarrow> ('d, nat \<times> button_closure) prog" where
  "registerSteamButtonCallback L bistable = bindp (in_register L STEAM_BUTTON_LABEL)
     (\<lambda>descr. return (descr, if bistable then SteamBistable else SteamMomentary))"

text \<open>The three arguments are what the configuration says of the buttons, or its error.\<close>

definition ButtonsCallbackRegistrator_create ::
    "'d lib \<Rightarrow> exn + bool \<Rightarrow> exn + bool \<Rightarrow> exn + bool \<Rightarrow> ('d, buttons) prog" where
  "ButtonsCallbackRegistrator_create L powerBistable brewBistable steamBistable =
     bindp (block [lookup L POWER_BUTTON_LABEL, lookup L BREW_BUTTON_LABEL,
                   lookup L STEAM_BUTTON_LABEL]) (\<lambda>_.
     bindp (bindp (lift_result powerBistable) (registerPowerButtonCallback L)) (\<lambda>(p, pc).
     bindp (bindp (lift_result brewBistable) (registerBrewButtonCallback L)) (\<lambda>(b, bc).
     bindp (bindp (lift_result steamBistable) (registerSteamButtonCallback L)) (\<lambda>(t, tc).
     return \<lparr>m_powerButtonCallback = p, m_brewButtonCallback = b, m_steamButtonCallback = t,
             powerClosure = pc, brewClosure = bc, steamClosure = tc\<rparr>))))"

definition ButtonsCallbackRegistrator_destroy :: "'d lib \<Rightarrow> buttons \<Rightarrow> 'd stmt" where
  "ButtonsCallbackRegistrator_destroy L r = block
     [in_unregister L POWER_BUTTON_LABEL (m_powerButtonCallback r),
      in_unregister L BREW_BUTTON_LABEL (m_brewButtonCallback r),
      in_unregister L STEAM_BUTTON_LABEL (m_steamButtonCallback r)]"

section \<open>The contract of a sink\<close>

text \<open>
  What the buttons rely on: every call returns, and leaves exactly one request, its own,
  behind all earlier ones.
\<close>

locale button_sink =
  fixes call :: "sink_call \<Rightarrow> 's stmt"
    and requested :: "'s \<Rightarrow> sink_call list"
  assumes call_returns: "snd (call c s) = Inr ()"
    and call_requests: "requested (fst (call c s)) = requested s @ [c]"
begin

definition button_event :: "button_closure \<times> bool \<Rightarrow> 's stmt" where
  "button_event e = block (map call (button_calls (fst e) (snd e)))"

definition button_events :: "(button_closure \<times> bool) list \<Rightarrow> 's stmt" where
  "button_events es = block (map button_event es)"

lemma calls_requested:
  "snd (block (map call cs) s) = Inr () \<and> requested (fst (block (map call cs) s)) = requested s @ cs"
proof (induction cs arbitrary: s)
  case Nil
  show ?case by simp
next
  case (Cons c cs)
  from Cons [of "fst (call c s)"] show ?case by (simp add: call_returns call_requests)
qed

lemma events_requested:
  "snd (button_events es s) = Inr () \<and>
   requested (fst (button_events es s)) =
     requested s @ concat (map (\<lambda>(c, state). button_calls c state) es)"
proof (induction es arbitrary: s)
  case Nil
  show ?case by (simp add: button_events_def)
next
  case (Cons e es)
  have e: "snd (button_event e s) = Inr ()"
    "requested (fst (button_event e s)) = requested s @ button_calls (fst e) (snd e)"
    using calls_requested by (simp_all add: button_event_def)
  from Cons [of "fst (button_event e s)"] e show ?case
    by (simp add: button_events_def split_def)
qed

end

section \<open>The dispatcher as a sink\<close>

fun dispatcher_call :: "sink_call \<Rightarrow> ('d, 'z) dispatcher_stmt" where
  "dispatcher_call CallTogglePower = togglePowerState"
| "dispatcher_call (CallSetPower b) = button_setPowerState b"
| "dispatcher_call CallToggleBrew = toggleBrew"
| "dispatcher_call CallStartBrew = button_startBrew"
| "dispatcher_call CallStopBrew = button_stopBrew"
| "dispatcher_call CallToggleSteam = toggleSteamModeState"
| "dispatcher_call (CallSetSteam b) = button_setSteamModeState b"

fun call_of :: "task \<Rightarrow> sink_call option" where
  "call_of (Discard TogglePower) = Some CallTogglePower"
| "call_of (Discard (DoSetPower b)) = Some (CallSetPower b)"
| "call_of (Discard ToggleBrew) = Some CallToggleBrew"
| "call_of (Discard DoStartBrew) = Some CallStartBrew"
| "call_of (Discard DoStopBrew) = Some CallStopBrew"
| "call_of (Discard ToggleSteam) = Some CallToggleSteam"
| "call_of (Discard (DoSetSteam b)) = Some (CallSetSteam b)"
| "call_of _ = None"

definition requested_calls :: "('d, 'z) dispatcher_scheme \<Rightarrow> sink_call list" where
  "requested_calls s = List.map_filter call_of (outbox s)"

lemmas button_operations =
  togglePowerState_def button_setPowerState_def toggleBrew_def button_startBrew_def
  button_stopBrew_def toggleSteamModeState_def button_setSteamModeState_def
  executeDiscardResult_def push_def act_def

interpretation dispatcher_sink: button_sink dispatcher_call requested_calls
proof
  fix c and s :: "('a, 'b) dispatcher_scheme"
  show "snd (dispatcher_call c s) = Inr ()"
    by (cases c) (simp_all add: button_operations)
  show "requested_calls (fst (dispatcher_call c s)) = requested_calls s @ [c]"
    by (cases c) (simp_all add: button_operations requested_calls_def map_filter_append
        List.map_filter_simps)
qed

fun task_of :: "sink_call \<Rightarrow> task" where
  "task_of CallTogglePower = Discard TogglePower"
| "task_of (CallSetPower b) = Discard (DoSetPower b)"
| "task_of CallToggleBrew = Discard ToggleBrew"
| "task_of CallStartBrew = Discard DoStartBrew"
| "task_of CallStopBrew = Discard DoStopBrew"
| "task_of CallToggleSteam = Discard ToggleSteam"
| "task_of (CallSetSteam b) = Discard (DoSetSteam b)"

lemma dispatcher_call_push: "dispatcher_call c = push (task_of c)"
  by (cases c) (simp_all add: button_operations push_def act_def fun_eq_iff)

section \<open>From a button to the machine\<close>

text \<open>What a call asks of the abstract machine; a refused operation changes nothing.\<close>

fun machine_call :: "sink_call \<Rightarrow> machine \<Rightarrow> machine" where
  "machine_call CallTogglePower m = fst (spec_setPower (\<not> powered m) m)"
| "machine_call (CallSetPower b) m = fst (spec_setPower b m)"
| "machine_call CallToggleBrew m =
     (if brewing m then fst (spec_stopBrew m) else fst (spec_startBrew m))"
| "machine_call CallStartBrew m = fst (spec_startBrew m)"
| "machine_call CallStopBrew m = fst (spec_stopBrew m)"
| "machine_call CallToggleSteam m = fst (spec_setSteam (\<not> steaming m) m)"
| "machine_call (CallSetSteam b) m = fst (spec_setSteam b m)"

definition machine_ok :: "'d lib \<Rightarrow> ('d, 'o, 'z) state_manager_scheme \<Rightarrow> bool" where
  "machine_ok L s \<longleftrightarrow> machine_env L (m_readyHysteresisPeriod s) \<and> heaters_ok L s"

lemma machine_fields_sinks [simp]:
  "machine_of L (s\<lparr>m_eventsSinks := x\<rparr>) = machine_of L s"
  "machine_of L (s\<lparr>outbox := q\<rparr>) = machine_of L s"
  "machine_ok L (s\<lparr>m_eventsSinks := x\<rparr>) = machine_ok L s"
  "machine_ok L (s\<lparr>outbox := q\<rparr>) = machine_ok L s"
  by (simp_all add: machine_of_def machine_ok_def heaters_ok_def profilerActive_def
      deviceActive_def)

lemma machine_of_simps [simp]:
  "powered (machine_of L s) = getPowerState s"
  "steaming (machine_of L s) = getSteamModeState s"
  "brewing (machine_of L s) = getBrewState L s"
  by (simp_all add: machine_of_def getPowerState_def getSteamModeState_def getBrewState_def)

text \<open>
  A procedure that has an effect on the abstract machine, keeps the heaters in agreement
  with it, and meets no undefined behaviour.
\<close>

definition refines ::
    "'d lib \<Rightarrow> ('d, 'z) dispatcher_stmt \<Rightarrow> (machine \<Rightarrow> machine) \<Rightarrow>
     ('d, 'z) dispatcher_scheme \<Rightarrow> bool" where
  "refines L m f s \<longleftrightarrow>
     machine_of L (fst (m s)) = f (machine_of L s) \<and> machine_ok L (fst (m s)) \<and>
     snd (m s) \<noteq> Inl UndefinedBehaviour"

lemma refines_implements:
  "machine_ok L s \<Longrightarrow> implements L m spec s \<Longrightarrow> (\<And>x. snd (spec x) \<noteq> Inl UndefinedBehaviour) \<Longrightarrow>
   refines L m (\<lambda>x. fst (spec x)) s"
  by (simp add: implements_def refines_def machine_ok_def)

lemma refines_notify:
  "refines L m f s \<Longrightarrow> refines L (block [m, notifyChanged e]) f s"
  by (auto simp: refines_def notifyChanged_told split: sum.split)

lemma spec_defined:
  "snd (spec_setPower b x) \<noteq> Inl UndefinedBehaviour"
  "snd (spec_setSteam b x) \<noteq> Inl UndefinedBehaviour"
  "snd (spec_startBrew x) \<noteq> Inl UndefinedBehaviour"
  "snd (spec_stopBrew x) \<noteq> Inl UndefinedBehaviour"
  by (simp_all add: spec_setPower_def spec_setSteam_def spec_startBrew_def spec_stopBrew_def)

lemma refines_operations:
  assumes "machine_ok L s"
  shows "refines L (doSetPowerState L b) (\<lambda>x. fst (spec_setPower b x)) s"
    "refines L (doSetSteamModeState L b) (\<lambda>x. fst (spec_setSteam b x)) s"
    "refines L (doStartBrew L) (\<lambda>x. fst (spec_startBrew x)) s"
    "refines L (doStopBrew L) (\<lambda>x. fst (spec_stopBrew x)) s"
proof -
  have e: "machine_env L (m_readyHysteresisPeriod s)" "heaters_ok L s"
    using assms by (simp_all add: machine_ok_def)
  note r = refines_implements [OF assms setPowerState_implements [OF e] spec_defined(1)]
    refines_implements [OF assms setSteamModeState_implements [OF e] spec_defined(2)]
    refines_implements [OF assms startBrew_implements [OF e] spec_defined(3)]
    refines_implements [OF assms stopBrew_implements [OF e] spec_defined(4)]
  show "refines L (doSetPowerState L b) (\<lambda>x. fst (spec_setPower b x)) s"
    "refines L (doSetSteamModeState L b) (\<lambda>x. fst (spec_setSteam b x)) s"
    "refines L (doStartBrew L) (\<lambda>x. fst (spec_startBrew x)) s"
    unfolding doSetPowerState_def doSetSteamModeState_def doStartBrew_def
    by (rule refines_notify, rule r)+
  show "refines L (doStopBrew L) (\<lambda>x. fst (spec_stopBrew x)) s"
  proof (cases "getBrewState L s")
    case True
    then show ?thesis
      using refines_notify [OF r(4), of "BrewEvent False"]
      by (simp add: doStopBrew_def branch_def refines_def)
  next
    case False
    then show ?thesis using assms
      by (simp add: doStopBrew_def branch_def skip_def refines_def spec_stopBrew_def
          machine_of_def getBrewState_def)
  qed
qed

lemma refines_call:
  assumes "machine_ok L s"
  shows "machine_of L (fst (run_task L JP JS (task_of c) s)) = machine_call c (machine_of L s)"
    and "machine_ok L (fst (run_task L JP JS (task_of c) s))"
    and "snd (run_task L JP JS (task_of c) s) = Inr ()"
proof -
  note r = refines_operations [OF assms, unfolded refines_def]
  have u: "map_sum id (\<lambda>_. Done) x = Inl UndefinedBehaviour \<longleftrightarrow> x = Inl UndefinedBehaviour"
    for x :: "exn + unit" by (cases x) simp_all
  show "machine_of L (fst (run_task L JP JS (task_of c) s)) = machine_call c (machine_of L s)"
    and "machine_ok L (fst (run_task L JP JS (task_of c) s))"
    and "snd (run_task L JP JS (task_of c) s) = Inr ()"
    by (cases c, use r u in \<open>simp_all add: run_task_eqs finish_result branch_def\<close>)+
qed

lemma machine_run:
  "machine_ok L s \<Longrightarrow> m_callback s = heating_callback \<Longrightarrow> outbox s = map task_of cs @ us \<Longrightarrow>
   machine_of L (fst (worker_run L JP JS (length cs) s)) = fold machine_call cs (machine_of L s) \<and>
   machine_ok L (fst (worker_run L JP JS (length cs) s)) \<and>
   snd (worker_run L JP JS (length cs) s) = Inr ()"
proof (induction cs arbitrary: s us)
  case Nil
  then show ?case by (simp add: worker_run_def)
next
  case (Cons c cs)
  let ?s = "s\<lparr>outbox := map task_of cs @ us\<rparr>"
  let ?t = "fst (run_task L JP JS (task_of c) ?s)"
  have ok: "machine_ok L ?s" using Cons.prems(1) by simp
  note r = refines_call [OF ok, of JP JS c]
  have w: "worker_step L JP JS s = run_task L JP JS (task_of c) ?s"
    using Cons.prems by (simp add: worker_step_def)
  have e: "worker_run L JP JS (length (c # cs)) s = worker_run L JP JS (length cs) ?t"
    using r(3) w by (simp add: worker_run_def)
  obtain xs where "outbox ?t = map task_of cs @ us @ map note_of xs"
    using run_task_results(3) [OF r(3)] Cons.prems(2) by auto
  moreover have "m_callback ?t = heating_callback"
    using run_task_results(2) [OF r(3)] Cons.prems(2) by simp
  ultimately show ?case using Cons.IH [of ?t] r by (simp only: e) simp
qed



end
