(* ===== verification/Progress.thy ===== *)
theory Progress
  imports Prelude
begin

text \<open>
  What the proofs that something comes to its end share: runs in which the steps of one
  actor are counted while others may act in between, and a locale for an actor whose steps
  lower a rank that the others never raise. The streams of the service and the server that
  waits for them are instances.
\<close>

section \<open>Runs with counted steps\<close>

inductive counted_run :: "('s \<Rightarrow> 's \<Rightarrow> bool) \<Rightarrow> ('s \<Rightarrow> 's \<Rightarrow> bool) \<Rightarrow> nat \<Rightarrow> 's \<Rightarrow> 's \<Rightarrow> bool"
  for own other where
  start: "counted_run own other 0 s s"
| own: "counted_run own other n s t \<Longrightarrow> own t u \<Longrightarrow> counted_run own other (Suc n) s u"
| other: "counted_run own other n s t \<Longrightarrow> other t u \<Longrightarrow> counted_run own other n s u"

lemma run_steps: "counted_run own other n s t \<Longrightarrow> (\<lambda>s t. own s t \<or> other s t)\<^sup>*\<^sup>* s t"
  by (induction rule: counted_run.induct) (auto intro: rtranclp.rtrancl_into_rtrancl)

lemma run_mono:
  "counted_run own other n s t \<Longrightarrow> (\<And>s t. own s t \<Longrightarrow> step s t) \<Longrightarrow> (\<And>s t. other s t \<Longrightarrow> step s t) \<Longrightarrow> step\<^sup>*\<^sup>* s t"
  by (induction rule: counted_run.induct) (auto intro: rtranclp.rtrancl_into_rtrancl)

section \<open>Actors side by side\<close>

inductive some_step :: "('s \<Rightarrow> 's \<Rightarrow> bool) \<Rightarrow> 's list \<Rightarrow> 's list \<Rightarrow> bool" for step where
  "i < length xs \<Longrightarrow> step (xs ! i) t \<Longrightarrow> some_step step xs (xs[i := t])"

inductive either_step ::
    "('s \<Rightarrow> 's \<Rightarrow> bool) \<Rightarrow> ('t \<Rightarrow> 't \<Rightarrow> bool) \<Rightarrow> 's \<times> 't \<Rightarrow> 's \<times> 't \<Rightarrow> bool" for step step' where
  left: "step x x' \<Longrightarrow> either_step step step' (x, y) (x', y)"
| right: "step' y y' \<Longrightarrow> either_step step step' (x, y) (x, y')"

lemma some_step_all:
  assumes "some_step step xs ys" and "\<forall>x \<in> set xs. P x" and "\<And>x y. P x \<Longrightarrow> step x y \<Longrightarrow> P y"
  shows "\<forall>y \<in> set ys. P y"
  using assms(1)
proof (cases rule: some_step.cases)
  case (1 i t)
  with assms(2) have "P (xs ! i)" by simp
  then have "P t" using 1(3) by (rule assms(3))
  with 1(1) assms(2) show ?thesis using set_update_subset_insert [of xs i t] by auto
qed

lemma sum_list_rank_update:
  "i < length xs \<Longrightarrow>
   sum_list (map f (xs[i := t])) + f (xs ! i) = sum_list (map f xs) + (f t :: nat)"
  by (induction xs arbitrary: i) (auto split: nat.split simp: less_Suc_eq_0_disj)

section \<open>Actors that come to their end\<close>

text \<open>
  \<open>inv\<close> is what holds while the actor is on its way, \<open>waits\<close> what it may have to wait for:
  where it does not wait and has not ended, it has a step.
\<close>

locale stoppable =
  fixes own :: "'s \<Rightarrow> 's \<Rightarrow> bool"
    and other :: "'s \<Rightarrow> 's \<Rightarrow> bool"
    and inv :: "'s \<Rightarrow> bool"
    and rank :: "'s \<Rightarrow> nat"
    and waits :: "'s \<Rightarrow> bool"
    and ended :: "'s \<Rightarrow> bool"
  assumes own_inv: "inv s \<Longrightarrow> own s t \<Longrightarrow> inv t"
    and own_rank: "inv s \<Longrightarrow> own s t \<Longrightarrow> rank t < rank s"
    and other_inv: "inv s \<Longrightarrow> other s t \<Longrightarrow> inv t"
    and other_rank: "inv s \<Longrightarrow> other s t \<Longrightarrow> rank t \<le> rank s"
    and not_stuck: "inv s \<Longrightarrow> \<not> waits s \<Longrightarrow> \<not> ended s \<Longrightarrow> \<exists>t. own s t"
begin

lemma run_bound: "counted_run own other n s t \<Longrightarrow> inv s \<Longrightarrow> inv t \<and> n + rank t \<le> rank s"
proof (induction rule: counted_run.induct)
  case (own n s t u)
  with own_inv own_rank [of t u] show ?case by fastforce
next
  case (other n s t u)
  with other_inv other_rank [of t u] show ?case by fastforce
qed simp

lemma run_ends:
  assumes "counted_run own other n s t" and "inv s"
  shows "n \<le> rank s" and "\<nexists>u. own t u \<Longrightarrow> waits t \<or> ended t"
  using run_bound [OF assms] not_stuck [of t] by auto

text \<open>Any number of such actors side by side are one.\<close>

lemma list_stoppable:
  "stoppable (some_step own) (some_step other) (\<lambda>xs. \<forall>x \<in> set xs. inv x)
     (\<lambda>xs. sum_list (map rank xs)) (\<lambda>xs. \<exists>x \<in> set xs. waits x) (\<lambda>xs. \<forall>x \<in> set xs. ended x)"
proof (unfold_locales, goal_cases)
  case (1 xs ys)
  from some_step_all [OF 1(2,1)] own_inv show ?case by blast
next
  case (2 xs ys)
  from 2(2) obtain i t where i: "i < length xs" "own (xs ! i) t" "ys = xs[i := t]"
    by (cases rule: some_step.cases)
  with 2(1) have "rank t < rank (xs ! i)" by (simp add: own_rank)
  with sum_list_rank_update [OF i(1), of rank t] i(3) show ?case by simp
next
  case (3 xs ys)
  from some_step_all [OF 3(2,1)] other_inv show ?case by blast
next
  case (4 xs ys)
  from 4(2) obtain i t where i: "i < length xs" "other (xs ! i) t" "ys = xs[i := t]"
    by (cases rule: some_step.cases)
  with 4(1) have "rank t \<le> rank (xs ! i)" by (simp add: other_rank)
  with sum_list_rank_update [OF i(1), of rank t] i(3) show ?case by simp
next
  case (5 xs)
  then obtain x where x: "x \<in> set xs" "\<not> ended x" "\<not> waits x" "inv x" by auto
  with not_stuck obtain t where "own x t" by blast
  moreover from x(1) obtain i where "i < length xs" "x = xs ! i" by (auto simp: in_set_conv_nth)
  ultimately show ?case by (auto intro: some_step.intros)
qed

end

text \<open>So are two of different kinds.\<close>

lemma pair_stoppable:
  assumes "stoppable own other ok rank waits ended"
    and "stoppable own' other' ok' rank' waits' ended'"
  shows "stoppable (either_step own own') (either_step other other') (\<lambda>(x, y). ok x \<and> ok' y)
    (\<lambda>(x, y). rank x + rank' y) (\<lambda>(x, y). waits x \<or> waits' y) (\<lambda>(x, y). ended x \<and> ended' y)"
proof (rule stoppable.intro, goal_cases)
  case (1 s t)
  from 1(2,1) show ?case
    by (cases rule: either_step.cases)
      (auto dest: stoppable.own_inv [OF assms(1)] stoppable.own_inv [OF assms(2)])
next
  case (2 s t)
  from 2(2,1) show ?case
    by (cases rule: either_step.cases)
      (auto dest: stoppable.own_rank [OF assms(1)] stoppable.own_rank [OF assms(2)])
next
  case (3 s t)
  from 3(2,1) show ?case
    by (cases rule: either_step.cases)
      (auto dest: stoppable.other_inv [OF assms(1)] stoppable.other_inv [OF assms(2)])
next
  case (4 s t)
  from 4(2,1) show ?case
    by (cases rule: either_step.cases)
      (auto dest: stoppable.other_rank [OF assms(1)] stoppable.other_rank [OF assms(2)])
next
  case (5 s)
  then obtain x y where s: "s = (x, y)" "ok x" "ok' y" "\<not> waits x" "\<not> waits' y"
    "\<not> ended x \<or> \<not> ended' y" by (cases s) auto
  then show ?case
    using stoppable.not_stuck [OF assms(1), of x] stoppable.not_stuck [OF assms(2), of y]
    by (auto intro: either_step.intros)
qed

end
