(* ===== verification/MetricsReactor.thy ===== *)
theory MetricsReactor
  imports Interfaces BrewTimer Progress
begin

text \<open>
  \<^verbatim>\<open>service/metrics_stream_reactor\<close>: the periodic measurements of one metrics stream. The
  sensors and the terms of a controller are operations of libopenpresso and parameters
  here; \<open>'f\<close> is the type of the controller terms.
\<close>

section \<open>Values\<close>

datatype PidSource =
    PidSource_BrewTemperatureController
  | PidSource_SteamPreheatTemperatureController
  | PidSource_SteamActiveTemperatureController
  | PidSource_Other int

definition pidSourceToControllerLabel :: "PidSource \<Rightarrow> label option" where
  "pidSourceToControllerLabel pidSource =
     (case pidSource of
        PidSource_BrewTemperatureController \<Rightarrow> Some BREW_TEMPERATURE_CONTROLLER_LABEL
      | PidSource_SteamPreheatTemperatureController \<Rightarrow>
          Some STEAM_PREHEAT_TEMPERATURE_CONTROLLER_LABEL
      | PidSource_SteamActiveTemperatureController \<Rightarrow>
          Some STEAM_ACTIVE_TEMPERATURE_CONTROLLER_LABEL
      | PidSource_Other _ \<Rightarrow> None)"

record 'f pid_metrics =
  p_term :: 'f
  i_term :: 'f
  d_term :: 'f
  f_term :: 'f
  pid_sum :: 'f

record duration =
  duration_seconds :: int
  duration_nanos :: int

record 'f metrics =
  metric_pressure :: int
  metric_weight :: int
  metric_flowrate :: int
  metric_temperature :: int
  metric_brewtimer :: duration
  metric_pid :: "'f pid_metrics option"

record ('d, 'f) sensors =
  sensor_found :: "label \<Rightarrow> ('d, unit) prog"
  get_pressure :: "('d, int) prog"
  get_weight :: "('d, int) prog"
  get_flowrate :: "('d, int) prog"
  get_temperature :: "('d, int) prog"
  controller_found :: "label \<Rightarrow> ('d, bool) prog"
  pTerm :: "label \<Rightarrow> ('d, 'f) prog"
  iTerm :: "label \<Rightarrow> ('d, 'f) prog"
  dTerm :: "label \<Rightarrow> ('d, 'f) prog"
  fTerm :: "label \<Rightarrow> ('d, 'f) prog"
  pidSum :: "label \<Rightarrow> ('d, 'f) prog"
  steady_clock :: "'d \<Rightarrow> int"

text \<open>
  A duration in nanoseconds as a protobuf duration. \<^verbatim>\<open>duration_cast\<close> truncates towards zero,
  and the rest is below a second, so the conversion to \<^verbatim>\<open>int32_t\<close> never wraps.
\<close>

definition toProtoDuration :: "int \<Rightarrow> duration" where
  "toProtoDuration ns =
     (let s = cdiv ns 1000000000; nanos = ns - s * 1000000000
      in \<lparr>duration_seconds = s, duration_nanos = sint (word_of_int nanos :: 32 word)\<rparr>)"

section \<open>The reactor\<close>

datatype write_status = Idle | InProgress | Failed

datatype metrics_point = Sampling | Writing | Pausing | Finished | Terminated

record ('d, 'f) metrics_reactor =
  world :: 'd
  m_brewTimer :: brew_timer
  m_pidControllerState :: "label option"
  m_writeStatus :: write_status
  m_cancel :: bool
  point :: metrics_point
  started :: "'f metrics list"
  deleted :: bool

text \<open>
  The controller whose terms are reported: the label must name a controller, and the
  controller must offer its state (\<^verbatim>\<open>dynamic_pointer_cast\<close>).
\<close>

definition getPidControllerState ::
    "('d, 'f) sensors \<Rightarrow> label option \<Rightarrow> ('d, label option) prog" where
  "getPidControllerState S lab =
     (case lab of
        None \<Rightarrow> return None
      | Some l \<Rightarrow> bindp (controller_found S l) (\<lambda>is_pid.
          if is_pid then return (Some l)
          else throw (RuntimeError (''Cannot obtain pid controller statet for label: '' @ l))))"

definition MetricsStreamReactor_create ::
    "('d, 'f) sensors \<Rightarrow> brew_timer \<Rightarrow> PidSource \<Rightarrow> ('d, ('d, 'f) metrics_reactor) prog" where
  "MetricsStreamReactor_create S timer pidSource =
     bindp (block [sensor_found S PRESSURE_SENSOR_LABEL, sensor_found S TEMPERATURE_SENSOR_LABEL,
                   sensor_found S WEIGHT_SENSOR_LABEL]) (\<lambda>_.
     bindp (getPidControllerState S (pidSourceToControllerLabel pidSource)) (\<lambda>pid. \<lambda>d.
       (d, Inr \<lparr>world = d, m_brewTimer = timer, m_pidControllerState = pid,
                m_writeStatus = Idle, m_cancel = False, point = Sampling, started = [], deleted = False\<rparr>)))"

definition pid_terms :: "('d, 'f) sensors \<Rightarrow> label \<Rightarrow> ('d, 'f pid_metrics) prog" where
  "pid_terms S l =
     bindp (pTerm S l) (\<lambda>p. bindp (iTerm S l) (\<lambda>i. bindp (dTerm S l) (\<lambda>d.
     bindp (fTerm S l) (\<lambda>f. bindp (pidSum S l) (\<lambda>sum.
       return \<lparr>p_term = p, i_term = i, d_term = d, f_term = f, pid_sum = sum\<rparr>)))))"

text \<open>One message: every field is measured, in the order of the code.\<close>

definition sample ::
    "('d, 'f) sensors \<Rightarrow> brew_timer \<Rightarrow> label option \<Rightarrow> ('d, 'f metrics) prog" where
  "sample S timer pid =
     bindp (get_pressure S) (\<lambda>pressure.
     bindp (get_weight S) (\<lambda>weight.
     bindp (get_flowrate S) (\<lambda>flowrate.
     bindp (get_temperature S) (\<lambda>temperature.
     bindp (get (steady_clock S)) (\<lambda>now.
     bindp (case pid of None \<Rightarrow> return None
            | Some l \<Rightarrow> bindp (pid_terms S l) (\<lambda>t. return (Some t))) (\<lambda>terms.
       return \<lparr>metric_pressure = pressure, metric_weight = weight, metric_flowrate = flowrate,
               metric_temperature = temperature,
               metric_brewtimer =
                 toProtoDuration (int (timer_elapsedTime now timer) * 1000000),
               metric_pid = terms\<rparr>))))))"

text \<open>
  The worker thread. An exception of a sensor leaves the thread and terminates the program.
  The pause ends with the cancellation or with the timeout.
\<close>

definition sample_and_write ::
    "('d, 'f) sensors \<Rightarrow> ('d, 'f) metrics_reactor \<Rightarrow> ('d, 'f) metrics_reactor" where
  "sample_and_write S s =
     (case sample S (m_brewTimer s) (m_pidControllerState s) (world s) of
        (d, Inl e) \<Rightarrow> s\<lparr>world := d, point := Terminated\<rparr>
      | (d, Inr m) \<Rightarrow> s\<lparr>world := d, started := started s @ [m], m_writeStatus := InProgress,
                       point := Writing\<rparr>)"

definition OnWriteDone :: "bool \<Rightarrow> ('d, 'f) metrics_reactor \<Rightarrow> ('d, 'f) metrics_reactor" where
  "OnWriteDone ok s = s\<lparr>m_writeStatus := (if ok then Idle else Failed)\<rparr>"

text \<open>
  \<^verbatim>\<open>OnCancel\<close> satisfies the promise. A second call makes \<^verbatim>\<open>set_value\<close> throw a
  \<^verbatim>\<open>std::future_error\<close>, which the handler for \<^verbatim>\<open>std::future_errc\<close>, an enumeration that is
  never thrown, does not catch.
\<close>

definition OnCancel :: "('d, 'f) metrics_reactor stmt" where
  "OnCancel s = (if m_cancel s then (s, Inl FutureError) else (s\<lparr>m_cancel := True\<rparr>, Inr ()))"

text \<open>After \<^verbatim>\<open>Finish\<close>: the thread is joined and the object deletes itself.\<close>

definition OnDone :: "('d, 'f) metrics_reactor \<Rightarrow> ('d, 'f) metrics_reactor" where
  "OnDone s = s\<lparr>deleted := True\<rparr>"

inductive metrics_step ::
    "('d, 'f) sensors \<Rightarrow> ('d, 'f) metrics_reactor \<Rightarrow> ('d, 'f) metrics_reactor \<Rightarrow> bool" for S where
  sampling: "point s = Sampling \<Longrightarrow> metrics_step S s (sample_and_write S s)"
| write_done: "point s = Writing \<Longrightarrow> m_writeStatus s = InProgress \<Longrightarrow>
    metrics_step S s (OnWriteDone ok s)"
| written: "point s = Writing \<Longrightarrow> m_writeStatus s \<noteq> InProgress \<Longrightarrow>
    metrics_step S s (s\<lparr>point := if m_writeStatus s = Failed then Finished else Pausing\<rparr>)"
| cancelled: "point s = Pausing \<Longrightarrow> m_cancel s \<Longrightarrow> metrics_step S s (s\<lparr>point := Finished\<rparr>)"
| timeout: "point s = Pausing \<Longrightarrow> \<not> m_cancel s \<Longrightarrow> metrics_step S s (s\<lparr>point := Sampling\<rparr>)"
| cancel: "\<not> deleted s \<Longrightarrow> metrics_step S s (fst (OnCancel s))"
| finish: "point s = Finished \<Longrightarrow> \<not> deleted s \<Longrightarrow> metrics_step S s (OnDone s)"
| outside: "metrics_step S s (s\<lparr>world := d, m_brewTimer := w\<rparr>)"

section \<open>Durations\<close>

lemma cdiv_rest:
  assumes "0 < b"
  shows "\<bar>a - cdiv a b * b\<bar> < b" and "0 \<le> a \<Longrightarrow> 0 \<le> a - cdiv a b * b"
    and "a \<le> 0 \<Longrightarrow> a - cdiv a b * b \<le> 0"
proof -
  have pos: "x - x div b * b = x mod b" for x :: int by (simp add: minus_div_mult_eq_mod)
  have m: "0 \<le> x mod b" "x mod b < b" for x :: int using assms by simp_all
  have e: "a - cdiv a b * b = (if 0 \<le> a then a mod b else - ((- a) mod b))"
    using pos [of a] pos [of "- a"] assms by (auto simp: cdiv_def sgn_if)
  show "\<bar>a - cdiv a b * b\<bar> < b" "0 \<le> a \<Longrightarrow> 0 \<le> a - cdiv a b * b"
    and "a \<le> 0 \<Longrightarrow> a - cdiv a b * b \<le> 0"
    using m [of a] m [of "- a"] by (auto simp: e)
qed

lemma sint_small: "\<bar>n\<bar> < 1000000000 \<Longrightarrow> sint (word_of_int n :: 32 word) = n"
  by (simp add: sint_sbintrunc' signed_take_bit_int_eq_self)

lemma toProtoDuration_exact:
  "duration_seconds (toProtoDuration ns) * 1000000000 + duration_nanos (toProtoDuration ns) = ns \<and>
   \<bar>duration_nanos (toProtoDuration ns)\<bar> < 1000000000 \<and>
   0 \<le> sgn ns * duration_nanos (toProtoDuration ns)"
proof -
  let ?r = "ns - cdiv ns 1000000000 * 1000000000"
  note r = cdiv_rest [of 1000000000 ns]
  have "duration_nanos (toProtoDuration ns) = ?r"
    and "duration_seconds (toProtoDuration ns) = cdiv ns 1000000000"
    unfolding toProtoDuration_def Let_def sint_small [OF r(1) [OF zero_less_numeral]] by simp_all
  then show ?thesis using r by (auto simp: sgn_if)
qed

section \<open>The life of a stream\<close>

definition metrics_ok :: "('d, 'f) metrics_reactor \<Rightarrow> bool" where
  "metrics_ok s \<longleftrightarrow>
     (point s = Finished \<longrightarrow> m_cancel s \<or> m_writeStatus s = Failed) \<and>
     (point s = Pausing \<or> point s = Sampling \<longrightarrow> m_writeStatus s = Idle) \<and>
     (point s = Writing \<longrightarrow> started s \<noteq> []) \<and> (deleted s \<longrightarrow> point s = Finished)"

definition metrics_start :: "('d, 'f) sensors \<Rightarrow> ('d, 'f) metrics_reactor \<Rightarrow> bool" where
  "metrics_start S s \<longleftrightarrow>
     (\<exists>timer src d. snd (MetricsStreamReactor_create S timer src d) = Inr s)"

lemma metrics_start_fields:
  assumes "metrics_start S s"
  shows "point s = Sampling" "m_writeStatus s = Idle" "\<not> m_cancel s" "started s = []" "\<not> deleted s"
  using assms by (auto simp: metrics_start_def MetricsStreamReactor_create_def bindp_def
      split: sum.splits)

lemma metrics_ok_step: "metrics_step S s t \<Longrightarrow> metrics_ok s \<Longrightarrow> metrics_ok t"
proof (induction rule: metrics_step.induct)
  case (written s)
  then show ?case by (cases "m_writeStatus s") (simp_all add: metrics_ok_def)
qed (auto simp: metrics_ok_def sample_and_write_def OnWriteDone_def OnCancel_def OnDone_def
      split: prod.split sum.split)

interpretation metrics: safety "metrics_start S" "metrics_step S" metrics_ok for S
proof unfold_locales
  fix s :: "('a, 'b) metrics_reactor"
  assume "metrics_start S s"
  from metrics_start_fields [OF this] show "metrics_ok s" by (simp add: metrics_ok_def)
qed (rule metrics_ok_step)

text \<open>Once cancelled, the worker can only finish the round that it is in.\<close>

lemma metrics_cancelled_step:
  "metrics_step S s t \<Longrightarrow> m_cancel s \<Longrightarrow> m_cancel t \<and>
   length (started t) + of_bool (point t = Sampling) \<le> length (started s) + of_bool (point s = Sampling)"
  by (induction rule: metrics_step.induct)
    (auto simp: sample_and_write_def OnWriteDone_def OnCancel_def OnDone_def
      split: prod.split sum.split)

lemma metrics_cancelled_steps:
  "(metrics_step S)\<^sup>*\<^sup>* s t \<Longrightarrow> m_cancel s \<Longrightarrow> m_cancel t \<and>
   length (started t) + of_bool (point t = Sampling) \<le> length (started s) + of_bool (point s = Sampling)"
proof (induction rule: rtranclp_induct)
  case (step t u)
  with metrics_cancelled_step [OF step.hyps(2)] show ?case by auto
qed simp

text \<open>
  A cancelled stream comes to its end: the steps of its worker, of the completion of a write
  and of the release lower a rank that nothing outside raises, and one of them can be taken
  until the object is deleted or an exception of a sensor has ended the program.
\<close>

inductive metrics_closing ::
    "('d, 'f) sensors \<Rightarrow> ('d, 'f) metrics_reactor \<Rightarrow> ('d, 'f) metrics_reactor \<Rightarrow> bool" for S where
  sampling: "point s = Sampling \<Longrightarrow> metrics_closing S s (sample_and_write S s)"
| write_done: "point s = Writing \<Longrightarrow> m_writeStatus s = InProgress \<Longrightarrow>
    metrics_closing S s (OnWriteDone ok s)"
| written: "point s = Writing \<Longrightarrow> m_writeStatus s \<noteq> InProgress \<Longrightarrow>
    metrics_closing S s (s\<lparr>point := if m_writeStatus s = Failed then Finished else Pausing\<rparr>)"
| cancelled: "point s = Pausing \<Longrightarrow> m_cancel s \<Longrightarrow> metrics_closing S s (s\<lparr>point := Finished\<rparr>)"
| finish: "point s = Finished \<Longrightarrow> \<not> deleted s \<Longrightarrow> metrics_closing S s (OnDone s)"

inductive metrics_outside ::
    "('d, 'f) metrics_reactor \<Rightarrow> ('d, 'f) metrics_reactor \<Rightarrow> bool" where
  cancel: "\<not> deleted s \<Longrightarrow> metrics_outside s (fst (OnCancel s))"
| outside: "metrics_outside s (s\<lparr>world := d, m_brewTimer := w\<rparr>)"

definition metrics_rank :: "('d, 'f) metrics_reactor \<Rightarrow> nat" where
  "metrics_rank s =
     (case point s of
        Sampling \<Rightarrow> 5 | Writing \<Rightarrow> if m_writeStatus s = InProgress then 4 else 3
      | Pausing \<Rightarrow> 2 | Finished \<Rightarrow> if deleted s then 0 else 1 | Terminated \<Rightarrow> 0)"

definition metrics_cancelled :: "('d, 'f) metrics_reactor \<Rightarrow> bool" where
  "metrics_cancelled s \<longleftrightarrow> metrics_ok s \<and> (m_cancel s \<or> deleted s)"

definition metrics_ended :: "('d, 'f) metrics_reactor \<Rightarrow> bool" where
  "metrics_ended s \<longleftrightarrow> deleted s \<or> point s = Terminated"

lemma metrics_closing_step: "metrics_closing S s t \<Longrightarrow> metrics_step S s t"
  by (induction rule: metrics_closing.induct) (rule metrics_step.intros; assumption)+

lemma metrics_outside_step: "metrics_outside s t \<Longrightarrow> metrics_step S s t"
  by (induction rule: metrics_outside.induct) (rule metrics_step.intros; assumption?)+

lemma metrics_cancelled_kept:
  assumes "metrics_step S s t" and "metrics_cancelled s"
  shows "metrics_cancelled t"
proof -
  have "deleted s \<Longrightarrow> deleted t"
    using assms(1) by (cases rule: metrics_step.cases)
      (auto simp: sample_and_write_def OnWriteDone_def OnCancel_def OnDone_def
        split: prod.split sum.split)
  with metrics_ok_step [OF assms(1)] metrics_cancelled_step [OF assms(1)] assms(2)
  show ?thesis by (auto simp: metrics_cancelled_def)
qed

interpretation metrics_end: stoppable "metrics_closing S" metrics_outside metrics_cancelled
  metrics_rank "\<lambda>_. False" metrics_ended for S :: "('d, 'f) sensors"
proof unfold_locales
  fix s t :: "('d, 'f) metrics_reactor"
  assume "metrics_cancelled s" and "metrics_closing S s t"
  then show "metrics_cancelled t"
    using metrics_cancelled_kept [OF metrics_closing_step] by blast
  from \<open>metrics_closing S s t\<close> show "metrics_rank t < metrics_rank s"
    by (rule metrics_closing.cases)
      (auto simp: metrics_rank_def sample_and_write_def OnWriteDone_def OnDone_def
        split: prod.split sum.split)
next
  fix s t :: "('d, 'f) metrics_reactor"
  assume "metrics_cancelled s" and "metrics_outside s t"
  then show "metrics_cancelled t"
    using metrics_cancelled_kept [OF metrics_outside_step] by blast
  from \<open>metrics_outside s t\<close> show "metrics_rank t \<le> metrics_rank s"
    by (rule metrics_outside.cases)
      (auto simp: metrics_rank_def OnCancel_def split: metrics_point.split)
next
  fix s :: "('d, 'f) metrics_reactor"
  assume "metrics_cancelled s" and "\<not> metrics_ended s"
  then show "\<exists>t. metrics_closing S s t"
    by (cases "point s"; cases "m_writeStatus s = InProgress")
      (auto simp: metrics_cancelled_def metrics_ended_def intro: metrics_closing.intros)
qed

text \<open>
  C37: a metrics stream is finished only after a cancellation or a failed write, its object
  is deleted only after that, no measurement is made while a write is under way or after
  one has failed. After a cancellation at most one more message is started, none if the
  worker is not about to measure, and the stream comes to its end in at most five steps of
  its own: one of them can be taken until the object is deleted or a sensor has thrown.
\<close>

theorem metrics_end_for_a_reason:
  assumes "metrics_start S s" and "(metrics_step S)\<^sup>*\<^sup>* s t" and "(metrics_step S)\<^sup>*\<^sup>* t u"
  shows "(point t = Finished \<longrightarrow> m_cancel t \<or> m_writeStatus t = Failed) \<and>
    (deleted t \<longrightarrow> point t = Finished) \<and>
    (point t = Sampling \<longrightarrow> m_writeStatus t = Idle) \<and>
    (m_cancel t \<longrightarrow> length (started u) \<le> length (started t) + of_bool (point t = Sampling)) \<and>
    (m_cancel t \<longrightarrow> (\<forall>n v. counted_run (metrics_closing S) metrics_outside n t v \<longrightarrow>
       n \<le> 5 \<and> ((\<nexists>w. metrics_closing S v w) \<longrightarrow> deleted v \<or> point v = Terminated)))"
proof -
  have ok: "metrics_ok t" using metrics.reachable_inv [OF assms(1,2)] .
  have "metrics_rank t \<le> 5" by (auto simp: metrics_rank_def split: metrics_point.split)
  then have "n \<le> 5 \<and> ((\<nexists>w. metrics_closing S v w) \<longrightarrow> deleted v \<or> point v = Terminated)"
    if "m_cancel t" "counted_run (metrics_closing S) metrics_outside n t v" for n v
    using metrics_end.run_ends [OF that(2)] ok that(1)
    by (auto simp: metrics_cancelled_def metrics_ended_def)
  with ok metrics_cancelled_steps [OF assms(3)] show ?thesis
    by (auto simp: metrics_ok_def)
qed

definition sample_sensors :: "(int, int) sensors" where
  "sample_sensors =
     \<lparr>sensor_found = (\<lambda>_. skip), get_pressure = return 9000, get_weight = return 0,
      get_flowrate = return 0, get_temperature = return 95000,
      controller_found = (\<lambda>_. return False), pTerm = (\<lambda>_. return 0), iTerm = (\<lambda>_. return 0),
      dTerm = (\<lambda>_. return 0), fTerm = (\<lambda>_. return 0), pidSum = (\<lambda>_. return 0),
      steady_clock = (\<lambda>d. d)\<rparr>"

definition sample_stream :: "(int, int) metrics_reactor" where
  "sample_stream = \<lparr>world = 0, m_brewTimer = 0, m_pidControllerState = None,
     m_writeStatus = Idle, m_cancel = False, point = Sampling, started = [], deleted = False\<rparr>"

lemma sample_stream_start: "metrics_start sample_sensors sample_stream"
  unfolding metrics_start_def
  by (intro exI [of _ 0] exI [of _ "PidSource_Other 0"])
    (simp add: MetricsStreamReactor_create_def sample_sensors_def sample_stream_def prog_defs
      getPidControllerState_def pidSourceToControllerLabel_def)

theorem metrics_end_for_a_reason_witness:
  "length (started (sample_and_write sample_sensors (fst (OnCancel sample_stream)))) \<le> 1"
proof -
  let ?s = "fst (OnCancel sample_stream)"
  have c: "(metrics_step sample_sensors)\<^sup>*\<^sup>* sample_stream ?s"
    by (rule r_into_rtranclp, rule metrics_step.cancel) (simp add: sample_stream_def)
  have w: "(metrics_step sample_sensors)\<^sup>*\<^sup>* ?s (sample_and_write sample_sensors ?s)"
    by (rule r_into_rtranclp, rule metrics_step.sampling) (simp add: OnCancel_def sample_stream_def)
  from metrics_end_for_a_reason [OF sample_stream_start c w] show ?thesis
    by (simp add: OnCancel_def sample_stream_def)
qed

end
