(* ===== verification/Config.thy ===== *)
theory Config
  imports CFloat
begin

text \<open>
  \<^verbatim>\<open>config/openpressod_config\<close> and \<^verbatim>\<open>config/config_defaults.hpp\<close>: the values that the daemon
  reads from its TOML file, with their defaults. The TOML document and its typed lookups
  belong to toml11 and are parameters, as are the enumerator names that magic_enum knows
  and the two paths that the build sets.
\<close>

section \<open>The TOML library\<close>

datatype toml_entry = TString string | TBool bool | TInt int | TFloat float32 | TTime int

text \<open>
  \<open>find_x T c path\<close> is \<^verbatim>\<open>toml::find<x>\<close>, which throws, and \<open>find_or_x\<close> is
  \<^verbatim>\<open>toml::find_or\<close>, whose result has the type of its default: for a duration the
  argument before the default says how many units of that type make a second. \<open>entry\<close> is
  what the document holds at a path (a time in nanoseconds).
\<close>

record 'c toml =
  parse :: "string \<Rightarrow> exn + 'c"
  parse_file :: "string \<Rightarrow> exn + 'c"
  entry :: "'c \<Rightarrow> string list \<Rightarrow> toml_entry option"
  find_int :: "'c \<Rightarrow> string list \<Rightarrow> exn + int"
  find_float :: "'c \<Rightarrow> string list \<Rightarrow> exn + float32"
  find_or_string :: "'c \<Rightarrow> string list \<Rightarrow> string \<Rightarrow> exn + string"
  find_or_bool :: "'c \<Rightarrow> string list \<Rightarrow> bool \<Rightarrow> exn + bool"
  find_or_int :: "'c \<Rightarrow> string list \<Rightarrow> int \<Rightarrow> exn + int"
  find_or_time :: "'c \<Rightarrow> string list \<Rightarrow> int \<Rightarrow> int \<Rightarrow> exn + int"
  level_names :: "string set"
  pull_names :: "string set"
  ticks :: int
  OPENPRESSOD_DATA_DIR :: string
  OPENPRESSOD_SOCKET_PATH :: string

text \<open>
  What the documentation of toml11 promises: an absent key gives the default or an
  exception, a key of the right type its value, a time cut to the unit of the result.
\<close>

definition toml_laws :: "'c toml \<Rightarrow> bool" where
  "toml_laws T \<longleftrightarrow>
     (\<forall>c p. entry T c p = None \<longrightarrow>
        (\<exists>m. find_int T c p = Inl (OutOfRange m)) \<and> (\<exists>m. find_float T c p = Inl (OutOfRange m)) \<and>
        (\<forall>v. find_or_string T c p v = Inr v) \<and> (\<forall>v. find_or_bool T c p v = Inr v) \<and>
        (\<forall>v. find_or_int T c p v = Inr v) \<and> (\<forall>u v. find_or_time T c p u v = Inr v)) \<and>
     (\<forall>c p v. entry T c p = Some (TInt v) \<longrightarrow>
        find_int T c p = Inr v \<and> (\<forall>w. find_or_int T c p w = Inr v)) \<and>
     (\<forall>c p v. entry T c p = Some (TFloat v) \<longrightarrow> find_float T c p = Inr v) \<and>
     (\<forall>c p v w. entry T c p = Some (TString v) \<longrightarrow> find_or_string T c p w = Inr v) \<and>
     (\<forall>c p v w. entry T c p = Some (TBool v) \<longrightarrow> find_or_bool T c p w = Inr v) \<and>
     (\<forall>c p v u w. entry T c p = Some (TTime v) \<longrightarrow>
        find_or_time T c p u w = Inr (cdiv (v * u) 1000000000))"

definition bindr :: "exn + 'a \<Rightarrow> ('a \<Rightarrow> exn + 'b) \<Rightarrow> exn + 'b" where
  "bindr r k = (case r of Inl e \<Rightarrow> Inl e | Inr x \<Rightarrow> k x)"

lemma bindr_simps [simp]: "bindr (Inl e) k = Inl e" "bindr (Inr x) k = k x"
  by (simp_all add: bindr_def)

lemma bindr_Inr: "bindr r k = Inr y \<longleftrightarrow> (\<exists>x. r = Inr x \<and> k x = Inr y)"
  by (cases r) simp_all

text \<open>\<^verbatim>\<open>magic_enum::enum_cast(name).value()\<close>: an enumerator is represented by its name.\<close>

definition enum_cast :: "string set \<Rightarrow> string \<Rightarrow> exn + string" where
  "enum_cast names x = (if x \<in> names then Inr x else Inl BadOptionalAccess)"

text \<open>A count of units, of which \<open>u\<close> make a second, as ticks of \<^verbatim>\<open>time_delta_t\<close>.\<close>

definition time_ticks :: "'c toml \<Rightarrow> int \<Rightarrow> int \<Rightarrow> int" where
  "time_ticks T n u = n * ticks T div u"

section \<open>Defaults\<close>

definition DEFAULT_BREW_PROFILE_FILE_NAME :: string where
  "DEFAULT_BREW_PROFILE_FILE_NAME = ''brew_profile.json''"
definition DEFAULT_USER_SETTINGS_FILE_NAME :: string where
  "DEFAULT_USER_SETTINGS_FILE_NAME = ''user_settings.json''"

definition DEFAULT_I2C_BUS :: string where
  "DEFAULT_I2C_BUS = ''/dev/i2c-0''"
definition DEFAULT_GPIO_CHIP :: string where
  "DEFAULT_GPIO_CHIP = ''/dev/gpiochip0''"
definition DEFAULT_WATCHDOG :: string where
  "DEFAULT_WATCHDOG = ''/dev/watchdog0''"
definition DEFAULT_TEMPERATURE_SENSOR_SPI :: string where
  "DEFAULT_TEMPERATURE_SENSOR_SPI = ''/dev/spidev0.0''"

definition DEFAULT_SERVICE_TCP_ENABLE :: bool where
  "DEFAULT_SERVICE_TCP_ENABLE = False"
definition DEFAULT_SERVICE_TCP_BIND_ADDRESS :: string where
  "DEFAULT_SERVICE_TCP_BIND_ADDRESS = ''0.0.0.0:5001''"

definition DEFAULT_CONSOLE_LOG_OUTPUT_PATTERN :: string where
  "DEFAULT_CONSOLE_LOG_OUTPUT_PATTERN = ''[%Y-%m-%d %H:%M:%S.%e] [%^%l%$] %v''"
definition DEFAULT_CONSOLE_LOG_LEVEL :: string where
  "DEFAULT_CONSOLE_LOG_LEVEL = ''info''"

definition DEFAULT_WATCHDOG_ENABLE :: bool where
  "DEFAULT_WATCHDOG_ENABLE = True"
definition DEFAULT_PID_STATE_MONITORING_ENABLE :: bool where
  "DEFAULT_PID_STATE_MONITORING_ENABLE = False"

definition DEFAULT_POWER_BUTTON_BISTABLE :: bool where
  "DEFAULT_POWER_BUTTON_BISTABLE = False"
definition DEFAULT_BREW_BUTTON_BISTABLE :: bool where
  "DEFAULT_BREW_BUTTON_BISTABLE = True"
definition DEFAULT_STEAM_BUTTON_BISTABLE :: bool where
  "DEFAULT_STEAM_BUTTON_BISTABLE = True"

definition DEFAULT_BUTTONS_LOGIC_INVERTED :: bool where
  "DEFAULT_BUTTONS_LOGIC_INVERTED = True"
definition DEFAULT_LEDS_LOGIC_INVERTED :: bool where
  "DEFAULT_LEDS_LOGIC_INVERTED = False"
definition DEFAULT_BUTTONS_PULL_MODE :: string where
  "DEFAULT_BUTTONS_PULL_MODE = ''PullUp''"

text \<open>Milliseconds, but for the two given in seconds.\<close>

definition DEFAULT_BUTTON_DEBOUNCE_PERIOD :: int where
  "DEFAULT_BUTTON_DEBOUNCE_PERIOD = 10"
definition DEFAULT_HEATER_READY_HYSTERESIS_PERIOD :: int where
  "DEFAULT_HEATER_READY_HYSTERESIS_PERIOD = 5"
definition DEFAULT_TEMPERATURE_D_FILTER_SMOOTHING_PERIOD :: int where
  "DEFAULT_TEMPERATURE_D_FILTER_SMOOTHING_PERIOD = 750"
definition DEFAULT_WEIGHT_D_FILTER_SMOOTHING_PERIOD :: int where
  "DEFAULT_WEIGHT_D_FILTER_SMOOTHING_PERIOD = 600"
definition DEFAULT_WATCHDOG_TIMEOUT :: int where
  "DEFAULT_WATCHDOG_TIMEOUT = 1"

definition DEFAULT_ADS1115_ADDR :: int where
  "DEFAULT_ADS1115_ADDR = 0x48"
definition DEFAULT_NAU7802_ADDR :: int where
  "DEFAULT_NAU7802_ADDR = 0x2a"

definition DEFAULT_BREW_PRESSURE :: int where
  "DEFAULT_BREW_PRESSURE = 9000"
definition DEFAULT_BREW_TEMPERATURE :: int where
  "DEFAULT_BREW_TEMPERATURE = 95000"
definition DEFAULT_BREW_TEMPERATURE_WINDOW :: int where
  "DEFAULT_BREW_TEMPERATURE_WINDOW = 500"
definition DEFAULT_STEAM_TEMPERATURE :: int where
  "DEFAULT_STEAM_TEMPERATURE = 155000"
definition DEFAULT_STEAM_TEMPERATURE_WINDOW :: int where
  "DEFAULT_STEAM_TEMPERATURE_WINDOW = 1000"
definition DEFAULT_STEAM_PRESSURE_THRESHOLD :: int where
  "DEFAULT_STEAM_PRESSURE_THRESHOLD = 2500"
definition DEFAULT_STEAM_REFILL_FLOW :: int where
  "DEFAULT_STEAM_REFILL_FLOW = 500"

definition DEFAULT_WATCHDOG_RESET_TEMPERATURE :: int where
  "DEFAULT_WATCHDOG_RESET_TEMPERATURE = 170000"

section \<open>The configuration object\<close>

record pid_settings =
  pid_p :: float32
  pid_d :: float32
  pid_dTermRelax :: float32
  pid_dFilterTime :: int
  pid_i :: float32
  pid_iTermRelax :: float32
  pid_f :: float32
  pid_w :: float32
  pid_wDecay :: float32

definition fromFile :: "'c toml \<Rightarrow> string \<Rightarrow> exn + 'c" where
  "fromFile T configPath = parse_file T configPath"

definition fromString :: "'c toml \<Rightarrow> string \<Rightarrow> exn + 'c" where
  "fromString T conf = parse T conf"

definition daemonBaseDirectory :: "'c toml \<Rightarrow> string" where
  "daemonBaseDirectory T = OPENPRESSOD_DATA_DIR T"

text \<open>
  The getters. A duration is looked up in the unit of its default and then converted to
  the ticks of \<^verbatim>\<open>time_delta_t\<close>.
\<close>

definition find_or_duration ::
    "'c toml \<Rightarrow> 'c \<Rightarrow> string list \<Rightarrow> int \<Rightarrow> int \<Rightarrow> exn + int" where
  "find_or_duration T c path u dflt =
     bindr (find_or_time T c path u dflt) (\<lambda>n. Inr (time_ticks T n u))"

text \<open>
  \<^verbatim>\<open>toml::find\<close> at an unsigned type of \<open>w\<close> bits: the integer of the file, which has 64 bits
  and a sign, is converted to it. (The integer types of libopenpresso are not known here:
  their values stay integers.)
\<close>

definition find_unsigned :: "nat \<Rightarrow> 'c toml \<Rightarrow> 'c \<Rightarrow> string list \<Rightarrow> exn + int" where
  "find_unsigned w T c path = bindr (find_int T c path) (\<lambda>n. Inr (n mod 2 ^ w))"

text \<open>\<^verbatim>\<open>[global]\<close>\<close>

definition brewProfilePath :: "'c toml \<Rightarrow> 'c \<Rightarrow> exn + string" where
  "brewProfilePath T c = find_or_string T c [''global'', ''brew_profile_path'']
     (daemonBaseDirectory T @ ''/'' @ DEFAULT_BREW_PROFILE_FILE_NAME)"

definition userSettingsPath :: "'c toml \<Rightarrow> 'c \<Rightarrow> exn + string" where
  "userSettingsPath T c = find_or_string T c [''global'', ''user_settings_path'']
     (daemonBaseDirectory T @ ''/'' @ DEFAULT_USER_SETTINGS_FILE_NAME)"

definition mainsFrequency :: "'c toml \<Rightarrow> 'c \<Rightarrow> exn + int" where
  "mainsFrequency T c = find_unsigned 64 T c [''global'', ''mains_frequency'']"

definition i2cBus :: "'c toml \<Rightarrow> 'c \<Rightarrow> exn + string" where
  "i2cBus T c = find_or_string T c [''global'', ''i2c_bus''] DEFAULT_I2C_BUS"

definition gpioChip :: "'c toml \<Rightarrow> 'c \<Rightarrow> exn + string" where
  "gpioChip T c = find_or_string T c [''global'', ''gpio_chip''] DEFAULT_GPIO_CHIP"

definition mainsZeroCrossPin :: "'c toml \<Rightarrow> 'c \<Rightarrow> exn + int" where
  "mainsZeroCrossPin T c = find_int T c [''global'', ''mains_zc_pin'']"

definition pidStateMonitoringEnabled :: "'c toml \<Rightarrow> 'c \<Rightarrow> exn + bool" where
  "pidStateMonitoringEnabled T c = find_or_bool T c [''global'', ''pid_state_monitoring_enabled''] DEFAULT_PID_STATE_MONITORING_ENABLE"

text \<open>\<^verbatim>\<open>[service]\<close>\<close>

definition socketPath :: "'c toml \<Rightarrow> 'c \<Rightarrow> exn + string" where
  "socketPath T c = find_or_string T c [''service'', ''socket_path''] (OPENPRESSOD_SOCKET_PATH T)"

definition tcpEnable :: "'c toml \<Rightarrow> 'c \<Rightarrow> exn + bool" where
  "tcpEnable T c = find_or_bool T c [''service'', ''tcp_enable''] DEFAULT_SERVICE_TCP_ENABLE"

definition tcpBindAddress :: "'c toml \<Rightarrow> 'c \<Rightarrow> exn + string" where
  "tcpBindAddress T c = find_or_string T c [''service'', ''tcp_bind_address''] DEFAULT_SERVICE_TCP_BIND_ADDRESS"

text \<open>\<^verbatim>\<open>[log]\<close>\<close>

definition logMessagePattern :: "'c toml \<Rightarrow> 'c \<Rightarrow> exn + string" where
  "logMessagePattern T c = find_or_string T c [''log'', ''console_log_pattern''] DEFAULT_CONSOLE_LOG_OUTPUT_PATTERN"

definition logLevel :: "'c toml \<Rightarrow> 'c \<Rightarrow> exn + string" where
  "logLevel T c = bindr (find_or_string T c [''log'', ''console_log_level''] DEFAULT_CONSOLE_LOG_LEVEL)
     (enum_cast (level_names T))"

text \<open>\<^verbatim>\<open>[watchdog]\<close>\<close>

definition watchdogEnabled :: "'c toml \<Rightarrow> 'c \<Rightarrow> exn + bool" where
  "watchdogEnabled T c = find_or_bool T c [''watchdog'', ''enabled''] DEFAULT_WATCHDOG_ENABLE"

definition watchdogDevice :: "'c toml \<Rightarrow> 'c \<Rightarrow> exn + string" where
  "watchdogDevice T c = find_or_string T c [''watchdog'', ''device_path''] DEFAULT_WATCHDOG"

definition watchdogTimeout :: "'c toml \<Rightarrow> 'c \<Rightarrow> exn + int" where
  "watchdogTimeout T c = find_or_duration T c [''watchdog'', ''timeout''] 1 DEFAULT_WATCHDOG_TIMEOUT"

definition watchdogTemperatureLimit :: "'c toml \<Rightarrow> 'c \<Rightarrow> exn + int" where
  "watchdogTemperatureLimit T c = find_or_int T c [''watchdog'', ''temperature_limit''] DEFAULT_WATCHDOG_RESET_TEMPERATURE"

text \<open>\<^verbatim>\<open>[buttons]\<close>\<close>

definition buttonsLogicInverted :: "'c toml \<Rightarrow> 'c \<Rightarrow> exn + bool" where
  "buttonsLogicInverted T c = find_or_bool T c [''buttons'', ''inverted''] DEFAULT_BUTTONS_LOGIC_INVERTED"

definition powerButtonBistable :: "'c toml \<Rightarrow> 'c \<Rightarrow> exn + bool" where
  "powerButtonBistable T c = find_or_bool T c [''buttons'', ''power_bistable''] DEFAULT_POWER_BUTTON_BISTABLE"

definition brewButtonBistable :: "'c toml \<Rightarrow> 'c \<Rightarrow> exn + bool" where
  "brewButtonBistable T c = find_or_bool T c [''buttons'', ''brew_bistable''] DEFAULT_BREW_BUTTON_BISTABLE"

definition steamButtonBistable :: "'c toml \<Rightarrow> 'c \<Rightarrow> exn + bool" where
  "steamButtonBistable T c = find_or_bool T c [''buttons'', ''steam_bistable''] DEFAULT_STEAM_BUTTON_BISTABLE"

definition buttonsPullMode :: "'c toml \<Rightarrow> 'c \<Rightarrow> exn + string" where
  "buttonsPullMode T c = bindr (find_or_string T c [''buttons'', ''pull_mode''] DEFAULT_BUTTONS_PULL_MODE)
     (enum_cast (pull_names T))"

definition buttonsDebouncePeriod :: "'c toml \<Rightarrow> 'c \<Rightarrow> exn + int" where
  "buttonsDebouncePeriod T c = find_or_duration T c [''buttons'', ''debounce_period''] 1000 DEFAULT_BUTTON_DEBOUNCE_PERIOD"

definition powerButtonSignalPin :: "'c toml \<Rightarrow> 'c \<Rightarrow> exn + int" where
  "powerButtonSignalPin T c = find_int T c [''buttons'', ''power_pin'']"

definition brewButtonSignalPin :: "'c toml \<Rightarrow> 'c \<Rightarrow> exn + int" where
  "brewButtonSignalPin T c = find_int T c [''buttons'', ''brew_pin'']"

definition steamButtonSignalPin :: "'c toml \<Rightarrow> 'c \<Rightarrow> exn + int" where
  "steamButtonSignalPin T c = find_int T c [''buttons'', ''steam_pin'']"

text \<open>\<^verbatim>\<open>[leds]\<close>\<close>

definition ledsLogicInverted :: "'c toml \<Rightarrow> 'c \<Rightarrow> exn + bool" where
  "ledsLogicInverted T c = find_or_bool T c [''leds'', ''inverted''] DEFAULT_LEDS_LOGIC_INVERTED"

definition powerLedOutputPin :: "'c toml \<Rightarrow> 'c \<Rightarrow> exn + int" where
  "powerLedOutputPin T c = find_int T c [''leds'', ''power_pin'']"

definition brewLedOutputPin :: "'c toml \<Rightarrow> 'c \<Rightarrow> exn + int" where
  "brewLedOutputPin T c = find_int T c [''leds'', ''brew_pin'']"

definition steamLedOutputPin :: "'c toml \<Rightarrow> 'c \<Rightarrow> exn + int" where
  "steamLedOutputPin T c = find_int T c [''leds'', ''steam_pin'']"

text \<open>\<^verbatim>\<open>[pressure_sensor]\<close>\<close>

definition pressureSensorSignalPin :: "'c toml \<Rightarrow> 'c \<Rightarrow> exn + int" where
  "pressureSensorSignalPin T c = find_int T c [''pressure_sensor'', ''signal_pin'']"

definition pressureSensorI2cAddr :: "'c toml \<Rightarrow> 'c \<Rightarrow> exn + int" where
  "pressureSensorI2cAddr T c = find_or_int T c [''pressure_sensor'', ''i2c_addr''] DEFAULT_ADS1115_ADDR"

text \<open>\<^verbatim>\<open>[weight_sensor]\<close>\<close>

definition weightSensorScale :: "'c toml \<Rightarrow> 'c \<Rightarrow> exn + int" where
  "weightSensorScale T c = find_unsigned 32 T c [''weight_sensor'', ''scale'']"

definition weightSensorFilterTiming :: "'c toml \<Rightarrow> 'c \<Rightarrow> exn + int" where
  "weightSensorFilterTiming T c = find_or_duration T c [''weight_sensor'', ''filter_timing''] 1000 DEFAULT_WEIGHT_D_FILTER_SMOOTHING_PERIOD"

definition weightSensorSignalPin :: "'c toml \<Rightarrow> 'c \<Rightarrow> exn + int" where
  "weightSensorSignalPin T c = find_int T c [''weight_sensor'', ''signal_pin'']"

definition weightSensorI2cAddr :: "'c toml \<Rightarrow> 'c \<Rightarrow> exn + int" where
  "weightSensorI2cAddr T c = find_or_int T c [''weight_sensor'', ''i2c_addr''] DEFAULT_NAU7802_ADDR"

text \<open>\<^verbatim>\<open>[temperature_sensor]\<close>\<close>

definition temperatureSensorFilterTiming :: "'c toml \<Rightarrow> 'c \<Rightarrow> exn + int" where
  "temperatureSensorFilterTiming T c = find_or_duration T c [''temperature_sensor'', ''filter_timing''] 1000 DEFAULT_TEMPERATURE_D_FILTER_SMOOTHING_PERIOD"

definition temperatureSensorSpiAddr :: "'c toml \<Rightarrow> 'c \<Rightarrow> exn + string" where
  "temperatureSensorSpiAddr T c = find_or_string T c [''temperature_sensor'', ''spi_addr''] DEFAULT_TEMPERATURE_SENSOR_SPI"

definition temperatureSensorSignalPin :: "'c toml \<Rightarrow> 'c \<Rightarrow> exn + int" where
  "temperatureSensorSignalPin T c = find_int T c [''temperature_sensor'', ''signal_pin'']"

text \<open>\<^verbatim>\<open>[pump]\<close>\<close>

definition flowControllerMultiplier :: "'c toml \<Rightarrow> 'c \<Rightarrow> exn + float32" where
  "flowControllerMultiplier T c = find_float T c [''pump'', ''flow_controller_multiplier'']"

definition pumpOutputPin :: "'c toml \<Rightarrow> 'c \<Rightarrow> exn + int" where
  "pumpOutputPin T c = find_int T c [''pump'', ''control_pin'']"

definition pumpVolumePerPulse :: "'c toml \<Rightarrow> 'c \<Rightarrow> exn + int" where
  "pumpVolumePerPulse T c = find_int T c [''pump'', ''volume_per_pulse'']"

definition pumpStallPressure :: "'c toml \<Rightarrow> 'c \<Rightarrow> exn + int" where
  "pumpStallPressure T c = find_int T c [''pump'', ''stall_pressure'']"

text \<open>\<^verbatim>\<open>[valve]\<close>\<close>

definition valveOutputPin :: "'c toml \<Rightarrow> 'c \<Rightarrow> exn + int" where
  "valveOutputPin T c = find_int T c [''valve'', ''control_pin'']"

text \<open>\<^verbatim>\<open>[heater]\<close>\<close>

definition heaterOutputPin :: "'c toml \<Rightarrow> 'c \<Rightarrow> exn + int" where
  "heaterOutputPin T c = find_int T c [''heater'', ''control_pin'']"

definition heaterReadyHysteresisPeriod :: "'c toml \<Rightarrow> 'c \<Rightarrow> exn + int" where
  "heaterReadyHysteresisPeriod T c =
     bindr (find_or_time T c [''heater'', ''ready_hysteresis_period''] (ticks T)
       (time_ticks T DEFAULT_HEATER_READY_HYSTERESIS_PERIOD 1)) (\<lambda>period.
     if period < 0
     then Inl (InvalidArgument ''Heater ready hysteresis period cannot be negative'')
     else Inr period)"

text \<open>\<^verbatim>\<open>[brew]\<close>\<close>

definition brewTemperature :: "'c toml \<Rightarrow> 'c \<Rightarrow> exn + int" where
  "brewTemperature T c = find_or_int T c [''brew'', ''temperature''] DEFAULT_BREW_TEMPERATURE"

definition brewPressure :: "'c toml \<Rightarrow> 'c \<Rightarrow> exn + int" where
  "brewPressure T c = find_or_int T c [''brew'', ''pressure''] DEFAULT_BREW_PRESSURE"

definition brewTemperatureWindow :: "'c toml \<Rightarrow> 'c \<Rightarrow> exn + int" where
  "brewTemperatureWindow T c = find_or_int T c [''brew'', ''brew_temperature_window''] DEFAULT_BREW_TEMPERATURE_WINDOW"

definition brewTemperatureControllerPidSettings ::
    "'c toml \<Rightarrow> 'c \<Rightarrow> exn + pid_settings" where
  "brewTemperatureControllerPidSettings T c =
     bindr (find_float T c [''brew'', ''pid_settings'', ''p'']) (\<lambda>p.
     bindr (find_float T c [''brew'', ''pid_settings'', ''d'']) (\<lambda>d.
     bindr (find_float T c [''brew'', ''pid_settings'', ''d_relax'']) (\<lambda>dTermRelax.
     bindr (temperatureSensorFilterTiming T c) (\<lambda>dFilterTime.
     bindr (find_float T c [''brew'', ''pid_settings'', ''i'']) (\<lambda>i.
     bindr (find_float T c [''brew'', ''pid_settings'', ''i_relax'']) (\<lambda>iTermRelax.
     bindr (find_float T c [''brew'', ''pid_settings'', ''f'']) (\<lambda>f.
     bindr (find_float T c [''brew'', ''pid_settings'', ''w'']) (\<lambda>w.
     bindr (find_float T c [''brew'', ''pid_settings'', ''w_decay'']) (\<lambda>wDecay.
       Inr \<lparr>pid_p = p, pid_d = d, pid_dTermRelax = dTermRelax,
         pid_dFilterTime = dFilterTime, pid_i = i, pid_iTermRelax = iTermRelax,
         pid_f = f, pid_w = w, pid_wDecay = wDecay\<rparr>)))))))))"

text \<open>\<^verbatim>\<open>[steam]\<close>\<close>

definition steamPressureThreshold :: "'c toml \<Rightarrow> 'c \<Rightarrow> exn + int" where
  "steamPressureThreshold T c = find_or_int T c [''steam'', ''pressure_threshold''] DEFAULT_STEAM_PRESSURE_THRESHOLD"

definition steamTemperature :: "'c toml \<Rightarrow> 'c \<Rightarrow> exn + int" where
  "steamTemperature T c = find_or_int T c [''steam'', ''temperature''] DEFAULT_STEAM_TEMPERATURE"

definition steamRefillFlow :: "'c toml \<Rightarrow> 'c \<Rightarrow> exn + int" where
  "steamRefillFlow T c = find_or_int T c [''steam'', ''refill_flow''] DEFAULT_STEAM_REFILL_FLOW"

definition steamTemperatureWindow :: "'c toml \<Rightarrow> 'c \<Rightarrow> exn + int" where
  "steamTemperatureWindow T c = find_or_int T c [''steam'', ''steam_temperature_window''] DEFAULT_STEAM_TEMPERATURE_WINDOW"

definition steamPreheatTemperatureControllerPidSettings ::
    "'c toml \<Rightarrow> 'c \<Rightarrow> exn + pid_settings" where
  "steamPreheatTemperatureControllerPidSettings T c =
     bindr (find_float T c [''steam'', ''preheat_pid_settings'', ''p'']) (\<lambda>p.
     bindr (find_float T c [''steam'', ''preheat_pid_settings'', ''d'']) (\<lambda>d.
     bindr (find_float T c [''steam'', ''preheat_pid_settings'', ''d_relax'']) (\<lambda>dTermRelax.
     bindr (temperatureSensorFilterTiming T c) (\<lambda>dFilterTime.
     bindr (find_float T c [''steam'', ''preheat_pid_settings'', ''i'']) (\<lambda>i.
     bindr (find_float T c [''steam'', ''preheat_pid_settings'', ''i_relax'']) (\<lambda>iTermRelax.
       Inr \<lparr>pid_p = p, pid_d = d, pid_dTermRelax = dTermRelax,
         pid_dFilterTime = dFilterTime, pid_i = i, pid_iTermRelax = iTermRelax,
         pid_f = Finite 0, pid_w = Finite 0, pid_wDecay = Finite 0\<rparr>))))))"

definition steamActiveTemperatureControllerPidSettings ::
    "'c toml \<Rightarrow> 'c \<Rightarrow> exn + pid_settings" where
  "steamActiveTemperatureControllerPidSettings T c =
     bindr (find_float T c [''steam'', ''active_pid_settings'', ''p'']) (\<lambda>p.
     bindr (find_float T c [''steam'', ''active_pid_settings'', ''d'']) (\<lambda>d.
     bindr (find_float T c [''steam'', ''active_pid_settings'', ''d_relax'']) (\<lambda>dTermRelax.
     bindr (temperatureSensorFilterTiming T c) (\<lambda>dFilterTime.
     bindr (find_float T c [''steam'', ''active_pid_settings'', ''i'']) (\<lambda>i.
     bindr (find_float T c [''steam'', ''active_pid_settings'', ''i_relax'']) (\<lambda>iTermRelax.
       Inr \<lparr>pid_p = p, pid_d = d, pid_dTermRelax = dTermRelax,
         pid_dFilterTime = dFilterTime, pid_i = i, pid_iTermRelax = iTermRelax,
         pid_f = Finite 0, pid_w = Finite 0, pid_wDecay = Finite 0\<rparr>))))))"

section \<open>What the getters give\<close>

lemma toml_absent:
  assumes "toml_laws T" and "entry T c p = None"
  shows "\<exists>m. find_int T c p = Inl (OutOfRange m)" "\<exists>m. find_float T c p = Inl (OutOfRange m)"
    "find_or_string T c p s = Inr s" "find_or_bool T c p b = Inr b"
    "find_or_int T c p n = Inr n" "find_or_time T c p u n = Inr n"
  using assms by (simp_all add: toml_laws_def)

lemma toml_present:
  assumes "toml_laws T"
  shows "entry T c p = Some (TInt n) \<Longrightarrow> find_int T c p = Inr n"
    "entry T c p = Some (TInt n) \<Longrightarrow> find_or_int T c p m = Inr n"
    "entry T c p = Some (TFloat x) \<Longrightarrow> find_float T c p = Inr x"
    "entry T c p = Some (TString s) \<Longrightarrow> find_or_string T c p r = Inr s"
    "entry T c p = Some (TBool b) \<Longrightarrow> find_or_bool T c p a = Inr b"
    "entry T c p = Some (TTime n) \<Longrightarrow> find_or_time T c p u m = Inr (cdiv (n * u) 1000000000)"
  using assms by (simp_all add: toml_laws_def)

text \<open>
  The heater hysteresis period that reaches the status manager is never negative: a
  negative time in the file is an error, an absent key gives five seconds, and any other
  time is taken to the tick.
\<close>

lemma hysteresis_period_checked:
  assumes "toml_laws T" and "ticks T = 1000000000"
  shows "(\<forall>p. heaterReadyHysteresisPeriod T c = Inr p \<longrightarrow> 0 \<le> p) \<and>
    (entry T c [''heater'', ''ready_hysteresis_period''] = None \<longrightarrow>
       heaterReadyHysteresisPeriod T c = Inr 5000000000) \<and>
    (\<forall>ns. entry T c [''heater'', ''ready_hysteresis_period''] = Some (TTime ns) \<longrightarrow>
       heaterReadyHysteresisPeriod T c =
         (if ns < 0 then Inl (InvalidArgument ''Heater ready hysteresis period cannot be negative'')
          else Inr ns))"
proof (intro conjI allI impI)
  fix p
  assume "heaterReadyHysteresisPeriod T c = Inr p"
  then show "0 \<le> p" by (auto simp: heaterReadyHysteresisPeriod_def bindr_Inr split: if_splits)
next
  assume "entry T c [''heater'', ''ready_hysteresis_period''] = None"
  from toml_absent(6) [OF assms(1) this]
  show "heaterReadyHysteresisPeriod T c = Inr 5000000000"
    by (simp add: heaterReadyHysteresisPeriod_def time_ticks_def assms(2)
        DEFAULT_HEATER_READY_HYSTERESIS_PERIOD_def)
next
  fix ns
  assume "entry T c [''heater'', ''ready_hysteresis_period''] = Some (TTime ns)"
  from toml_present(6) [OF assms(1) this]
  have "find_or_time T c [''heater'', ''ready_hysteresis_period''] (ticks T) m = Inr ns" for m
    by (simp add: assms(2) cdiv_mult)
  then show "heaterReadyHysteresisPeriod T c =
      (if ns < 0 then Inl (InvalidArgument ''Heater ready hysteresis period cannot be negative'')
       else Inr ns)"
    by (simp add: heaterReadyHysteresisPeriod_def)
qed

text \<open>
  The other durations are looked up in the unit of their default. A watchdog timeout
  loses its fraction of a second, so that one below a second becomes zero, and the debounce
  period its fraction of a millisecond.
\<close>

lemma durations_cut_to_default_unit:
  assumes "toml_laws T" and "ticks T = 1000000000" and "0 \<le> ns"
  shows "(entry T c [''watchdog'', ''timeout''] = Some (TTime ns) \<longrightarrow>
      watchdogTimeout T c = Inr (ns div 1000000000 * 1000000000)) \<and>
    (entry T c [''buttons'', ''debounce_period''] = Some (TTime ns) \<longrightarrow>
      buttonsDebouncePeriod T c = Inr (ns div 1000000 * 1000000))"
proof (intro conjI impI)
  assume "entry T c [''watchdog'', ''timeout''] = Some (TTime ns)"
  from toml_present(6) [OF assms(1) this]
  show "watchdogTimeout T c = Inr (ns div 1000000000 * 1000000000)"
    using assms(2,3) by (simp add: watchdogTimeout_def find_or_duration_def time_ticks_def cdiv_nonneg)
next
  assume "entry T c [''buttons'', ''debounce_period''] = Some (TTime ns)"
  from toml_present(6) [OF assms(1) this]
  have "find_or_time T c [''buttons'', ''debounce_period''] 1000 m = Inr (ns div 1000000)" for m
    using assms(3) by (simp add: cdiv_nonneg)
  then show "buttonsDebouncePeriod T c = Inr (ns div 1000000 * 1000000)"
    using assms(2) by (simp add: buttonsDebouncePeriod_def find_or_duration_def time_ticks_def)
qed

text \<open>
  C40: what becomes of the numbers of the file. The heater hysteresis period is never
  negative: a negative time is an error, an absent key gives five seconds, any other time is
  taken to the tick. The other durations are cut to the unit of their default: a watchdog
  timeout loses its fraction of a second, so that one below a second becomes zero, and the
  debounce period its fraction of a millisecond. The mains frequency and the scale of the
  weight sensor are reduced to 64 and 32 bits: a negative number becomes a large one.
\<close>

theorem config_numbers:
  assumes "toml_laws T" and "ticks T = 1000000000"
  shows "(\<forall>p. heaterReadyHysteresisPeriod T c = Inr p \<longrightarrow> 0 \<le> p) \<and>
    (entry T c [''heater'', ''ready_hysteresis_period''] = None \<longrightarrow>
       heaterReadyHysteresisPeriod T c = Inr 5000000000) \<and>
    (\<forall>ns. entry T c [''heater'', ''ready_hysteresis_period''] = Some (TTime ns) \<longrightarrow>
       heaterReadyHysteresisPeriod T c =
         (if ns < 0 then Inl (InvalidArgument ''Heater ready hysteresis period cannot be negative'')
          else Inr ns)) \<and>
    (\<forall>ns. 0 \<le> ns \<longrightarrow> entry T c [''watchdog'', ''timeout''] = Some (TTime ns) \<longrightarrow>
       watchdogTimeout T c = Inr (ns div 1000000000 * 1000000000)) \<and>
    (\<forall>ns. 0 \<le> ns \<longrightarrow> entry T c [''buttons'', ''debounce_period''] = Some (TTime ns) \<longrightarrow>
       buttonsDebouncePeriod T c = Inr (ns div 1000000 * 1000000)) \<and>
    (\<forall>n. - (2 ^ 63) \<le> n \<and> n < 2 ^ 63 \<longrightarrow> entry T c [''global'', ''mains_frequency''] = Some (TInt n) \<longrightarrow>
       mainsFrequency T c = Inr (if n < 0 then n + 2 ^ 64 else n)) \<and>
    (\<forall>n. entry T c [''weight_sensor'', ''scale''] = Some (TInt n) \<longrightarrow>
       weightSensorScale T c = Inr (n mod 2 ^ 32))"
proof -
  have m: "n mod 2 ^ 64 = (if n < 0 then n + 2 ^ 64 else n)" if "- (2 ^ 63) \<le> n \<and> n < 2 ^ 63" for n :: int
  proof (cases "n < 0")
    case True
    with that have "(n + 2 ^ 64) mod 2 ^ 64 = n + 2 ^ 64" by (intro mod_pos_pos_trivial) auto
    with True show ?thesis by simp
  qed (use that in auto)
  have "find_unsigned w T c p = Inr (n mod 2 ^ w)" if "entry T c p = Some (TInt n)" for w p n
    using toml_present(1) [OF assms(1) that] by (simp add: find_unsigned_def)
  with m have u: "mainsFrequency T c = Inr (if n < 0 then n + 2 ^ 64 else n)"
    if "- (2 ^ 63) \<le> n \<and> n < 2 ^ 63" "entry T c [''global'', ''mains_frequency''] = Some (TInt n)" for n
    using that by (simp only: mainsFrequency_def)
  have v: "weightSensorScale T c = Inr (n mod 2 ^ 32)"
    if "entry T c [''weight_sensor'', ''scale''] = Some (TInt n)" for n
    using toml_present(1) [OF assms(1) that] by (simp add: weightSensorScale_def find_unsigned_def)
  show ?thesis
    using hysteresis_period_checked [OF assms] durations_cut_to_default_unit [OF assms] u v
    by (intro conjI allI impI) simp_all
qed

section \<open>A concrete TOML library\<close>

text \<open>Documents as finite maps: the named hypotheses can hold.\<close>

definition sample_toml :: "(string list \<Rightarrow> toml_entry option) toml" where
  "sample_toml =
     \<lparr>parse = (\<lambda>_. Inr Map.empty), parse_file = (\<lambda>_. Inr Map.empty), entry = (\<lambda>c p. c p),
      find_int = (\<lambda>c p. case c p of Some (TInt n) \<Rightarrow> Inr n | _ \<Rightarrow> Inl (OutOfRange ''key'')),
      find_float = (\<lambda>c p. case c p of Some (TFloat x) \<Rightarrow> Inr x | _ \<Rightarrow> Inl (OutOfRange ''key'')),
      find_or_string = (\<lambda>c p d. case c p of Some (TString s) \<Rightarrow> Inr s | _ \<Rightarrow> Inr d),
      find_or_bool = (\<lambda>c p d. case c p of Some (TBool b) \<Rightarrow> Inr b | _ \<Rightarrow> Inr d),
      find_or_int = (\<lambda>c p d. case c p of Some (TInt n) \<Rightarrow> Inr n | _ \<Rightarrow> Inr d),
      find_or_time = (\<lambda>c p u d. case c p of Some (TTime n) \<Rightarrow> Inr (cdiv (n * u) 1000000000)
        | _ \<Rightarrow> Inr d),
      level_names = {''info''}, pull_names = {''PullUp''}, ticks = 1000000000,
      OPENPRESSOD_DATA_DIR = ''/var/lib/openpressod'',
      OPENPRESSOD_SOCKET_PATH = ''/run/openpresso/openpresso.sock''\<rparr>"

lemma sample_toml_laws [simp]: "toml_laws sample_toml" "ticks sample_toml = 1000000000"
  "entry sample_toml c p = c p"
  by (simp_all add: toml_laws_def sample_toml_def)

theorem config_numbers_witness:
  "watchdogTimeout sample_toml [[''watchdog'', ''timeout''] \<mapsto> TTime 900000000] = Inr 0 \<and>
   mainsFrequency sample_toml [[''global'', ''mains_frequency''] \<mapsto> TInt (- 50)] =
     Inr 18446744073709551566 \<and>
   heaterReadyHysteresisPeriod sample_toml
     [[''heater'', ''ready_hysteresis_period''] \<mapsto> TTime (- 1000000000)] =
     Inl (InvalidArgument ''Heater ready hysteresis period cannot be negative'')"
  using config_numbers [of sample_toml "[[''watchdog'', ''timeout''] \<mapsto> TTime 900000000]"]
    config_numbers [of sample_toml "[[''global'', ''mains_frequency''] \<mapsto> TInt (- 50)]"]
    config_numbers [of sample_toml "[[''heater'', ''ready_hysteresis_period''] \<mapsto> TTime (- 1000000000)]"]
  by simp

end
