(* ===== verification/Service.thy ===== *)
theory Service
  imports Buttons MetricsReactor Config
begin

text \<open>
  \<^verbatim>\<open>service/openppressod_service_impl\<close> and \<^verbatim>\<open>service/service_manager\<close>: the remote calls.
  A unary call puts a request into the dispatcher with a callback that fills the response
  and finishes the call; the callback is split off as a function from the result of the
  procedure to status and response. The number of the receiver stands for the gRPC
  reactor.
\<close>

text \<open>A status carries the exception whose \<^verbatim>\<open>what()\<close> is its message.\<close>

datatype grpc_status = OK | ABORTED exn | UNKNOWN exn

datatype response =
    NoResponse
  | BoolResponse bool
  | ProfileResponse BrewProfile
  | SettingsResponse UserSettings

section \<open>Callbacks\<close>

definition makeVoidCallback :: "exn + reply \<Rightarrow> grpc_status \<times> response" where
  "makeVoidCallback result =
     (case result of Inr _ \<Rightarrow> (OK, NoResponse) | Inl e \<Rightarrow> (ABORTED e, NoResponse))"

fun user_settings_callback :: "exn + reply \<Rightarrow> grpc_status \<times> response" where
  "user_settings_callback (Inr (Settings u)) = (OK, SettingsResponse u)"
| "user_settings_callback (Inl e) = (UNKNOWN e, NoResponse)"
| "user_settings_callback _ = (OK, NoResponse)"

fun brew_profile_callback :: "exn + reply \<Rightarrow> grpc_status \<times> response" where
  "brew_profile_callback (Inr (Profile p)) = (OK, ProfileResponse p)"
| "brew_profile_callback (Inl e) = (UNKNOWN e, NoResponse)"
| "brew_profile_callback _ = (OK, NoResponse)"

fun bool_callback :: "exn + reply \<Rightarrow> grpc_status \<times> response" where
  "bool_callback (Inr (Flag b)) = (OK, BoolResponse b)"
| "bool_callback (Inl e) = (UNKNOWN e, NoResponse)"
| "bool_callback _ = (OK, NoResponse)"

section \<open>Unary calls\<close>

definition service_resetScales :: "nat \<Rightarrow> ('d, 'z) dispatcher_stmt" where
  "service_resetScales reactor = resetWeight reactor"

definition service_getUserSettings :: "nat \<Rightarrow> ('d, 'z) dispatcher_stmt" where
  "service_getUserSettings reactor = getUserSettings reactor"

definition service_setUserSettings :: "UserSettings \<Rightarrow> nat \<Rightarrow> ('d, 'z) dispatcher_stmt" where
  "service_setUserSettings request reactor = setUserSettings request reactor"

definition service_getBrewProfile :: "nat \<Rightarrow> ('d, 'z) dispatcher_stmt" where
  "service_getBrewProfile reactor = getBrewProfile reactor"

definition service_setBrewProfile :: "BrewProfile \<Rightarrow> nat \<Rightarrow> ('d, 'z) dispatcher_stmt" where
  "service_setBrewProfile request reactor = setBrewProfile request reactor"

definition service_setPowerState :: "bool \<Rightarrow> nat \<Rightarrow> ('d, 'z) dispatcher_stmt" where
  "service_setPowerState request reactor = remote_setPowerState request reactor"

definition service_getPowerState :: "nat \<Rightarrow> ('d, 'z) dispatcher_stmt" where
  "service_getPowerState reactor = remote_getPowerState reactor"

definition service_startBrew :: "nat \<Rightarrow> ('d, 'z) dispatcher_stmt" where
  "service_startBrew reactor = remote_startBrew reactor"

definition service_stopBrew :: "nat \<Rightarrow> ('d, 'z) dispatcher_stmt" where
  "service_stopBrew reactor = remote_stopBrew reactor"

definition service_getBrewState :: "nat \<Rightarrow> ('d, 'z) dispatcher_stmt" where
  "service_getBrewState reactor = remote_getBrewState reactor"

definition service_setSteamModeState :: "bool \<Rightarrow> nat \<Rightarrow> ('d, 'z) dispatcher_stmt" where
  "service_setSteamModeState request reactor = remote_setSteamModeState request reactor"

definition service_getSteamModeState :: "nat \<Rightarrow> ('d, 'z) dispatcher_stmt" where
  "service_getSteamModeState reactor = remote_getSteamModeState reactor"

text \<open>The calls as data: what each one asks of the dispatcher and how it is finished.\<close>

datatype rpc =
    Rpc_resetScales
  | Rpc_getUserSettings
  | Rpc_setUserSettings UserSettings
  | Rpc_getBrewProfile
  | Rpc_setBrewProfile BrewProfile
  | Rpc_setPowerState bool
  | Rpc_getPowerState
  | Rpc_startBrew
  | Rpc_stopBrew
  | Rpc_getBrewState
  | Rpc_setSteamModeState bool
  | Rpc_getSteamModeState

fun rpc_request :: "rpc \<Rightarrow> nat \<Rightarrow> ('d, 'z) dispatcher_stmt" where
  "rpc_request Rpc_resetScales = service_resetScales"
| "rpc_request Rpc_getUserSettings = service_getUserSettings"
| "rpc_request (Rpc_setUserSettings u) = service_setUserSettings u"
| "rpc_request Rpc_getBrewProfile = service_getBrewProfile"
| "rpc_request (Rpc_setBrewProfile p) = service_setBrewProfile p"
| "rpc_request (Rpc_setPowerState b) = service_setPowerState b"
| "rpc_request Rpc_getPowerState = service_getPowerState"
| "rpc_request Rpc_startBrew = service_startBrew"
| "rpc_request Rpc_stopBrew = service_stopBrew"
| "rpc_request Rpc_getBrewState = service_getBrewState"
| "rpc_request (Rpc_setSteamModeState b) = service_setSteamModeState b"
| "rpc_request Rpc_getSteamModeState = service_getSteamModeState"

fun rpc_finish :: "rpc \<Rightarrow> exn + reply \<Rightarrow> grpc_status \<times> response" where
  "rpc_finish Rpc_getUserSettings = user_settings_callback"
| "rpc_finish Rpc_getBrewProfile = brew_profile_callback"
| "rpc_finish Rpc_getPowerState = bool_callback"
| "rpc_finish Rpc_getBrewState = bool_callback"
| "rpc_finish Rpc_getSteamModeState = bool_callback"
| "rpc_finish _ = makeVoidCallback"

section \<open>Streams\<close>

definition service_events :: "nat \<Rightarrow> ('d, 'z) dispatcher_stmt" where
  "service_events reactor = addEventsStreamReactor reactor"

text \<open>
  The update rate in nanoseconds is computed in 64 bits before the \<^verbatim>\<open>try\<close> block; overflow is
  undefined. Only a \<^verbatim>\<open>std::runtime_error\<close> is turned into a missing reactor.
\<close>

definition fits_int64 :: "int \<Rightarrow> bool" where
  "fits_int64 n \<longleftrightarrow> - (2 ^ 63) \<le> n \<and> n < 2 ^ 63"

definition update_rate :: "duration \<Rightarrow> exn + int" where
  "update_rate r =
     (let s = duration_seconds r * 1000000000; n = s + duration_nanos r
      in if fits_int64 s \<and> fits_int64 n then Inr n else Inl UndefinedBehaviour)"

definition service_metrics ::
    "('d, 'f) sensors \<Rightarrow> brew_timer \<Rightarrow> duration \<Rightarrow> PidSource \<Rightarrow>
     ('d, (('d, 'f) metrics_reactor \<times> int) option) prog" where
  "service_metrics S timer rate pidSource =
     bindp (lift_result (update_rate rate)) (\<lambda>updateRate. \<lambda>d.
       case MetricsStreamReactor_create S timer pidSource d of
         (d', Inl (RuntimeError _)) \<Rightarrow> (d', Inr None)
       | (d', Inl e) \<Rightarrow> (d', Inl e)
       | (d', Inr reactor) \<Rightarrow> (d', Inr (Some (reactor, updateRate))))"

section \<open>The server\<close>

text \<open>The addresses the server listens on.\<close>

definition buildServer :: "'c toml \<Rightarrow> 'c \<Rightarrow> exn + string list" where
  "buildServer T c =
     bindr (socketPath T c) (\<lambda>socket.
     bindr (tcpEnable T c) (\<lambda>tcp.
     if tcp then bindr (tcpBindAddress T c) (\<lambda>address. Inr [''unix:'' @ socket, address])
     else Inr [''unix:'' @ socket]))"

text \<open>
  The server, or none: \<^verbatim>\<open>BuildAndStart\<close> returns no server, without throwing, where it
  cannot listen on the addresses.
\<close>

definition ServiceManager_create ::
    "'c toml \<Rightarrow> 'c \<Rightarrow> (string list \<Rightarrow> bool) \<Rightarrow> exn + string list option" where
  "ServiceManager_create T c listens =
     bindr (buildServer T c) (\<lambda>addresses. Inr (if listens addresses then Some addresses else None))"

section \<open>Answers\<close>

definition void_answer :: "exn + unit \<Rightarrow> grpc_status \<times> response" where
  "void_answer r = (case r of Inr _ \<Rightarrow> (OK, NoResponse) | Inl e \<Rightarrow> (ABORTED e, NoResponse))"

text \<open>
  What a call that concerns the state of the machine is answered, and what it does to the
  machine, in terms of the abstract machine.
\<close>

fun rpc_machine :: "rpc \<Rightarrow> machine \<Rightarrow> (machine \<times> (grpc_status \<times> response)) option" where
  "rpc_machine Rpc_resetScales m = Some (m, void_answer (if brewing m
     then Inl (RuntimeError ''Cannot reset scale while brewing'') else Inr ()))"
| "rpc_machine (Rpc_setPowerState b) m =
     Some (fst (spec_setPower b m), void_answer (snd (spec_setPower b m)))"
| "rpc_machine Rpc_getPowerState m = Some (m, (OK, BoolResponse (powered m)))"
| "rpc_machine Rpc_startBrew m = Some (fst (spec_startBrew m), void_answer (snd (spec_startBrew m)))"
| "rpc_machine Rpc_stopBrew m = Some (fst (spec_stopBrew m), void_answer (snd (spec_stopBrew m)))"
| "rpc_machine Rpc_getBrewState m = Some (m, (OK, BoolResponse (brewing m)))"
| "rpc_machine (Rpc_setSteamModeState b) m =
     Some (fst (spec_setSteam b m), void_answer (snd (spec_setSteam b m)))"
| "rpc_machine Rpc_getSteamModeState m = Some (m, (OK, BoolResponse (steaming m)))"
| "rpc_machine _ _ = None"

fun rpc_procedure :: "rpc \<Rightarrow> procedure" where
  "rpc_procedure Rpc_resetScales = ResetScales"
| "rpc_procedure Rpc_getUserSettings = GetSettings"
| "rpc_procedure (Rpc_setUserSettings u) = SetSettings u"
| "rpc_procedure Rpc_getBrewProfile = GetProfile"
| "rpc_procedure (Rpc_setBrewProfile p) = SetProfile p"
| "rpc_procedure (Rpc_setPowerState b) = DoSetPower b"
| "rpc_procedure Rpc_getPowerState = GetPower"
| "rpc_procedure Rpc_startBrew = StartBrew"
| "rpc_procedure Rpc_stopBrew = StopBrew"
| "rpc_procedure Rpc_getBrewState = GetBrew"
| "rpc_procedure (Rpc_setSteamModeState b) = DoSetSteam b"
| "rpc_procedure Rpc_getSteamModeState = GetSteam"

lemma rpc_request_push: "rpc_request r i = push (WithCallback i (rpc_procedure r))"
  by (cases r) (simp_all add: service_resetScales_def resetWeight_def service_getUserSettings_def
      getUserSettings_def service_setUserSettings_def setUserSettings_def
      service_getBrewProfile_def getBrewProfile_def service_setBrewProfile_def setBrewProfile_def
      service_setPowerState_def remote_setPowerState_def service_getPowerState_def
      remote_getPowerState_def service_startBrew_def remote_startBrew_def service_stopBrew_def
      remote_stopBrew_def service_getBrewState_def remote_getBrewState_def
      service_setSteamModeState_def remote_setSteamModeState_def service_getSteamModeState_def
      remote_getSteamModeState_def executeWithCallback_def)

text \<open>A procedure of the machine: its effect, its result, and no results of its own.\<close>

definition answers ::
    "'d lib \<Rightarrow> (('d, 'z) dispatcher_scheme, reply) prog \<Rightarrow> (machine, unit) prog \<Rightarrow>
     ('d, 'z) dispatcher_scheme \<Rightarrow> bool" where
  "answers L m spec s \<longleftrightarrow>
     machine_of L (fst (m s)) = fst (spec (machine_of L s)) \<and>
     snd (m s) = map_sum id (\<lambda>_. Done) (snd (spec (machine_of L s))) \<and>
     results (fst (m s)) = results s"

lemma answers_implements:
  assumes "implements L m spec s" and "moves announces m"
  shows "answers L (finish m) spec s" "answers L (finish (block [m, notifyChanged e])) spec s"
proof -
  have r: "results (fst (m s)) = results s" by (rule announces_keep [OF assms(2)])
  with assms(1) show "answers L (finish m) spec s"
    by (simp add: answers_def implements_def finish_result)
  have k: "machine_of L (s\<lparr>m_eventsSinks := x\<rparr>) = machine_of L s" for x and s :: "('a, 'b) dispatcher_scheme"
    by (simp add: machine_of_def profilerActive_def deviceActive_def)
  have "block [m, notifyChanged e] s = (fst (m s), snd (m s)) \<or>
      block [m, notifyChanged e] s =
        ((fst (m s))\<lparr>m_eventsSinks := told e (m_eventsSinks (fst (m s)))\<rparr>, snd (m s))"
    by (cases "m s") (simp add: notifyChanged_told split: sum.split)
  then show "answers L (finish (block [m, notifyChanged e])) spec s"
    using r k assms(1) by (auto simp: answers_def implements_def finish_result simp del: block.simps)
qed

lemma answers_task:
  assumes "answers L (run_procedure L JP JS p) spec s"
    and "snd (spec (machine_of L s)) \<noteq> Inl UndefinedBehaviour"
  shows "results (fst (run_task L JP JS (WithCallback i p) s)) =
      results s @ [(i, map_sum id (\<lambda>_. Done) (snd (spec (machine_of L s))))]"
    and "machine_of L (fst (run_task L JP JS (WithCallback i p) s)) = fst (spec (machine_of L s))"
proof -
  have u: "map_sum id (\<lambda>_. Done) (snd (spec (machine_of L s))) \<noteq> Inl UndefinedBehaviour"
    using assms(2) by (cases "snd (spec (machine_of L s))") simp_all
  have "machine_of L (s\<lparr>results := x\<rparr>) = machine_of L s" for x and s :: "('a, 'b) dispatcher_scheme"
    by (simp add: machine_of_def profilerActive_def deviceActive_def)
  with u assms(1) show "results (fst (run_task L JP JS (WithCallback i p) s)) =
      results s @ [(i, map_sum id (\<lambda>_. Done) (snd (spec (machine_of L s))))]"
    and "machine_of L (fst (run_task L JP JS (WithCallback i p) s)) = fst (spec (machine_of L s))"
    by (simp_all add: answers_def run_task_eqs deliver_def act_def)
qed

lemma void_answer_Done: "makeVoidCallback (map_sum id (\<lambda>_. Done) r) = void_answer r"
  by (cases r) (simp_all add: makeVoidCallback_def void_answer_def)

lemma rpc_answered:
  assumes "machine_ok L s" and "rpc_machine r (machine_of L s) = Some (m', a)"
  shows "\<exists>v. results (fst (run_task L JP JS (WithCallback i (rpc_procedure r)) s)) =
      results s @ [(i, v)] \<and> rpc_finish r v = a \<and>
    machine_of L (fst (run_task L JP JS (WithCallback i (rpc_procedure r)) s)) = m'"
proof -
  have e: "machine_env L (m_readyHysteresisPeriod s)" "heaters_ok L s"
    using assms(1) by (simp_all add: machine_ok_def)
  have k: "machine_of L (s\<lparr>results := x\<rparr>) = machine_of L s" for x
    by (simp add: machine_of_def profilerActive_def deviceActive_def)
  have g: "run_task L JP JS (WithCallback i p) s = (s\<lparr>results := results s @ [(i, Inr (f s))]\<rparr>, Inr ())"
    if "run_procedure L JP JS p = get f" for p f
    using that by (simp add: run_task_eqs get_def deliver_def act_def)
  have task: "\<exists>v. results (fst (run_task L JP JS (WithCallback i p) s)) = results s @ [(i, v)] \<and>
      makeVoidCallback v = void_answer (snd (spec (machine_of L s))) \<and>
      machine_of L (fst (run_task L JP JS (WithCallback i p) s)) = fst (spec (machine_of L s))"
    if "answers L (run_procedure L JP JS p) spec s"
      "snd (spec (machine_of L s)) \<noteq> Inl UndefinedBehaviour" for p spec
    using answers_task [OF that, of i] void_answer_Done by blast
  show ?thesis
  proof (cases r)
    case Rpc_resetScales
    have "answers L (run_procedure L JP JS ResetScales)
        (spec_idle (RuntimeError ''Cannot reset scale while brewing'') (Inr ())) s"
      by (simp, rule answers_implements, rule resetScales_implements [OF e], rule announces_operations)
    from task [OF this] Rpc_resetScales assms(2) show ?thesis by (auto simp: spec_idle_def)
  next
    case (Rpc_setPowerState b)
    have "answers L (run_procedure L JP JS (DoSetPower b)) (spec_setPower b) s"
      by (simp add: doSetPowerState_def, rule answers_implements,
          rule setPowerState_implements [OF e], rule announces_operations)
    from task [OF this spec_defined(1)] Rpc_setPowerState assms(2) show ?thesis by auto
  next
    case Rpc_startBrew
    have "answers L (run_procedure L JP JS StartBrew) spec_startBrew s"
      by (simp, rule answers_implements, rule startBrew_implements [OF e], rule announces_operations)
    from task [OF this spec_defined(3)] Rpc_startBrew assms(2) show ?thesis by auto
  next
    case Rpc_stopBrew
    have "answers L (run_procedure L JP JS StopBrew) spec_stopBrew s"
      by (simp add: remoteStopBrew_def, rule answers_implements,
          rule stopBrew_implements [OF e], rule announces_operations)
    from task [OF this spec_defined(4)] Rpc_stopBrew assms(2) show ?thesis by auto
  next
    case (Rpc_setSteamModeState b)
    have "answers L (run_procedure L JP JS (DoSetSteam b)) (spec_setSteam b) s"
      by (simp add: doSetSteamModeState_def, rule answers_implements,
          rule setSteamModeState_implements [OF e], rule announces_operations)
    from task [OF this spec_defined(2)] Rpc_setSteamModeState assms(2) show ?thesis by auto
  qed (use assms(2) g k in auto)
qed

text \<open>
  C16: a remote call about the state of the machine, made when the queue is empty, has been
  finished after one round of the worker with the status and the response that the abstract
  machine prescribes: a refused operation is aborted with the reason, a query returns the
  state, and the machine has changed as the abstract machine has.
\<close>

theorem remote_calls_answered:
  assumes "machine_ok L s" and "outbox s = []"
    and "rpc_machine r (machine_of L s) = Some (m', a)"
  shows "let t = fst (worker_step L JP JS (fst (rpc_request r i s))) in
    (\<exists>v. results t = results s @ [(i, v)] \<and> rpc_finish r v = a) \<and> machine_of L t = m'"
proof -
  have "outbox (fst (rpc_request r i s)) = [WithCallback i (rpc_procedure r)]"
    "(fst (rpc_request r i s))\<lparr>outbox := []\<rparr> = s"
    using assms(2) by (simp_all add: rpc_request_push push_def act_def)
  then have "worker_step L JP JS (fst (rpc_request r i s)) =
      run_task L JP JS (WithCallback i (rpc_procedure r)) s"
    by (simp add: worker_step_def)
  with rpc_answered [OF assms(1,3), of JP JS i] show ?thesis by (auto simp: Let_def)
qed

theorem remote_calls_answered_witness:
  "\<exists>v. results (fst (worker_step sim_lib (one_json empty_profile)
       (one_json (makeDefaultSettings 0)) (fst (rpc_request (Rpc_setSteamModeState True) 9 (sample_on True)))))
     = [(9, v)] \<and>
     rpc_finish (Rpc_setSteamModeState True) v =
       (ABORTED (RuntimeError ''Cannot switch to steam mode while brewing''), NoResponse)"
proof -
  have ok: "machine_ok sim_lib (sample_on True)" and q: "outbox (sample_on True) = []"
    by (simp_all add: machine_ok_def sample_on_ok)
      (simp add: sample_on_def sample_dispatcher_def sample_manager_def state_manager.defs)
  have m: "machine_of sim_lib (sample_on True) = \<lparr>powered = True, steaming = False, brewing = True\<rparr>"
    using sample_on_ok(3,4,5) [of True]
    by (simp add: machine_of_def getPowerState_def getSteamModeState_def getBrewState_def)
  have "rpc_machine (Rpc_setSteamModeState True) (machine_of sim_lib (sample_on True)) =
      Some (\<lparr>powered = True, steaming = False, brewing = True\<rparr>,
        (ABORTED (RuntimeError ''Cannot switch to steam mode while brewing''), NoResponse))"
    by (simp add: m spec_setSteam_def void_answer_def)
  from remote_calls_answered [OF ok q this] show ?thesis
    by (simp add: Let_def sample_on_ok)
qed

text \<open>
  C38: a client that asks for an update rate by the protobuf duration of a time gets that
  time as the period of its stream, for every time that fits 64 bits of nanoseconds.
\<close>

theorem update_rate_exact:
  assumes "fits_int64 ns"
  shows "update_rate (toProtoDuration ns) = Inr ns"
proof -
  let ?s = "cdiv ns 1000000000 * 1000000000"
  have d: "duration_seconds (toProtoDuration ns) * 1000000000 = ?s"
    by (simp add: toProtoDuration_def Let_def)
  have "0 \<le> ns \<and> 0 \<le> ?s \<and> ?s \<le> ns \<or> ns \<le> ?s \<and> ?s \<le> 0"
    using cdiv_rest(2,3) [of 1000000000 ns] by (cases "0 \<le> ns") (auto simp: cdiv_def sgn_if)
  with assms have "fits_int64 ?s" by (auto simp: fits_int64_def)
  moreover have "?s + duration_nanos (toProtoDuration ns) = ns"
    using toProtoDuration_exact [of ns] d by simp
  ultimately show ?thesis
    using assms by (simp add: update_rate_def d Let_def)
qed

theorem update_rate_exact_witness:
  "update_rate (toProtoDuration (- 1500000000)) = Inr (- 1500000000)"
  by (rule update_rate_exact) (simp add: fits_int64_def)

end
