(* ===== verification/ConfigMaker.thy ===== *)
theory ConfigMaker
  imports Config Labels
begin

text \<open>
  \<^verbatim>\<open>config/libopenpresso_config_maker\<close>: the device configuration for libopenpresso, a list
  of labelled components that refer to each other by label, made from the daemon's
  configuration. The configuration types are those of \<^verbatim>\<open>libopenpresso/component_config.hpp\<close>
  as the code fills them in, in the order of their fields. The first value that cannot be
  read ends the construction with its exception.
\<close>

datatype component_config =
    Ads1115PressureSensor string int string int
  | Max31856TemperatureSensor string string int int int
  | Nau7802WeightSensor string int string int int int
  | AcZeroCrossSensor string int
  | VibroPumpFlowSensor label label int int
  | LogicalInputPin string int int string bool
  | LogicalOutputPin string int bool bool
  | PulseControlledDevice string int label
  | PulsePowerController label nat
  | PulsePressureController label label
  | IntegralFlowRateController label label float32
  | VibroPumpFlowController label int
  | TemperaturePidController label label pid_settings bool "label option"
  | BrewProfiler int label label label label
  | SteamController int int int int label label label label label

record watchdog_config =
  watchdogDev :: string
  watchdog_timeout :: int

record device_config =
  device_components :: "(label \<times> component_config) list"
  device_watchdog :: "watchdog_config option"

section \<open>Constants\<close>

definition BREW_PROFILER_STATE_UPDATE_PERIOD :: int where
  "BREW_PROFILER_STATE_UPDATE_PERIOD = 50"
definition STEAM_CONTROLLER_STATE_UPDATE_PERIOD :: int where
  "STEAM_CONTROLLER_STATE_UPDATE_PERIOD = 250"
definition PUMP_POWER_DUTY_CYCLE :: nat where
  "PUMP_POWER_DUTY_CYCLE = 16"
definition HEATER_POWER_DUTY_CYCLE :: nat where
  "HEATER_POWER_DUTY_CYCLE = 64"
definition STEAM_TEMPERATURE_THRESHOLD_OFFSET :: int where
  "STEAM_TEMPERATURE_THRESHOLD_OFFSET = 10000"

section \<open>Components\<close>

definition makePressureSensorConfig ::
    "'c toml \<Rightarrow> 'c \<Rightarrow> exn + label \<times> component_config" where
  "makePressureSensorConfig T c =
     bindr (i2cBus T c) (\<lambda>bus.
     bindr (pressureSensorI2cAddr T c) (\<lambda>addr.
     bindr (gpioChip T c) (\<lambda>chip.
     bindr (pressureSensorSignalPin T c) (\<lambda>pin.
       Inr (PRESSURE_SENSOR_LABEL, Ads1115PressureSensor bus addr chip pin)))))"

definition makeTemperatureSensorConfig ::
    "'c toml \<Rightarrow> 'c \<Rightarrow> exn + label \<times> component_config" where
  "makeTemperatureSensorConfig T c =
     bindr (temperatureSensorSpiAddr T c) (\<lambda>spi.
     bindr (gpioChip T c) (\<lambda>chip.
     bindr (temperatureSensorSignalPin T c) (\<lambda>pin.
     bindr (watchdogTemperatureLimit T c) (\<lambda>limit.
       Inr (TEMPERATURE_SENSOR_LABEL, Max31856TemperatureSensor spi chip pin 0 limit)))))"

definition makeWeightSensorConfig ::
    "'c toml \<Rightarrow> 'c \<Rightarrow> exn + label \<times> component_config" where
  "makeWeightSensorConfig T c =
     bindr (i2cBus T c) (\<lambda>bus.
     bindr (weightSensorI2cAddr T c) (\<lambda>addr.
     bindr (gpioChip T c) (\<lambda>chip.
     bindr (weightSensorSignalPin T c) (\<lambda>pin.
     bindr (weightSensorScale T c) (\<lambda>scale.
     bindr (weightSensorFilterTiming T c) (\<lambda>smoothing.
       Inr (WEIGHT_SENSOR_LABEL, Nau7802WeightSensor bus addr chip pin scale smoothing)))))))"

definition makeAcSensorConfig ::
    "'c toml \<Rightarrow> 'c \<Rightarrow> exn + label \<times> component_config" where
  "makeAcSensorConfig T c =
     bindr (gpioChip T c) (\<lambda>chip.
     bindr (mainsZeroCrossPin T c) (\<lambda>pin.
       Inr (AC_SENSOR_LABEL, AcZeroCrossSensor chip pin)))"

definition makeInternalFlowSensorConfig ::
    "'c toml \<Rightarrow> 'c \<Rightarrow> exn + label \<times> component_config" where
  "makeInternalFlowSensorConfig T c =
     bindr (pumpVolumePerPulse T c) (\<lambda>volume.
     bindr (pumpStallPressure T c) (\<lambda>stall.
       Inr (INTERNAL_FLOW_SENSOR_LABEL, VibroPumpFlowSensor PRESSURE_SENSOR_LABEL PUMP_DRIVER_LABEL volume stall)))"

definition makeButtonConfig ::
    "'c toml \<Rightarrow> 'c \<Rightarrow> label \<Rightarrow> exn + int \<Rightarrow> exn + label \<times> component_config" where
  "makeButtonConfig T c lab signalPin =
     bindr signalPin (\<lambda>pin.
     bindr (gpioChip T c) (\<lambda>chip.
     bindr (buttonsDebouncePeriod T c) (\<lambda>debounce.
     bindr (buttonsPullMode T c) (\<lambda>pull.
     bindr (buttonsLogicInverted T c) (\<lambda>inverted.
       Inr (lab, LogicalInputPin chip pin debounce pull inverted))))))"

definition makeLedConfig ::
    "'c toml \<Rightarrow> 'c \<Rightarrow> label \<Rightarrow> exn + int \<Rightarrow> exn + label \<times> component_config" where
  "makeLedConfig T c lab outputPin =
     bindr outputPin (\<lambda>pin.
     bindr (gpioChip T c) (\<lambda>chip.
     bindr (ledsLogicInverted T c) (\<lambda>inverted.
       Inr (lab, LogicalOutputPin chip pin False inverted))))"

definition makePumpDriverConfig ::
    "'c toml \<Rightarrow> 'c \<Rightarrow> exn + label \<times> component_config" where
  "makePumpDriverConfig T c =
     bindr (gpioChip T c) (\<lambda>chip.
     bindr (pumpOutputPin T c) (\<lambda>pin.
       Inr (PUMP_DRIVER_LABEL, PulseControlledDevice chip pin AC_SENSOR_LABEL)))"

definition makeHeaterDriverConfig ::
    "'c toml \<Rightarrow> 'c \<Rightarrow> exn + label \<times> component_config" where
  "makeHeaterDriverConfig T c =
     bindr (gpioChip T c) (\<lambda>chip.
     bindr (heaterOutputPin T c) (\<lambda>pin.
       Inr (HEATER_DRIVER_LABEL, PulseControlledDevice chip pin AC_SENSOR_LABEL)))"

definition makeValveDriverConfig ::
    "'c toml \<Rightarrow> 'c \<Rightarrow> exn + label \<times> component_config" where
  "makeValveDriverConfig T c =
     bindr (gpioChip T c) (\<lambda>chip.
     bindr (valveOutputPin T c) (\<lambda>pin.
       Inr (VALVE_DRIVER_LABEL, LogicalOutputPin chip pin False False)))"

definition makePumpPowerControllerConfig :: "exn + label \<times> component_config" where
  "makePumpPowerControllerConfig =
     Inr (PUMP_POWER_CONTROLLER_LABEL, PulsePowerController PUMP_DRIVER_LABEL PUMP_POWER_DUTY_CYCLE)"

definition makeHeaterPowerControllerConfig :: "exn + label \<times> component_config" where
  "makeHeaterPowerControllerConfig =
     Inr (HEATER_POWER_CONTROLLER_LABEL, PulsePowerController HEATER_DRIVER_LABEL HEATER_POWER_DUTY_CYCLE)"

definition makePressureControllerConfig :: "exn + label \<times> component_config" where
  "makePressureControllerConfig =
     Inr (PRESSURE_CONTROLLER_LABEL, PulsePressureController PUMP_DRIVER_LABEL PRESSURE_SENSOR_LABEL)"

definition makeFlowRateControllerConfig ::
    "'c toml \<Rightarrow> 'c \<Rightarrow> exn + label \<times> component_config" where
  "makeFlowRateControllerConfig T c =
     bindr (flowControllerMultiplier T c) (\<lambda>coef.
       Inr (FLOW_RATE_CONTROLLER_LABEL, IntegralFlowRateController PUMP_POWER_CONTROLLER_LABEL WEIGHT_SENSOR_LABEL coef))"

definition makeInternalFlowRateControllerConfig ::
    "'c toml \<Rightarrow> 'c \<Rightarrow> exn + label \<times> component_config" where
  "makeInternalFlowRateControllerConfig T c =
     bindr (mainsFrequency T c) (\<lambda>frequency.
       Inr (INTERNAL_FLOW_RATE_CONTROLLER_LABEL, VibroPumpFlowController INTERNAL_FLOW_SENSOR_LABEL frequency))"

definition makeBrewTemperatureControllerConfig ::
    "'c toml \<Rightarrow> 'c \<Rightarrow> exn + label \<times> component_config" where
  "makeBrewTemperatureControllerConfig T c =
     bindr (brewTemperatureControllerPidSettings T c) (\<lambda>pid.
     bindr (pidStateMonitoringEnabled T c) (\<lambda>dump.
       Inr (BREW_TEMPERATURE_CONTROLLER_LABEL, TemperaturePidController HEATER_POWER_CONTROLLER_LABEL
          TEMPERATURE_SENSOR_LABEL pid dump (Some INTERNAL_FLOW_SENSOR_LABEL))))"

definition makeSteamPreheatTemperatureControllerConfig ::
    "'c toml \<Rightarrow> 'c \<Rightarrow> exn + label \<times> component_config" where
  "makeSteamPreheatTemperatureControllerConfig T c =
     bindr (steamPreheatTemperatureControllerPidSettings T c) (\<lambda>pid.
     bindr (pidStateMonitoringEnabled T c) (\<lambda>dump.
       Inr (STEAM_PREHEAT_TEMPERATURE_CONTROLLER_LABEL, TemperaturePidController HEATER_POWER_CONTROLLER_LABEL
          TEMPERATURE_SENSOR_LABEL pid dump None)))"

definition makeSteamActiveTemperatureControllerConfig ::
    "'c toml \<Rightarrow> 'c \<Rightarrow> exn + label \<times> component_config" where
  "makeSteamActiveTemperatureControllerConfig T c =
     bindr (steamActiveTemperatureControllerPidSettings T c) (\<lambda>pid.
     bindr (pidStateMonitoringEnabled T c) (\<lambda>dump.
       Inr (STEAM_ACTIVE_TEMPERATURE_CONTROLLER_LABEL, TemperaturePidController HEATER_POWER_CONTROLLER_LABEL
          TEMPERATURE_SENSOR_LABEL pid dump None)))"

definition makeBrewProfilerConfig :: "'c toml \<Rightarrow> exn + label \<times> component_config" where
  "makeBrewProfilerConfig T =
     Inr (BREW_PROFILER_LABEL, BrewProfiler (time_ticks T BREW_PROFILER_STATE_UPDATE_PERIOD 1000)
       PRESSURE_CONTROLLER_LABEL FLOW_RATE_CONTROLLER_LABEL VALVE_DRIVER_LABEL
       WEIGHT_SENSOR_LABEL)"

definition makeSteamControllerConfig ::
    "'c toml \<Rightarrow> 'c \<Rightarrow> exn + label \<times> component_config" where
  "makeSteamControllerConfig T c =
     bindr (steamPressureThreshold T c) (\<lambda>threshold.
     bindr (steamRefillFlow T c) (\<lambda>refill.
       Inr (STEAM_CONTROLLER_LABEL, SteamController threshold STEAM_TEMPERATURE_THRESHOLD_OFFSET refill
          (time_ticks T STEAM_CONTROLLER_STATE_UPDATE_PERIOD 1000)
          STEAM_PREHEAT_TEMPERATURE_CONTROLLER_LABEL STEAM_ACTIVE_TEMPERATURE_CONTROLLER_LABEL
          TEMPERATURE_SENSOR_LABEL PRESSURE_SENSOR_LABEL INTERNAL_FLOW_RATE_CONTROLLER_LABEL)))"

definition makeWatchdogConfig ::
    "'c toml \<Rightarrow> 'c \<Rightarrow> exn + watchdog_config option" where
  "makeWatchdogConfig T c =
     bindr (watchdogEnabled T c) (\<lambda>enabled.
     if enabled then
       bindr (watchdogDevice T c) (\<lambda>device.
       bindr (watchdogTimeout T c) (\<lambda>timeout.
         Inr (Some \<lparr>watchdogDev = device, watchdog_timeout = timeout\<rparr>)))
     else Inr None)"

definition component_makers ::
    "'c toml \<Rightarrow> 'c \<Rightarrow> (exn + label \<times> component_config) list" where
  "component_makers T c =
     [makePressureSensorConfig T c,
      makeTemperatureSensorConfig T c,
      makeWeightSensorConfig T c,
      makeAcSensorConfig T c,
      makeInternalFlowSensorConfig T c,
      makeButtonConfig T c POWER_BUTTON_LABEL (powerButtonSignalPin T c),
      makeButtonConfig T c BREW_BUTTON_LABEL (brewButtonSignalPin T c),
      makeButtonConfig T c STEAM_BUTTON_LABEL (steamButtonSignalPin T c),
      makeLedConfig T c POWER_LED_LABEL (powerLedOutputPin T c),
      makeLedConfig T c BREW_LED_LABEL (brewLedOutputPin T c),
      makeLedConfig T c STEAM_LED_LABEL (steamLedOutputPin T c),
      makePumpDriverConfig T c,
      makeHeaterDriverConfig T c,
      makeValveDriverConfig T c,
      makePumpPowerControllerConfig,
      makeHeaterPowerControllerConfig,
      makePressureControllerConfig,
      makeFlowRateControllerConfig T c,
      makeInternalFlowRateControllerConfig T c,
      makeBrewTemperatureControllerConfig T c,
      makeSteamPreheatTemperatureControllerConfig T c,
      makeSteamActiveTemperatureControllerConfig T c,
      makeBrewProfilerConfig T,
      makeSteamControllerConfig T c]"

definition make :: "'c toml \<Rightarrow> 'c \<Rightarrow> exn + device_config" where
  "make T c =
     bindr (map_result (\<lambda>r. r) (component_makers T c)) (\<lambda>components.
     bindr (makeWatchdogConfig T c) (\<lambda>watchdog.
       Inr \<lparr>device_components = components, device_watchdog = watchdog\<rparr>))"

section \<open>References between components\<close>

datatype kind =
    KPressureSensor | KTemperatureSensor | KWeightSensor | KAcSensor | KFlowSensor
  | KInput | KOutput | KPulseDevice | KPowerController | KPressureController
  | KFlowController | KTemperatureController | KProfiler | KSteamController

fun kind_of :: "component_config \<Rightarrow> kind" where
  "kind_of (Ads1115PressureSensor _ _ _ _) = KPressureSensor"
| "kind_of (Max31856TemperatureSensor _ _ _ _ _) = KTemperatureSensor"
| "kind_of (Nau7802WeightSensor _ _ _ _ _ _) = KWeightSensor"
| "kind_of (AcZeroCrossSensor _ _) = KAcSensor"
| "kind_of (VibroPumpFlowSensor _ _ _ _) = KFlowSensor"
| "kind_of (LogicalInputPin _ _ _ _ _) = KInput"
| "kind_of (LogicalOutputPin _ _ _ _) = KOutput"
| "kind_of (PulseControlledDevice _ _ _) = KPulseDevice"
| "kind_of (PulsePowerController _ _) = KPowerController"
| "kind_of (PulsePressureController _ _) = KPressureController"
| "kind_of (IntegralFlowRateController _ _ _) = KFlowController"
| "kind_of (VibroPumpFlowController _ _) = KFlowController"
| "kind_of (TemperaturePidController _ _ _ _ _) = KTemperatureController"
| "kind_of (BrewProfiler _ _ _ _ _) = KProfiler"
| "kind_of (SteamController _ _ _ _ _ _ _ _ _) = KSteamController"

fun references :: "component_config \<Rightarrow> (label \<times> kind) list" where
  "references (VibroPumpFlowSensor pressure pump _ _) =
     [(pressure, KPressureSensor), (pump, KPulseDevice)]"
| "references (PulseControlledDevice _ _ ac) = [(ac, KAcSensor)]"
| "references (PulsePowerController device _) = [(device, KPulseDevice)]"
| "references (PulsePressureController device sensor) =
     [(device, KPulseDevice), (sensor, KPressureSensor)]"
| "references (IntegralFlowRateController ctrl sensor _) =
     [(ctrl, KPowerController), (sensor, KWeightSensor)]"
| "references (VibroPumpFlowController sensor _) = [(sensor, KFlowSensor)]"
| "references (TemperaturePidController ctrl sensor _ _ flow) =
     [(ctrl, KPowerController), (sensor, KTemperatureSensor)] @
     (case flow of None \<Rightarrow> [] | Some f \<Rightarrow> [(f, KFlowSensor)])"
| "references (BrewProfiler _ pressure flow valve weight) =
     [(pressure, KPressureController), (flow, KFlowController), (valve, KOutput),
      (weight, KWeightSensor)]"
| "references (SteamController _ _ _ _ preheat steaming temperature pressure flow) =
     [(preheat, KTemperatureController), (steaming, KTemperatureController),
      (temperature, KTemperatureSensor), (pressure, KPressureSensor), (flow, KFlowController)]"
| "references _ = []"

text \<open>How deep a component stands in the hierarchy of references.\<close>

fun level :: "kind \<Rightarrow> nat" where
  "level KProfiler = 5" | "level KSteamController = 5"
| "level KTemperatureController = 4" | "level KFlowController = 4"
| "level KPressureController = 4"
| "level KFlowSensor = 3" | "level KPowerController = 2" | "level KPulseDevice = 1"
| "level _ = 0"

text \<open>The kind of component that stands behind each label.\<close>

definition device_kinds :: "(label \<times> kind) list" where
  "device_kinds =
     [(PRESSURE_SENSOR_LABEL, KPressureSensor), (TEMPERATURE_SENSOR_LABEL, KTemperatureSensor),
      (WEIGHT_SENSOR_LABEL, KWeightSensor), (AC_SENSOR_LABEL, KAcSensor),
      (INTERNAL_FLOW_SENSOR_LABEL, KFlowSensor),
      (POWER_BUTTON_LABEL, KInput), (BREW_BUTTON_LABEL, KInput), (STEAM_BUTTON_LABEL, KInput),
      (POWER_LED_LABEL, KOutput), (BREW_LED_LABEL, KOutput), (STEAM_LED_LABEL, KOutput),
      (PUMP_DRIVER_LABEL, KPulseDevice), (HEATER_DRIVER_LABEL, KPulseDevice),
      (VALVE_DRIVER_LABEL, KOutput),
      (PUMP_POWER_CONTROLLER_LABEL, KPowerController),
      (HEATER_POWER_CONTROLLER_LABEL, KPowerController),
      (PRESSURE_CONTROLLER_LABEL, KPressureController),
      (FLOW_RATE_CONTROLLER_LABEL, KFlowController),
      (INTERNAL_FLOW_RATE_CONTROLLER_LABEL, KFlowController),
      (BREW_TEMPERATURE_CONTROLLER_LABEL, KTemperatureController),
      (STEAM_PREHEAT_TEMPERATURE_CONTROLLER_LABEL, KTemperatureController),
      (STEAM_ACTIVE_TEMPERATURE_CONTROLLER_LABEL, KTemperatureController),
      (BREW_PROFILER_LABEL, KProfiler), (STEAM_CONTROLLER_LABEL, KSteamController)]"

lemma device_kinds_distinct: "distinct (map fst device_kinds)"
  by (simp add: device_kinds_def label_defs)

lemma map_result_Inr_all2:
  "map_result (\<lambda>r. r) rs = Inr xs \<longleftrightarrow> list_all2 (\<lambda>r x. r = Inr x) rs xs"
proof (induction rs arbitrary: xs)
  case Nil
  show ?case by auto
next
  case (Cons r rs)
  show ?case
    by (cases r; cases "map_result (\<lambda>r. r) rs") (auto simp: list_all2_Cons1 simp flip: Cons.IH)
qed

lemmas makers =
  makePressureSensorConfig_def makeTemperatureSensorConfig_def makeWeightSensorConfig_def
  makeAcSensorConfig_def makeInternalFlowSensorConfig_def makeButtonConfig_def makeLedConfig_def
  makePumpDriverConfig_def makeHeaterDriverConfig_def makeValveDriverConfig_def
  makePumpPowerControllerConfig_def makeHeaterPowerControllerConfig_def
  makePressureControllerConfig_def makeFlowRateControllerConfig_def
  makeInternalFlowRateControllerConfig_def makeBrewTemperatureControllerConfig_def
  makeSteamPreheatTemperatureControllerConfig_def makeSteamActiveTemperatureControllerConfig_def
  makeBrewProfilerConfig_def makeSteamControllerConfig_def

definition references_ok :: "label \<times> component_config \<Rightarrow> bool" where
  "references_ok x \<longleftrightarrow>
     (\<forall>(r, k) \<in> set (references (snd x)).
        (r, k) \<in> set device_kinds \<and> level k < level (kind_of (snd x)))"

text \<open>Every maker makes the component its label stands for, with references that fit.\<close>

definition maker_ok :: "label \<times> kind \<Rightarrow> exn + label \<times> component_config \<Rightarrow> bool" where
  "maker_ok lk r \<longleftrightarrow>
     (\<forall>x. r = Inr x \<longrightarrow> fst x = fst lk \<and> kind_of (snd x) = snd lk \<and> references_ok x)"

lemma maker_ok_bindr: "(\<And>x. maker_ok lk (k x)) \<Longrightarrow> maker_ok lk (bindr r k)"
  by (cases r) (simp_all add: maker_ok_def)

lemma maker_ok_Inr:
  "l' = l \<Longrightarrow> kind_of x = k \<Longrightarrow> references_ok (l, x) \<Longrightarrow> maker_ok (l, k) (Inr (l', x))"
  by (simp add: maker_ok_def)

lemma makers_ok: "list_all2 maker_ok device_kinds (component_makers T c)"
  unfolding component_makers_def device_kinds_def list_all2_Cons makers
  by (intro conjI maker_ok_bindr maker_ok_Inr list_all2_Nil [THEN iffD2] refl)
    (simp_all add: references_ok_def device_kinds_def)

lemma made_components:
  assumes "make T c = Inr dc"
  shows "list_all2 (\<lambda>lk x. fst x = fst lk \<and> kind_of (snd x) = snd lk \<and> references_ok x)
    device_kinds (device_components dc)"
proof -
  have "map_result (\<lambda>r. r) (component_makers T c) = Inr (device_components dc)"
    using assms by (auto simp: make_def bindr_Inr)
  then have "list_all2 (\<lambda>r x. r = Inr x) (component_makers T c) (device_components dc)"
    by (simp only: map_result_Inr_all2)
  with makers_ok [of T c] show ?thesis
    by (rule list_all2_trans [rotated]) (simp add: maker_ok_def)
qed

text \<open>
  C20: the configuration that is handed to libopenpresso names every component once, under
  exactly the labels the program uses, each of the kind the label stands for; every
  reference is to a label of the configuration whose component is of the kind the field
  wants, and references only go down the levels, so there is no cycle.
\<close>

theorem device_config_consistent:
  assumes "make T c = Inr dc"
  shows "map (\<lambda>x. (fst x, kind_of (snd x))) (device_components dc) = device_kinds \<and>
    distinct (map fst (device_components dc)) \<and>
    (\<forall>x \<in> set (device_components dc). \<forall>(r, k) \<in> set (references (snd x)).
       \<exists>y \<in> set (device_components dc).
         fst y = r \<and> kind_of (snd y) = k \<and> level (kind_of (snd y)) < level (kind_of (snd x)))"
proof -
  note l = made_components [OF assms]
  have m: "map (\<lambda>x. (fst x, kind_of (snd x))) (device_components dc) = device_kinds"
    using l by (intro nth_equalityI) (auto simp: list_all2_conv_all_nth prod_eq_iff)
  then have "map fst (device_components dc) = map fst device_kinds"
    by (metis (mono_tags, lifting) comp_apply fst_conv map_eq_conv map_map)
  then have "distinct (map fst (device_components dc))" using device_kinds_distinct by simp
  moreover have ro: "references_ok x" if "x \<in> set (device_components dc)" for x
    using l that by (auto simp: list_all2_conv_all_nth in_set_conv_nth)
  then have "\<exists>y \<in> set (device_components dc).
      fst y = r \<and> kind_of (snd y) = k \<and> level (kind_of (snd y)) < level (kind_of (snd x))"
    if "x \<in> set (device_components dc)" and "(r, k) \<in> set (references (snd x))" for x r k
  proof -
    have "(r, k) \<in> set device_kinds" and n: "level k < level (kind_of (snd x))"
      using ro [OF that(1)] that(2) by (auto simp: references_ok_def)
    then have "(r, k) \<in> set (map (\<lambda>x. (fst x, kind_of (snd x))) (device_components dc))"
      by (simp only: m)
    with n show ?thesis by auto
  qed
  ultimately show ?thesis using m by blast
qed

section \<open>Which files give a device configuration\<close>

datatype toml_type = StringType | BoolType | IntType | FloatType | TimeType

fun type_of :: "toml_entry \<Rightarrow> toml_type" where
  "type_of (TString _) = StringType"
| "type_of (TBool _) = BoolType"
| "type_of (TInt _) = IntType"
| "type_of (TFloat _) = FloatType"
| "type_of (TTime _) = TimeType"

definition required_keys :: "(string list \<times> toml_type) list" where
  "required_keys =
     [([''global'', ''mains_frequency''], IntType), ([''global'', ''mains_zc_pin''], IntType),
      ([''buttons'', ''power_pin''], IntType), ([''buttons'', ''brew_pin''], IntType),
      ([''buttons'', ''steam_pin''], IntType), ([''leds'', ''power_pin''], IntType),
      ([''leds'', ''brew_pin''], IntType), ([''leds'', ''steam_pin''], IntType),
      ([''pressure_sensor'', ''signal_pin''], IntType), ([''weight_sensor'', ''scale''], IntType),
      ([''weight_sensor'', ''signal_pin''], IntType),
      ([''temperature_sensor'', ''signal_pin''], IntType),
      ([''pump'', ''flow_controller_multiplier''], FloatType),
      ([''pump'', ''control_pin''], IntType), ([''pump'', ''volume_per_pulse''], IntType),
      ([''pump'', ''stall_pressure''], IntType), ([''valve'', ''control_pin''], IntType),
      ([''heater'', ''control_pin''], IntType)] @
     map (\<lambda>k. ([''brew'', ''pid_settings'', k], FloatType))
       [''p'', ''d'', ''d_relax'', ''i'', ''i_relax'', ''f'', ''w'', ''w_decay''] @
     map (\<lambda>k. ([''steam'', ''preheat_pid_settings'', k], FloatType))
       [''p'', ''d'', ''d_relax'', ''i'', ''i_relax''] @
     map (\<lambda>k. ([''steam'', ''active_pid_settings'', k], FloatType))
       [''p'', ''d'', ''d_relax'', ''i'', ''i_relax'']"

definition optional_keys :: "(string list \<times> toml_type) list" where
  "optional_keys =
     [([''global'', ''i2c_bus''], StringType), ([''global'', ''gpio_chip''], StringType),
      ([''global'', ''pid_state_monitoring_enabled''], BoolType),
      ([''watchdog'', ''enabled''], BoolType), ([''watchdog'', ''device_path''], StringType),
      ([''watchdog'', ''timeout''], TimeType), ([''watchdog'', ''temperature_limit''], IntType),
      ([''buttons'', ''inverted''], BoolType), ([''buttons'', ''pull_mode''], StringType),
      ([''buttons'', ''debounce_period''], TimeType), ([''leds'', ''inverted''], BoolType),
      ([''pressure_sensor'', ''i2c_addr''], IntType), ([''weight_sensor'', ''i2c_addr''], IntType),
      ([''weight_sensor'', ''filter_timing''], TimeType),
      ([''temperature_sensor'', ''filter_timing''], TimeType),
      ([''temperature_sensor'', ''spi_addr''], StringType),
      ([''steam'', ''pressure_threshold''], IntType), ([''steam'', ''refill_flow''], IntType)]"

text \<open>What the file holds is of the right type, and the pull mode is one libopenpresso knows.\<close>

definition well_typed :: "'c toml \<Rightarrow> 'c \<Rightarrow> bool" where
  "well_typed T c \<longleftrightarrow>
     (\<forall>(p, ty) \<in> set (required_keys @ optional_keys).
        \<forall>v. entry T c p = Some v \<longrightarrow> type_of v = ty) \<and>
     (case entry T c [''buttons'', ''pull_mode''] of
        Some (TString s) \<Rightarrow> s \<in> pull_names T
      | _ \<Rightarrow> DEFAULT_BUTTONS_PULL_MODE \<in> pull_names T)"

lemma type_of_cases:
  "type_of v = StringType \<longleftrightarrow> (\<exists>s. v = TString s)" "type_of v = BoolType \<longleftrightarrow> (\<exists>b. v = TBool b)"
  "type_of v = IntType \<longleftrightarrow> (\<exists>n. v = TInt n)" "type_of v = FloatType \<longleftrightarrow> (\<exists>x. v = TFloat x)"
  "type_of v = TimeType \<longleftrightarrow> (\<exists>n. v = TTime n)"
  by (cases v; simp)+

lemma typed_entry:
  assumes "well_typed T c" and "(p, ty) \<in> set (required_keys @ optional_keys)"
  shows "ty = StringType \<Longrightarrow> entry T c p = None \<or> (\<exists>s. entry T c p = Some (TString s))"
    "ty = BoolType \<Longrightarrow> entry T c p = None \<or> (\<exists>b. entry T c p = Some (TBool b))"
    "ty = IntType \<Longrightarrow> entry T c p = None \<or> (\<exists>n. entry T c p = Some (TInt n))"
    "ty = FloatType \<Longrightarrow> entry T c p = None \<or> (\<exists>x. entry T c p = Some (TFloat x))"
    "ty = TimeType \<Longrightarrow> entry T c p = None \<or> (\<exists>n. entry T c p = Some (TTime n))"
proof -
  have t: "entry T c p = Some v \<Longrightarrow> type_of v = ty" for v
    using assms unfolding well_typed_def by blast
  show "ty = StringType \<Longrightarrow> entry T c p = None \<or> (\<exists>s. entry T c p = Some (TString s))"
    "ty = BoolType \<Longrightarrow> entry T c p = None \<or> (\<exists>b. entry T c p = Some (TBool b))"
    "ty = IntType \<Longrightarrow> entry T c p = None \<or> (\<exists>n. entry T c p = Some (TInt n))"
    "ty = FloatType \<Longrightarrow> entry T c p = None \<or> (\<exists>x. entry T c p = Some (TFloat x))"
    "ty = TimeType \<Longrightarrow> entry T c p = None \<or> (\<exists>n. entry T c p = Some (TTime n))"
    by (cases "entry T c p"; simp; frule t; simp add: type_of_cases)+
qed

lemma find_optional:
  assumes "toml_laws T" and "well_typed T c"
  shows "(p, StringType) \<in> set optional_keys \<Longrightarrow> \<exists>x. find_or_string T c p s = Inr x"
    "(p, BoolType) \<in> set optional_keys \<Longrightarrow> \<exists>x. find_or_bool T c p b = Inr x"
    "(p, IntType) \<in> set optional_keys \<Longrightarrow> \<exists>x. find_or_int T c p n = Inr x"
    "(p, TimeType) \<in> set optional_keys \<Longrightarrow> \<exists>x. find_or_duration T c p u n = Inr x"
proof -
  note ty = typed_entry [OF assms(2)]
  note absent = toml_absent [OF assms(1)] and present = toml_present [OF assms(1)]
  show "(p, StringType) \<in> set optional_keys \<Longrightarrow> \<exists>x. find_or_string T c p s = Inr x"
    using ty(1) [of p] absent(3) present(4) by (metis Un_iff set_append)
  show "(p, BoolType) \<in> set optional_keys \<Longrightarrow> \<exists>x. find_or_bool T c p b = Inr x"
    using ty(2) [of p] absent(4) present(5) by (metis Un_iff set_append)
  show "(p, IntType) \<in> set optional_keys \<Longrightarrow> \<exists>x. find_or_int T c p n = Inr x"
    using ty(3) [of p] absent(5) present(2) by (metis Un_iff set_append)
  have "(p, TimeType) \<in> set optional_keys \<Longrightarrow> \<exists>x. find_or_time T c p u n = Inr x"
    using ty(5) [of p] absent(6) present(6) by (metis Un_iff set_append)
  then show "(p, TimeType) \<in> set optional_keys \<Longrightarrow> \<exists>x. find_or_duration T c p u n = Inr x"
    by (auto simp: find_or_duration_def bindr_Inr)
qed

lemma find_required:
  assumes "toml_laws T" and "well_typed T c"
  shows "(p, IntType) \<in> set required_keys \<Longrightarrow>
      (\<exists>x. find_int T c p = Inr x) \<longleftrightarrow> entry T c p \<noteq> None"
    "(p, FloatType) \<in> set required_keys \<Longrightarrow>
      (\<exists>x. find_float T c p = Inr x) \<longleftrightarrow> entry T c p \<noteq> None"
    "(p, IntType) \<in> set required_keys \<Longrightarrow>
      (\<exists>x. find_unsigned w T c p = Inr x) \<longleftrightarrow> entry T c p \<noteq> None"
proof -
  note ty = typed_entry [OF assms(2)]
  note absent = toml_absent [OF assms(1)] and present = toml_present [OF assms(1)]
  show i: "(p, IntType) \<in> set required_keys \<Longrightarrow>
      (\<exists>x. find_int T c p = Inr x) \<longleftrightarrow> entry T c p \<noteq> None"
    using ty(3) [of p] absent(1) present(1) by (metis Un_iff set_append Inl_Inr_False option.distinct(1))
  show "(p, IntType) \<in> set required_keys \<Longrightarrow>
      (\<exists>x. find_unsigned w T c p = Inr x) \<longleftrightarrow> entry T c p \<noteq> None"
    using i by (auto simp: find_unsigned_def bindr_Inr)
  show "(p, FloatType) \<in> set required_keys \<Longrightarrow>
      (\<exists>x. find_float T c p = Inr x) \<longleftrightarrow> entry T c p \<noteq> None"
    using ty(4) [of p] absent(2) present(3) by (metis Un_iff set_append Inl_Inr_False option.distinct(1))
qed

text \<open>Every optional value is there; a required one is there when its key is.\<close>

lemma optional_values:
  assumes "toml_laws T" and "well_typed T c"
  shows "\<exists>x. i2cBus T c = Inr x" "\<exists>x. gpioChip T c = Inr x"
    "\<exists>x. pidStateMonitoringEnabled T c = Inr x" "\<exists>x. watchdogEnabled T c = Inr x"
    "\<exists>x. watchdogDevice T c = Inr x" "\<exists>x. watchdogTimeout T c = Inr x"
    "\<exists>x. watchdogTemperatureLimit T c = Inr x" "\<exists>x. buttonsLogicInverted T c = Inr x"
    "\<exists>x. buttonsDebouncePeriod T c = Inr x" "\<exists>x. ledsLogicInverted T c = Inr x"
    "\<exists>x. pressureSensorI2cAddr T c = Inr x" "\<exists>x. weightSensorI2cAddr T c = Inr x"
    "\<exists>x. weightSensorFilterTiming T c = Inr x" "\<exists>x. temperatureSensorFilterTiming T c = Inr x"
    "\<exists>x. temperatureSensorSpiAddr T c = Inr x" "\<exists>x. steamPressureThreshold T c = Inr x"
    "\<exists>x. steamRefillFlow T c = Inr x"
  unfolding i2cBus_def gpioChip_def pidStateMonitoringEnabled_def watchdogEnabled_def
    watchdogDevice_def watchdogTimeout_def watchdogTemperatureLimit_def buttonsLogicInverted_def
    buttonsDebouncePeriod_def ledsLogicInverted_def pressureSensorI2cAddr_def
    weightSensorI2cAddr_def weightSensorFilterTiming_def temperatureSensorFilterTiming_def
    temperatureSensorSpiAddr_def steamPressureThreshold_def steamRefillFlow_def
  by (rule find_optional [OF assms], simp add: optional_keys_def)+

lemma pull_mode_value:
  assumes "toml_laws T" and "well_typed T c"
  shows "\<exists>x. buttonsPullMode T c = Inr x"
proof -
  let ?p = "[''buttons'', ''pull_mode'']"
  have "(?p, StringType) \<in> set (required_keys @ optional_keys)" by (simp add: optional_keys_def)
  from typed_entry(1) [OF assms(2) this refl] show ?thesis
    using assms(2) toml_absent(3) [OF assms(1)] toml_present(4) [OF assms(1)]
    by (elim disjE exE) (auto simp: buttonsPullMode_def enum_cast_def well_typed_def)
qed

lemma required_values:
  assumes "toml_laws T" and "well_typed T c"
  shows "(\<exists>x. mainsFrequency T c = Inr x) \<longleftrightarrow> entry T c [''global'', ''mains_frequency''] \<noteq> None"
    "(\<exists>x. mainsZeroCrossPin T c = Inr x) \<longleftrightarrow> entry T c [''global'', ''mains_zc_pin''] \<noteq> None"
    "(\<exists>x. powerButtonSignalPin T c = Inr x) \<longleftrightarrow> entry T c [''buttons'', ''power_pin''] \<noteq> None"
    "(\<exists>x. brewButtonSignalPin T c = Inr x) \<longleftrightarrow> entry T c [''buttons'', ''brew_pin''] \<noteq> None"
    "(\<exists>x. steamButtonSignalPin T c = Inr x) \<longleftrightarrow> entry T c [''buttons'', ''steam_pin''] \<noteq> None"
    "(\<exists>x. powerLedOutputPin T c = Inr x) \<longleftrightarrow> entry T c [''leds'', ''power_pin''] \<noteq> None"
    "(\<exists>x. brewLedOutputPin T c = Inr x) \<longleftrightarrow> entry T c [''leds'', ''brew_pin''] \<noteq> None"
    "(\<exists>x. steamLedOutputPin T c = Inr x) \<longleftrightarrow> entry T c [''leds'', ''steam_pin''] \<noteq> None"
    "(\<exists>x. pressureSensorSignalPin T c = Inr x) \<longleftrightarrow>
       entry T c [''pressure_sensor'', ''signal_pin''] \<noteq> None"
    "(\<exists>x. weightSensorScale T c = Inr x) \<longleftrightarrow> entry T c [''weight_sensor'', ''scale''] \<noteq> None"
    "(\<exists>x. weightSensorSignalPin T c = Inr x) \<longleftrightarrow>
       entry T c [''weight_sensor'', ''signal_pin''] \<noteq> None"
    "(\<exists>x. temperatureSensorSignalPin T c = Inr x) \<longleftrightarrow>
       entry T c [''temperature_sensor'', ''signal_pin''] \<noteq> None"
    "(\<exists>x. flowControllerMultiplier T c = Inr x) \<longleftrightarrow>
       entry T c [''pump'', ''flow_controller_multiplier''] \<noteq> None"
    "(\<exists>x. pumpOutputPin T c = Inr x) \<longleftrightarrow> entry T c [''pump'', ''control_pin''] \<noteq> None"
    "(\<exists>x. pumpVolumePerPulse T c = Inr x) \<longleftrightarrow> entry T c [''pump'', ''volume_per_pulse''] \<noteq> None"
    "(\<exists>x. pumpStallPressure T c = Inr x) \<longleftrightarrow> entry T c [''pump'', ''stall_pressure''] \<noteq> None"
    "(\<exists>x. valveOutputPin T c = Inr x) \<longleftrightarrow> entry T c [''valve'', ''control_pin''] \<noteq> None"
    "(\<exists>x. heaterOutputPin T c = Inr x) \<longleftrightarrow> entry T c [''heater'', ''control_pin''] \<noteq> None"
  unfolding mainsFrequency_def mainsZeroCrossPin_def powerButtonSignalPin_def
    brewButtonSignalPin_def steamButtonSignalPin_def powerLedOutputPin_def brewLedOutputPin_def
    steamLedOutputPin_def pressureSensorSignalPin_def weightSensorScale_def
    weightSensorSignalPin_def temperatureSensorSignalPin_def flowControllerMultiplier_def
    pumpOutputPin_def pumpVolumePerPulse_def pumpStallPressure_def valveOutputPin_def
    heaterOutputPin_def
  by (rule find_required [OF assms], simp add: required_keys_def)+

lemma bindr_ex:
  "(\<exists>y. bindr r k = Inr y) \<longleftrightarrow> (\<exists>x. r = Inr x \<and> (\<exists>y. k x = Inr y))"
  by (cases r) simp_all

lemma pid_values:
  assumes "toml_laws T" and "well_typed T c"
  shows "(\<exists>x. brewTemperatureControllerPidSettings T c = Inr x) \<longleftrightarrow>
      (\<forall>k \<in> set [''p'', ''d'', ''d_relax'', ''i'', ''i_relax'', ''f'', ''w'', ''w_decay''].
         entry T c [''brew'', ''pid_settings'', k] \<noteq> None)"
    "(\<exists>x. steamPreheatTemperatureControllerPidSettings T c = Inr x) \<longleftrightarrow>
      (\<forall>k \<in> set [''p'', ''d'', ''d_relax'', ''i'', ''i_relax''].
         entry T c [''steam'', ''preheat_pid_settings'', k] \<noteq> None)"
    "(\<exists>x. steamActiveTemperatureControllerPidSettings T c = Inr x) \<longleftrightarrow>
      (\<forall>k \<in> set [''p'', ''d'', ''d_relax'', ''i'', ''i_relax''].
         entry T c [''steam'', ''active_pid_settings'', k] \<noteq> None)"
proof -
  have f: "(\<exists>x. find_float T c p = Inr x) \<longleftrightarrow> entry T c p \<noteq> None"
    if "(p, FloatType) \<in> set required_keys" for p
    by (rule find_required(2) [OF assms that])
  have b: "(\<exists>x. find_float T c [''brew'', ''pid_settings'', k] = Inr x) \<longleftrightarrow>
      entry T c [''brew'', ''pid_settings'', k] \<noteq> None"
    if "k \<in> set [''p'', ''d'', ''d_relax'', ''i'', ''i_relax'', ''f'', ''w'', ''w_decay'']" for k
    by (rule f, use that in \<open>simp add: required_keys_def\<close>)
  have s: "(\<exists>x. find_float T c [''steam'', ''preheat_pid_settings'', k] = Inr x) \<longleftrightarrow>
      entry T c [''steam'', ''preheat_pid_settings'', k] \<noteq> None"
    "(\<exists>x. find_float T c [''steam'', ''active_pid_settings'', k] = Inr x) \<longleftrightarrow>
      entry T c [''steam'', ''active_pid_settings'', k] \<noteq> None"
    if "k \<in> set [''p'', ''d'', ''d_relax'', ''i'', ''i_relax'']" for k
    by (rule f, use that in \<open>simp add: required_keys_def\<close>)+
  note t = optional_values(14) [OF assms]
  show "(\<exists>x. brewTemperatureControllerPidSettings T c = Inr x) \<longleftrightarrow>
      (\<forall>k \<in> set [''p'', ''d'', ''d_relax'', ''i'', ''i_relax'', ''f'', ''w'', ''w_decay''].
         entry T c [''brew'', ''pid_settings'', k] \<noteq> None)"
    unfolding brewTemperatureControllerPidSettings_def bindr_ex
    using t by (simp del: not_None_eq add: b [symmetric])
  show "(\<exists>x. steamPreheatTemperatureControllerPidSettings T c = Inr x) \<longleftrightarrow>
      (\<forall>k \<in> set [''p'', ''d'', ''d_relax'', ''i'', ''i_relax''].
         entry T c [''steam'', ''preheat_pid_settings'', k] \<noteq> None)"
    unfolding steamPreheatTemperatureControllerPidSettings_def bindr_ex
    using t by (simp del: not_None_eq add: s [symmetric])
  show "(\<exists>x. steamActiveTemperatureControllerPidSettings T c = Inr x) \<longleftrightarrow>
      (\<forall>k \<in> set [''p'', ''d'', ''d_relax'', ''i'', ''i_relax''].
         entry T c [''steam'', ''active_pid_settings'', k] \<noteq> None)"
    unfolding steamActiveTemperatureControllerPidSettings_def bindr_ex
    using t by (simp del: not_None_eq add: s [symmetric])
qed

lemma watchdog_value:
  assumes "toml_laws T" and "well_typed T c"
  shows "\<exists>x. makeWatchdogConfig T c = Inr x"
  using optional_values(4,5,6) [OF assms] by (auto simp: makeWatchdogConfig_def)

text \<open>Which values each component needs.\<close>

lemma maker_values:
  assumes "toml_laws T" and "well_typed T c"
  shows "(\<exists>x. makePressureSensorConfig T c = Inr x) \<longleftrightarrow> (\<exists>p. pressureSensorSignalPin T c = Inr p)"
    "(\<exists>x. makeTemperatureSensorConfig T c = Inr x) \<longleftrightarrow>
       (\<exists>p. temperatureSensorSignalPin T c = Inr p)"
    "(\<exists>x. makeWeightSensorConfig T c = Inr x) \<longleftrightarrow>
       (\<exists>p. weightSensorSignalPin T c = Inr p) \<and> (\<exists>s. weightSensorScale T c = Inr s)"
    "(\<exists>x. makeAcSensorConfig T c = Inr x) \<longleftrightarrow> (\<exists>p. mainsZeroCrossPin T c = Inr p)"
    "(\<exists>x. makeInternalFlowSensorConfig T c = Inr x) \<longleftrightarrow>
       (\<exists>v. pumpVolumePerPulse T c = Inr v) \<and> (\<exists>s. pumpStallPressure T c = Inr s)"
    "(\<exists>x. makeButtonConfig T c l r = Inr x) \<longleftrightarrow> (\<exists>p. r = Inr p)"
    "(\<exists>x. makeLedConfig T c l r = Inr x) \<longleftrightarrow> (\<exists>p. r = Inr p)"
    "(\<exists>x. makePumpDriverConfig T c = Inr x) \<longleftrightarrow> (\<exists>p. pumpOutputPin T c = Inr p)"
    "(\<exists>x. makeHeaterDriverConfig T c = Inr x) \<longleftrightarrow> (\<exists>p. heaterOutputPin T c = Inr p)"
    "(\<exists>x. makeValveDriverConfig T c = Inr x) \<longleftrightarrow> (\<exists>p. valveOutputPin T c = Inr p)"
    "\<exists>x. makePumpPowerControllerConfig = Inr x" "\<exists>x. makeHeaterPowerControllerConfig = Inr x"
    "\<exists>x. makePressureControllerConfig = Inr x"
    "(\<exists>x. makeFlowRateControllerConfig T c = Inr x) \<longleftrightarrow>
       (\<exists>m. flowControllerMultiplier T c = Inr m)"
    "(\<exists>x. makeInternalFlowRateControllerConfig T c = Inr x) \<longleftrightarrow> (\<exists>f. mainsFrequency T c = Inr f)"
    "(\<exists>x. makeBrewTemperatureControllerConfig T c = Inr x) \<longleftrightarrow>
       (\<exists>p. brewTemperatureControllerPidSettings T c = Inr p)"
    "(\<exists>x. makeSteamPreheatTemperatureControllerConfig T c = Inr x) \<longleftrightarrow>
       (\<exists>p. steamPreheatTemperatureControllerPidSettings T c = Inr p)"
    "(\<exists>x. makeSteamActiveTemperatureControllerConfig T c = Inr x) \<longleftrightarrow>
       (\<exists>p. steamActiveTemperatureControllerPidSettings T c = Inr p)"
    "\<exists>x. makeBrewProfilerConfig T = Inr x" "\<exists>x. makeSteamControllerConfig T c = Inr x"
  using optional_values [OF assms] pull_mode_value [OF assms]
  by (simp_all add: makers bindr_ex del: split_paired_Ex; blast)+

lemma makers_values:
  assumes "toml_laws T" and "well_typed T c"
  shows "(\<forall>r \<in> set (component_makers T c). \<exists>x. r = Inr x) \<longleftrightarrow>
    (\<forall>(p, ty) \<in> set required_keys. entry T c p \<noteq> None)"
  unfolding component_makers_def
  by (simp add: maker_values [OF assms] required_values [OF assms] pid_values [OF assms]
      required_keys_def del: split_paired_Ex not_None_eq) blast

lemma device_config_iff:
  assumes "toml_laws T" and "well_typed T c"
  shows "(\<exists>dc. make T c = Inr dc) \<longleftrightarrow> (\<forall>(p, ty) \<in> set required_keys. entry T c p \<noteq> None)"
proof -
  have "(\<exists>dc. make T c = Inr dc) \<longleftrightarrow> (\<forall>r \<in> set (component_makers T c). \<exists>x. r = Inr x)"
    using watchdog_value [OF assms] map_result_Inr_iff [of "\<lambda>r. r" "component_makers T c"]
    by (simp add: make_def bindr_ex del: split_paired_Ex)
  then show ?thesis by (simp only: makers_values [OF assms])
qed

text \<open>
  C21: for a file whose values have the right types, the device configuration is made
  exactly when every required key is there; the optional keys never matter for that.
\<close>

theorem device_config_made:
  assumes "toml_laws T" and "well_typed T c"
  shows "(\<exists>dc. make T c = Inr dc) \<longleftrightarrow> (\<forall>(p, ty) \<in> set required_keys. entry T c p \<noteq> None)"
  by (rule device_config_iff [OF assms])

text \<open>The smallest complete file: the required keys alone.\<close>

definition sample_config :: "string list \<Rightarrow> toml_entry option" where
  "sample_config = map_of (map (\<lambda>(p, ty).
     (p, if ty = IntType then TInt 17 else TFloat (Finite (1 / 4)))) required_keys)"

lemma map_of_tagged:
  "distinct (map fst ks) \<Longrightarrow> (k, ty) \<in> set ks \<Longrightarrow> map_of (map (\<lambda>(p, ty). (p, f ty)) ks) k = Some (f ty)"
  by (intro map_of_is_SomeI) (force simp: comp_def split_def)+

lemma required_keys_distinct: "distinct (map fst (required_keys @ optional_keys))"
  by (simp add: required_keys_def optional_keys_def)

lemma required_keys_types: "(p, ty) \<in> set required_keys \<Longrightarrow> ty = IntType \<or> ty = FloatType"
  by (auto simp: required_keys_def)

lemma sample_config_required:
  "(p, ty) \<in> set required_keys \<Longrightarrow>
   sample_config p = Some (if ty = IntType then TInt 17 else TFloat (Finite (1 / 4)))"
  using required_keys_distinct unfolding sample_config_def by (subst map_of_tagged) auto

lemma sample_config_optional: "(p, ty) \<in> set optional_keys \<Longrightarrow> sample_config p = None"
  using required_keys_distinct by (force simp: sample_config_def map_of_eq_None_iff)

lemma sample_config_typed: "well_typed sample_toml sample_config"
proof -
  have "(([''buttons'', ''pull_mode''], StringType) :: string list \<times> toml_type) \<in> set optional_keys"
    by (simp add: optional_keys_def)
  then have "sample_config [''buttons'', ''pull_mode''] = None" by (rule sample_config_optional)
  then show ?thesis
    using required_keys_types
    by (fastforce simp: well_typed_def sample_config_required sample_config_optional
        sample_toml_def DEFAULT_BUTTONS_PULL_MODE_def)
qed

theorem device_config_made_witness: "\<exists>dc. make sample_toml sample_config = Inr dc"
  using device_config_made [OF sample_toml_laws(1) sample_config_typed]
  by (auto simp: sample_config_required)

definition sample_device :: device_config where
  "sample_device = (case make sample_toml sample_config of Inr dc \<Rightarrow> dc)"

lemma sample_device_made: "make sample_toml sample_config = Inr sample_device"
proof -
  have "\<forall>(p, ty) \<in> set required_keys. entry sample_toml sample_config p \<noteq> None"
    by (auto simp: sample_config_required)
  then have "\<forall>r \<in> set (component_makers sample_toml sample_config). \<exists>x. r = Inr x"
    by (simp only: makers_values [OF sample_toml_laws(1) sample_config_typed])
  then obtain cs where "map_result (\<lambda>r. r) (component_makers sample_toml sample_config) = Inr cs"
    using map_result_Inr_iff [of "\<lambda>r. r"] by blast
  then show ?thesis
    using watchdog_value [OF sample_toml_laws(1) sample_config_typed]
    by (auto simp: sample_device_def make_def)
qed

theorem device_config_consistent_witness:
  "map (\<lambda>x. (fst x, kind_of (snd x))) (device_components sample_device) = device_kinds"
  using device_config_consistent [OF sample_device_made] by blast

end
