(* ===== verification/Daemon.thy ===== *)
theory Daemon
  imports Service ConfigMaker
begin

text \<open>
  \<^verbatim>\<open>daemon/daemon\<close>: how the objects are built, one on the other, and how they are taken down
  when a constructor throws or when the exit signal has come.
\<close>

section \<open>Logger and message managers\<close>

text \<open>The level and the pattern that the logger is set to.\<close>

definition setupLogger :: "'c toml \<Rightarrow> 'c \<Rightarrow> exn + string \<times> string" where
  "setupLogger T c =
     bindr (logLevel T c) (\<lambda>level. bindr (logMessagePattern T c) (\<lambda>pattern. Inr (level, pattern)))"

definition setupBrewProfileManager ::
    "'d lib \<Rightarrow> 'c toml \<Rightarrow> 'c \<Rightarrow> BrewProfile json \<Rightarrow> ('d, brew_profile_manager) prog" where
  "setupBrewProfileManager L T c J =
     bindp (lift_result
       (bindr (brewProfilePath T c) (\<lambda>path.
        bindr (brewTemperature T c) (\<lambda>t.
        bindr (brewPressure T c) (\<lambda>p. Inr (BrewProfileManager_create path t p)))))) (\<lambda>m. \<lambda>d.
     case catching (loadSavedProfile L J) (\<lambda>_. loadDefaultProfile) (d, m) of
       ((d', m'), Inl e) \<Rightarrow> (d', Inl e)
     | ((d', m'), Inr _) \<Rightarrow> (d', Inr m'))"

definition setupUserSettingsManager ::
    "'d lib \<Rightarrow> 'c toml \<Rightarrow> 'c \<Rightarrow> UserSettings json \<Rightarrow> ('d, user_settings_manager) prog" where
  "setupUserSettingsManager L T c J =
     bindp (lift_result
       (bindr (userSettingsPath T c) (\<lambda>path.
        bindr (steamTemperature T c) (\<lambda>t. Inr (UserSettingsManager_create path t))))) (\<lambda>m. \<lambda>d.
     case catching (loadSavedSettings L J) (\<lambda>_. loadDefaultSettings) (d, m) of
       ((d', m'), Inl e) \<Rightarrow> (d', Inl e)
     | ((d', m'), Inr _) \<Rightarrow> (d', Inr m'))"

section \<open>Taking the objects down\<close>

text \<open>
  The members of the state manager go in reverse order: the status manager with its sensor
  callback first, the LEDs that it owns after it.
\<close>

definition StateManager_destroy ::
    "'d lib \<Rightarrow> ('d, 'o, 'z) status_manager_scheme stmt" where
  "StateManager_destroy L = block [StatusManager_destroy L, on_dev (LedsHandler_destroy L)]"

text \<open>What is in the queue, run by the worker.\<close>

definition drain ::
    "'d lib \<Rightarrow> BrewProfile json \<Rightarrow> UserSettings json \<Rightarrow> ('d, 'z) dispatcher_stmt" where
  "drain L JP JS s = worker_run L JP JS (length (outbox s)) s"

definition future_get :: "nat \<Rightarrow> ('d, 'z) dispatcher_stmt" where
  "future_get future s =
     (case map_of (rev (results s)) future of Some (Inl e) \<Rightarrow> (s, Inl e) | _ \<Rightarrow> (s, Inr ()))"

text \<open>
  The destructor of the dispatcher waits for its last request behind all others; the
  executor, destroyed before the state manager, runs what was put behind it.
\<close>

definition dispatcher_destroy ::
    "'d lib \<Rightarrow> BrewProfile json \<Rightarrow> UserSettings json \<Rightarrow> nat \<Rightarrow> ('d, 'z) dispatcher_stmt" where
  "dispatcher_destroy L JP JS future = block
     [AsyncEventDispatcher_destroy future, drain L JP JS, future_get future, drain L JP JS,
      StateManager_destroy L]"

definition handlers_destroy ::
    "'d lib \<Rightarrow> BrewProfile json \<Rightarrow> UserSettings json \<Rightarrow> nat \<Rightarrow> buttons \<Rightarrow>
     ('d, 'z) dispatcher_stmt" where
  "handlers_destroy L JP JS future buttons = block
     [on_dev (ButtonsCallbackRegistrator_destroy L buttons), dispatcher_destroy L JP JS future]"

section \<open>Construction\<close>

text \<open>
  A constructor that throws takes down what has been built so far; an exception of a
  destructor on the way ends the program (\<^verbatim>\<open>std::terminate\<close>).
\<close>

datatype ending = Thrown exn | Terminated

definition unwind :: "'s stmt \<Rightarrow> ('s \<Rightarrow> 'd) \<Rightarrow> exn \<Rightarrow> 's \<Rightarrow> 'd \<times> ending" where
  "unwind destroy part e s =
     (case destroy s of
        (t, Inr _) \<Rightarrow> (part t, Thrown e)
      | (t, Inl e') \<Rightarrow> (part t, if e' = UndefinedBehaviour then Thrown e' else Terminated))"

definition stage ::
    "('s, 'a) prog \<Rightarrow> 's stmt \<Rightarrow> ('s \<Rightarrow> 'd) \<Rightarrow> ('a \<Rightarrow> 's \<Rightarrow> ('d \<times> ending) + 'b) \<Rightarrow>
     's \<Rightarrow> ('d \<times> ending) + 'b" where
  "stage m destroy part k s =
     (case m s of
        (t, Inl e) \<Rightarrow> Inl (unwind destroy part e t)
      | (t, Inr x) \<Rightarrow> k x t)"

text \<open>
  The daemon: the world is the \<^verbatim>\<open>dev\<close> of its dispatcher.
\<close>

record 'd daemon =
  m_dispatcher :: "'d dispatcher"
  m_buttonsHandler :: buttons
  m_server :: "string list option"

text \<open>
  The libraries that the daemon is started with. The futures of the destructor are named by
  \<open>exit_future\<close>, a number no caller uses.
\<close>

record ('d, 'c) system =
  sys_lib :: "'d lib"
  sys_toml :: "'c toml"
  sys_profiles :: "BrewProfile json"
  sys_settings :: "UserSettings json"
  getCore :: "device_config \<Rightarrow> ('d, unit) prog"
  listens :: "string list \<Rightarrow> bool"
  exit_future :: nat

definition start_server ::
    "('d, 'c) system \<Rightarrow> 'c \<Rightarrow> buttons \<Rightarrow> 'd dispatcher \<Rightarrow> ('d \<times> ending) + 'd daemon" where
  "start_server E c buttons =
     stage (lift_result (ServiceManager_create (sys_toml E) c (listens E)))
       (handlers_destroy (sys_lib E) (sys_profiles E) (sys_settings E) (exit_future E) buttons) dev
       (\<lambda>server s. Inr \<lparr>m_dispatcher = s, m_buttonsHandler = buttons, m_server = server\<rparr>)"

definition start_buttons ::
    "('d, 'c) system \<Rightarrow> 'c \<Rightarrow> 'd dispatcher \<Rightarrow> ('d \<times> ending) + 'd daemon" where
  "start_buttons E c =
     stage (on_dev (ButtonsCallbackRegistrator_create (sys_lib E)
         (powerButtonBistable (sys_toml E) c) (brewButtonBistable (sys_toml E) c)
         (steamButtonBistable (sys_toml E) c)))
       (dispatcher_destroy (sys_lib E) (sys_profiles E) (sys_settings E) (exit_future E)) dev
       (start_server E c)"

definition start_dispatcher ::
    "('d, 'c) system \<Rightarrow> 'c \<Rightarrow> brew_profile_manager \<Rightarrow> user_settings_manager \<Rightarrow>
     ('d, task list) state_manager \<Rightarrow> ('d \<times> ending) + 'd daemon" where
  "start_dispatcher E c profileManager settingsManager =
     stage (AsyncEventDispatcher_create (sys_lib E) profileManager settingsManager)
       (StateManager_destroy (sys_lib E)) dev (\<lambda>s _. start_buttons E c s)"

definition start_managers ::
    "('d, 'c) system \<Rightarrow> 'c \<Rightarrow> ('d, task list) state_manager \<Rightarrow> ('d \<times> ending) + 'd daemon" where
  "start_managers E c =
     (let L = sys_lib E; destroy = StateManager_destroy L in
      stage (on_dev (setupBrewProfileManager L (sys_toml E) c (sys_profiles E))) destroy dev
        (\<lambda>profileManager.
      stage (on_dev (setupUserSettingsManager L (sys_toml E) c (sys_settings E))) destroy dev
        (\<lambda>settingsManager.
      stage (block [applyBrewProfile L profileManager, applySettings L settingsManager]) destroy dev
        (\<lambda>_. start_dispatcher E c profileManager settingsManager))))"

definition start_state ::
    "('d, 'c) system \<Rightarrow> 'c \<Rightarrow> ('d, task list) status_manager \<Rightarrow> 'd \<Rightarrow> ('d \<times> ending) + 'd daemon" where
  "start_state E c sm =
     stage (StateManager_create (sys_lib E) sm)
       (\<lambda>d. case StateManager_destroy (sys_lib E) (sm\<lparr>dev := d\<rparr>) of (t, r) \<Rightarrow> (dev t, r)) id
       (\<lambda>s _. start_managers E c s)"

definition start_status :: "('d, 'c) system \<Rightarrow> 'c \<Rightarrow> 'd \<Rightarrow> ('d \<times> ending) + 'd daemon" where
  "start_status E c =
     (let L = sys_lib E; T = sys_toml E in
      stage (bindp (lift_result (brewTemperatureWindow T c)) (\<lambda>brewWindow.
             bindp (lift_result (steamTemperatureWindow T c)) (\<lambda>steamWindow.
             bindp (lift_result (heaterReadyHysteresisPeriod T c)) (\<lambda>period.
               StatusManager_create L brewWindow steamWindow period []))))
        (LedsHandler_destroy L) id (start_state E c))"

definition Daemon_create ::
    "('d, 'c) system \<Rightarrow> string \<Rightarrow> 'd \<Rightarrow> ('d \<times> ending) + 'd daemon" where
  "Daemon_create E configPath =
     (let L = sys_lib E; T = sys_toml E in
      stage (bindp (lift_result (fromFile T configPath)) (\<lambda>config.
             bindp (lift_result (setupLogger T config)) (\<lambda>_.
             bindp (lift_result (ConfigMaker.make T config)) (\<lambda>deviceConfig.
             bindp (getCore E deviceConfig) (\<lambda>_.
             bindp (LedsHandler_create L) (\<lambda>_. return config)))))) skip id
        (start_status E))"

text \<open>The members in reverse order: the service, which refuses new calls, then the buttons.\<close>

definition Daemon_destroy :: "('d, 'c) system \<Rightarrow> 'd daemon \<Rightarrow> 'd dispatcher \<times> (exn + unit)" where
  "Daemon_destroy E daemon =
     handlers_destroy (sys_lib E) (sys_profiles E) (sys_settings E) (exit_future E)
       (m_buttonsHandler daemon) (m_dispatcher daemon)"

end
