(* ===== verification/DaemonProps.thy ===== *)
theory DaemonProps
  imports Daemon
begin

text \<open>
  What the daemon promises over its whole life: a request never breaks the agreement of
  switches and heaters, the end of the daemon switches everything off, and what was saved
  is there after a restart.
\<close>

section \<open>Every request keeps the agreement of switches and heaters\<close>

lemma keeps_implements:
  assumes "\<And>s. machine_env L (m_readyHysteresisPeriod s) \<Longrightarrow> heaters_ok L s \<Longrightarrow> implements L m spec s"
  shows "keeps (machine_ok L) m"
  using assms by (simp add: keeps_def machine_ok_def implements_def)

lemma machine_ok_operations [kept]:
  "keeps (machine_ok L) (setPowerState L b)" "keeps (machine_ok L) (startBrew L)"
  "keeps (machine_ok L) (stopBrew L)" "keeps (machine_ok L) (setSteamModeState L b)"
  "keeps (machine_ok L) (setBrewTemperature L t)" "keeps (machine_ok L) (setSteamTemperature L t)"
  "keeps (machine_ok L) (resetScales L)" "keeps (machine_ok L) (setBrewSteps L r)"
  "keeps (machine_ok L) (setAutoStopCondition L c)"
  by (rule keeps_implements, erule state_operations_implement, assumption)+

lemma machine_ok_device:
  assumes "\<And>a. device_laws L \<Longrightarrow> a \<in> actuators \<Longrightarrow> ctl_isActive L a (dev t) = ctl_isActive L a (dev s)"
    and "m_power t = m_power s" and "m_steam t = m_steam s"
    and "m_readyHysteresisPeriod t = m_readyHysteresisPeriod s"
  shows "machine_ok L s \<Longrightarrow> machine_ok L t"
    and "device_laws L \<Longrightarrow> machine_of L t = machine_of L s"
  using assms
  by (auto simp: machine_ok_def machine_env_def heaters_ok_def profilerActive_def deviceActive_def
      machine_of_def)

lemma machine_ok_notify [kept]: "keeps (machine_ok L) (notifyChanged e)"
  by (simp add: keeps_def notifyChanged_told)

lemma machine_ok_save [kept]:
  "keeps (machine_ok L) (on_profiles (saveProfile L J p))"
  "keeps (machine_ok L) (on_settings (saveSettings L K u))"
  by (auto simp: keeps_def on_profiles_def on_settings_def zoom_def saveProfile_def
      saveSettings_def Let_def split_def split: sum.split ofstream_result.split
      simp: activity_fs_write elim!: machine_ok_device(1) [rotated -1])

lemma machine_ok_apply [kept]:
  "keeps (machine_ok L) (applyBrewProfile L pm)" "keeps (machine_ok L) (applySettings L us)"
  by (auto simp: applyBrewProfile_def applyAutoStopCondition_def applySettings_def
      intro!: kept split: option.split StopConditionType.split)

lemma keeps_at: "(\<And>x. keeps P (k x)) \<Longrightarrow> keeps P (\<lambda>s. k (f s) s)"
  by (simp add: keeps_def)

lemma machine_ok_unregister [kept]: "keeps (machine_ok L) (unregisterBrewProfileCallback L n)"
  using activity_framesD(7) [of L] unfolding unregisterBrewProfileCallback_def
  by (auto simp: keeps_def on_dev_def zoom_def frame_def elim!: machine_ok_device(1) [rotated -1])

lemma machine_ok_requests:
  "keeps (machine_ok L) (doStartBrew L)" "keeps (machine_ok L) (doStopBrew L)"
  "keeps (machine_ok L) (doSetPowerState L c)" "keeps (machine_ok L) (doSetSteamModeState L c)"
  "keeps (machine_ok L) (remoteStopBrew L)" "keeps (machine_ok L) (doSetBrewProfile L JP p)"
  "keeps (machine_ok L) (doSetUserSettings L JS u)" "keeps (machine_ok L) (shutdown L)"
  "keeps (machine_ok L) (notifyHeatingStatusChange st)"
  "keeps (machine_ok L) (doNotifyBrewStepChange i)"
  unfolding doStartBrew_def doStopBrew_def doSetPowerState_def doSetSteamModeState_def
    remoteStopBrew_def doSetBrewProfile_def doSetUserSettings_def shutdown_def
    notifyHeatingStatusChange_def doNotifyBrewStepChange_def
  by (intro kept keeps_at [where k = "applyBrewProfile L"] keeps_at [where k = "applySettings L"]
      keeps_at [where k = "unregisterBrewProfileCallback L"])+

lemma machine_ok_procedure: "machine_ok L s \<Longrightarrow> machine_ok L (fst (run_procedure L JP JS p s))"
  using machine_ok_requests [unfolded keeps_def, rule_format, of L s]
    machine_ok_operations [unfolded keeps_def, rule_format, of L s]
  by (cases p) (simp_all add: finish_result branch_def get_def addReactor_def removeReactor_def act_def)

lemma machine_field_results [simp]:
  "machine_ok L (s\<lparr>results := x\<rparr>) = machine_ok L s" "machine_of L (s\<lparr>results := x\<rparr>) = machine_of L s"
  by (simp_all add: machine_ok_def heaters_ok_def profilerActive_def deviceActive_def machine_of_def)

lemma run_task_future: "run_task L JP JS (WithFuture f p) s = run_task L JP JS (WithCallback f p) s"
  by (simp add: run_task.simps)

lemma run_task_undefined: "snd (run_task L JP JS t s) = Inl e \<Longrightarrow> e = UndefinedBehaviour"
  by (cases t) (auto simp: run_task_eqs run_task_future deliver_def act_def split: if_splits)

lemma machine_ok_task: "machine_ok L s \<Longrightarrow> machine_ok L (fst (run_task L JP JS t s))"
  by (cases t) (simp_all add: run_task_eqs run_task_future deliver_def act_def machine_ok_procedure)

lemma machine_ok_step: "keeps (machine_ok L) (worker_step L JP JS)"
  by (auto simp: keeps_def worker_step_def machine_ok_task split: list.split)

lemma machine_ok_run: "keeps (machine_ok L) (worker_run L JP JS n)"
proof (induction n)
  case 0
  show ?case unfolding worker_run_def replicate_0 by (rule keeps_block_Nil)
next
  case (Suc n)
  then show ?case
    unfolding worker_run_def replicate_Suc by (rule keeps_block_Cons [OF machine_ok_step])
qed

lemma worker_run_undefined: "snd (worker_run L JP JS n s) = Inl e \<Longrightarrow> e = UndefinedBehaviour"
proof (induction n arbitrary: s)
  case (Suc n)
  then show ?case
    by (auto simp: worker_run_def worker_step_def split: sum.splits list.splits dest: run_task_undefined)
qed (simp add: worker_run_def)

section \<open>The end\<close>

definition off :: "'d lib \<Rightarrow> ('d, 'o, 'z) state_manager_scheme \<Rightarrow> bool" where
  "off L s \<longleftrightarrow> \<not> getPowerState s \<and> \<not> getBrewState L s \<and>
     \<not> deviceActive L STEAM_CONTROLLER_LABEL s \<and>
     \<not> deviceActive L BREW_TEMPERATURE_CONTROLLER_LABEL s"

lemma off_machine: "machine_ok L s \<Longrightarrow> off L s \<longleftrightarrow> \<not> powered (machine_of L s)"
  by (auto simp: off_def machine_ok_def heaters_ok_def getPowerState_def getBrewState_def)

lemma block_three:
  assumes "snd (a s) = Inr ()" and "snd (b (fst (a s))) = Inr ()"
  shows "block [a, b, c] s = c (fst (b (fst (a s))))"
  using assms by (simp del: block.simps add: block_Cons_Inr block_single)

lemma shutdown_off:
  assumes "machine_ok L s"
  shows "snd (shutdown L s) = Inr ()" "\<not> powered (machine_of L (fst (shutdown L s)))"
proof -
  define s1 where "s1 = fst (branch (getBrewState L) (stopBrew L) skip s)"
  define s2 where "s2 = fst (unregisterBrewProfileCallback L (m_brewCallback s1) s1)"
  have d: "device_laws L" using assms by (simp add: machine_ok_def machine_env_def)
  have "implements L (stopBrew L) spec_stopBrew s"
    using assms by (intro stopBrew_implements) (simp_all add: machine_ok_def)
  then have 1: "snd (branch (getBrewState L) (stopBrew L) skip s) = Inr ()"
    by (simp add: branch_def skip_def implements_def spec_stopBrew_def)
  have 2: "snd (unregisterBrewProfileCallback L (m_brewCallback s1) s1) = Inr ()"
    using d by (simp add: unregisterBrewProfileCallback_def on_dev_def zoom_def device_lawsD(13))
  have "machine_ok L s1" unfolding s1_def
    by (rule keepsD [OF keeps_branch [OF machine_ok_operations(3) keeps_simple(1)]], rule assms)
  then have ok: "machine_ok L s2" unfolding s2_def by (rule keepsD [OF machine_ok_unregister])
  have 3: "implements L (setPowerState L False) (spec_setPower False) s2"
    using ok by (intro setPowerState_implements) (simp_all add: machine_ok_def)
  have e: "shutdown L s = branch getPowerState (setPowerState L False) skip s2"
    unfolding shutdown_def s2_def s1_def
    by (rule block_three) (rule 1, rule 2 [unfolded s1_def])
  show "snd (shutdown L s) = Inr ()" "\<not> powered (machine_of L (fst (shutdown L s)))"
    using 3 by (cases "m_power s2"; auto simp: e branch_def skip_def implements_def spec_setPower_def
        machine_of_def getPowerState_def)+
qed

text \<open>The status notifications that the shutdown leaves in the queue touch the sinks only.\<close>

lemma notes_run:
  "m_callback s = heating_callback \<Longrightarrow> outbox s = map note_of xs \<Longrightarrow>
   snd (worker_run L JP JS (length xs) s) = Inr () \<and>
   machine_of L (fst (worker_run L JP JS (length xs) s)) = machine_of L s"
proof (induction xs arbitrary: s)
  case Nil
  show ?case by (simp add: worker_run_def)
next
  case (Cons x xs)
  let ?t = "s\<lparr>outbox := map note_of xs,
      m_eventsSinks := told (HeaterEvent x) (m_eventsSinks s)\<rparr>"
  have w: "worker_step L JP JS s = (?t, Inr ())"
    using Cons.prems(2) by (simp add: worker_step_def note_of_def run_task_eqs finish_result
        notifyHeatingStatusChange_def notifyChanged_told)
  then have "worker_run L JP JS (length (x # xs)) s = worker_run L JP JS (length xs) ?t"
    unfolding worker_run_def length_Cons replicate_Suc by simp
  moreover have "m_callback ?t = heating_callback" "outbox ?t = map note_of xs"
    using Cons.prems by simp_all
  ultimately show ?case using Cons.IH [of ?t] by simp
qed

lemma run_callback:
  "snd (worker_run L JP JS n s) = Inr () \<Longrightarrow> m_callback (fst (worker_run L JP JS n s)) = m_callback s"
proof (induction n arbitrary: s)
  case 0
  show ?case by (simp add: worker_run_def)
next
  case (Suc n)
  have w: "snd (worker_step L JP JS s) = Inr ()" and
    e: "worker_run L JP JS (Suc n) s = worker_run L JP JS n (fst (worker_step L JP JS s))"
    using Suc.prems by (auto simp: worker_run_def split: sum.splits)
  have "m_callback (fst (worker_step L JP JS s)) = m_callback s"
    using w by (auto simp: worker_step_def run_task_results(2) split: list.splits)
  with Suc e show ?case by simp
qed

lemma drain_shutdown:
  assumes "machine_ok L s" and "m_callback s = heating_callback"
    and "snd (drain L JP JS (fst (AsyncEventDispatcher_destroy f s))) = Inr ()"
  shows "\<exists>t xs. drain L JP JS (fst (AsyncEventDispatcher_destroy f s)) = (t, Inr ()) \<and>
    machine_ok L t \<and> m_callback t = heating_callback \<and> outbox t = map note_of xs \<and>
    \<not> powered (machine_of L t) \<and> map_of (rev (results t)) f = Some (Inr Done)"
proof -
  let ?n = "length (outbox s)"
  let ?s = "s\<lparr>outbox := outbox s @ [WithFuture f Shutdown]\<rparr>"
  define u where "u = fst (worker_run L JP JS ?n ?s)"
  have d: "drain L JP JS (fst (AsyncEventDispatcher_destroy f s)) = worker_run L JP JS (?n + 1) ?s"
    by (simp add: drain_def AsyncEventDispatcher_destroy_def executeWithFuture_def push_def act_def)
  have split: "worker_run L JP JS (?n + 1) ?s = (case snd (worker_run L JP JS ?n ?s) of
      Inl e \<Rightarrow> (u, Inl e) | Inr _ \<Rightarrow> worker_step L JP JS u)"
    unfolding worker_run_def u_def replicate_add
    by (cases "snd (block (replicate ?n (worker_step L JP JS)) ?s)")
      (simp_all add: block_append block_single del: block.simps)
  have r: "snd (worker_run L JP JS ?n ?s) = Inr ()"
    using assms(3) unfolding d split by (cases "snd (worker_run L JP JS ?n ?s)") simp_all
  obtain xs where x: "outbox u = WithFuture f Shutdown # map note_of xs"
    using worker_run_results [of ?s "outbox s" "[WithFuture f Shutdown]" L JP JS] assms(2) r
    by (auto simp: u_def)
  have ok: "machine_ok L u" unfolding u_def
    using assms(1) by (intro keepsD [OF machine_ok_run]) simp
  have c: "m_callback u = heating_callback"
    using run_callback [OF r] assms(2) by (simp add: u_def)
  let ?u = "u\<lparr>outbox := map note_of xs\<rparr>"
  define t where "t = fst (run_task L JP JS (WithFuture f Shutdown) ?u)"
  have "machine_ok L ?u" using ok by simp
  note o = shutdown_off [OF this]
  have e: "run_task L JP JS (WithFuture f Shutdown) ?u = deliver f (Inr Done) (fst (shutdown L ?u))"
    using o(1) by (simp add: run_task_future run_task_eqs finish_result)
  have s: "snd (run_task L JP JS (WithFuture f Shutdown) ?u) = Inr ()"
    by (simp add: e deliver_def act_def)
  obtain ys where y: "outbox t = map note_of xs @ map note_of ys"
    using run_task_results(3) [OF s] c by (auto simp: t_def)
  have "worker_run L JP JS (?n + 1) ?s = (t, Inr ())"
    unfolding split using r s x by (simp add: worker_step_def t_def prod_eq_iff)
  moreover have "machine_ok L t" unfolding t_def using ok by (intro machine_ok_task) simp
  moreover have "m_callback t = heating_callback"
    using run_task_results(2) [OF s] c by (simp add: t_def)
  moreover have "\<not> powered (machine_of L t)" "map_of (rev (results t)) f = Some (Inr Done)"
    using o(2) by (simp_all add: t_def e deliver_def act_def)
  ultimately show ?thesis using y d by (metis map_append)
qed

text \<open>
  What the daemon needs of the devices beyond the device laws when it starts and ends:
  looking a component up, registering and unregistering closures and switching the LED
  outputs change no controller, and unregistering does not throw.
\<close>

definition lifecycle_laws :: "'d lib \<Rightarrow> bool" where
  "lifecycle_laws L \<longleftrightarrow> device_laws L \<and>
     (\<forall>l n d. snd (in_unregister L l n d) = Inr ()) \<and>
     (\<forall>a \<in> actuators.
        (\<forall>l. frame (ctl_isActive L a) (lookup L l)) \<and>
        (\<forall>l. frame (ctl_isActive L a) (in_getState L l)) \<and>
        (\<forall>l. frame (ctl_isActive L a) (in_register L l)) \<and>
        (\<forall>l n. frame (ctl_isActive L a) (in_unregister L l n)) \<and>
        (\<forall>l \<in> leds. frame (ctl_isActive L a) (ctl_activate L l)) \<and>
        (\<forall>l \<in> leds. frame (ctl_isActive L a) (ctl_deactivate L l)))"

lemma lifecycle_frames:
  assumes "lifecycle_laws L" and "a \<in> actuators"
  shows "frame (ctl_isActive L a) (lookup L l)" "frame (ctl_isActive L a) (in_getState L l)"
    "frame (ctl_isActive L a) (in_register L l)" "frame (ctl_isActive L a) (in_unregister L l n)"
    "l \<in> leds \<Longrightarrow> frame (ctl_isActive L a) (ctl_activate L l)"
    "l \<in> leds \<Longrightarrow> frame (ctl_isActive L a) (ctl_deactivate L l)"
  using assms by (simp_all add: lifecycle_laws_def)

lemma lifecycle_returns:
  assumes "lifecycle_laws L"
  shows "device_laws L" "snd (in_unregister L l n d) = Inr ()"
  using assms by (simp_all add: lifecycle_laws_def)

lemma off_frame:
  "(\<And>a. a \<in> actuators \<Longrightarrow> ctl_isActive L a (dev t) = ctl_isActive L a (dev s)) \<Longrightarrow>
   m_power t = m_power s \<Longrightarrow> off L t = off L s"
  by (simp add: off_def getPowerState_def getBrewState_def profilerActive_def deviceActive_def)

lemma LedsHandler_destroy_frames:
  assumes "lifecycle_laws L"
  shows "a \<in> actuators \<Longrightarrow> frame (ctl_isActive L a) (LedsHandler_destroy L)"
    and "snd (LedsHandler_destroy L d) = Inr ()"
proof -
  show "a \<in> actuators \<Longrightarrow> frame (ctl_isActive L a) (LedsHandler_destroy L)"
    unfolding LedsHandler_destroy_def by (intro frames lifecycle_frames assms) simp_all
  show "snd (LedsHandler_destroy L d) = Inr ()"
    using device_lawsD(2) [OF lifecycle_returns(1) [OF assms]]
    by (simp add: LedsHandler_destroy_def del: block.simps add: block_Cons_Inr block_single)
qed

lemma StateManager_destroy_frames:
  assumes "lifecycle_laws L"
  shows "snd (StateManager_destroy L s) = Inr ()"
    and "a \<in> actuators \<Longrightarrow> frame (deviceActive L a) (StateManager_destroy L)"
proof -
  have d: "device_laws L" and n: "no_device_errors L"
    using lifecycle_returns(1) [OF assms] by (simp_all add: device_laws_def)
  show "snd (StateManager_destroy L s) = Inr ()"
    by (simp add: StateManager_destroy_def StatusManager_destroy_def block_Cons_Inr block_single
        unregister_result(1) [OF n] LedsHandler_destroy_frames(2) [OF assms] del: block.simps)
  show "frame (deviceActive L a) (StateManager_destroy L)" if "a \<in> actuators"
    unfolding StateManager_destroy_def StatusManager_destroy_def
    by (intro frames activity_framesD [OF d that] LedsHandler_destroy_frames(1) [OF assms that])
      (simp_all add: deviceActive_def)
qed

lemma StateManager_destroy_off:
  assumes "lifecycle_laws L"
  shows "snd (StateManager_destroy L s) = Inr ()"
    and "off L (fst (StateManager_destroy L s)) = off L s"
proof -
  show "snd (StateManager_destroy L s) = Inr ()" by (rule StateManager_destroy_frames [OF assms])
  have p: "frame m_power (StateManager_destroy L)"
    unfolding StateManager_destroy_def StatusManager_destroy_def
    by (intro frames frame_on_dev) simp_all
  show "off L (fst (StateManager_destroy L s)) = off L s"
    using frameD [OF StateManager_destroy_frames(2) [OF assms]] frameD [OF p]
    by (intro off_frame) (simp_all add: deviceActive_def)
qed

lemma Buttons_destroy_off:
  assumes "lifecycle_laws L"
  shows "snd (ButtonsCallbackRegistrator_destroy L b d) = Inr ()"
    and "a \<in> actuators \<Longrightarrow> frame (ctl_isActive L a) (ButtonsCallbackRegistrator_destroy L b)"
proof -
  show "snd (ButtonsCallbackRegistrator_destroy L b d) = Inr ()"
    by (simp add: ButtonsCallbackRegistrator_destroy_def block_Cons_Inr block_single
        lifecycle_returns(2) [OF assms] del: block.simps)
  show "a \<in> actuators \<Longrightarrow> frame (ctl_isActive L a) (ButtonsCallbackRegistrator_destroy L b)"
    unfolding ButtonsCallbackRegistrator_destroy_def
    by (intro frames lifecycle_frames assms)
qed

lemma drain_defined:
  assumes "snd (dispatcher_destroy L JP JS f s) \<noteq> Inl UndefinedBehaviour"
  shows "snd (drain L JP JS (fst (AsyncEventDispatcher_destroy f s))) = Inr ()"
proof (cases "snd (drain L JP JS (fst (AsyncEventDispatcher_destroy f s)))")
  case (Inl e)
  have p: "snd (AsyncEventDispatcher_destroy f s) = Inr ()"
    by (simp add: AsyncEventDispatcher_destroy_def executeWithFuture_def push_def act_def)
  have "snd (dispatcher_destroy L JP JS f s) = Inl e"
    by (simp add: dispatcher_destroy_def block_Cons_Inr block_Cons_Inl p Inl del: block.simps)
  moreover have "e = UndefinedBehaviour"
    using Inl unfolding drain_def by (rule worker_run_undefined)
  ultimately show ?thesis using assms by simp
qed simp

lemma drain_idle:
  assumes "machine_ok L s" and "outbox s = []"
  shows "snd (drain L JP JS (fst (AsyncEventDispatcher_destroy f s))) = Inr ()"
proof -
  have "machine_ok L (s\<lparr>outbox := []\<rparr>)" using assms(1) by simp
  from shutdown_off(1) [OF this] assms(2) show ?thesis
    by (simp add: drain_def AsyncEventDispatcher_destroy_def executeWithFuture_def push_def act_def
        worker_run_def block_single worker_step_def run_task_future run_task_eqs finish_result
        deliver_def del: block.simps)
qed

lemma dispatcher_destroy_off:
  assumes "lifecycle_laws L" and "machine_ok L s" and "m_callback s = heating_callback"
    and "snd (drain L JP JS (fst (AsyncEventDispatcher_destroy f s))) = Inr ()"
  shows "snd (dispatcher_destroy L JP JS f s) = Inr ()"
    and "off L (fst (dispatcher_destroy L JP JS f s))"
proof -
  let ?s = "fst (AsyncEventDispatcher_destroy f s)"
  have p: "snd (AsyncEventDispatcher_destroy f s) = Inr ()"
    by (simp add: AsyncEventDispatcher_destroy_def executeWithFuture_def push_def act_def)
  from drain_shutdown [OF assms(2-4)] obtain t xs where t:
    "drain L JP JS ?s = (t, Inr ())" "machine_ok L t" "m_callback t = heating_callback"
    "outbox t = map note_of xs" "\<not> powered (machine_of L t)"
    "map_of (rev (results t)) f = Some (Inr Done)" by blast
  define u where "u = fst (drain L JP JS t)"
  have n: "snd (drain L JP JS t) = Inr ()" "machine_of L u = machine_of L t"
    using notes_run [OF t(3,4), of L JP JS] t(4) by (simp_all add: drain_def u_def)
  have "machine_ok L u" unfolding u_def drain_def
    by (rule keepsD [OF machine_ok_run t(2)])
  then have o: "off L u" using n(2) t(5) by (simp add: off_machine)
  have g: "future_get f t = (t, Inr ())" using t(6) by (simp add: future_get_def)
  have "dispatcher_destroy L JP JS f s = StateManager_destroy L u"
    by (simp add: dispatcher_destroy_def block_Cons_Inr block_single p t(1) g n(1) u_def
        del: block.simps)
  with o StateManager_destroy_off [OF assms(1)]
  show "snd (dispatcher_destroy L JP JS f s) = Inr ()"
    and "off L (fst (dispatcher_destroy L JP JS f s))" by metis+
qed

text \<open>The buttons are released first; nothing of the machine changes.\<close>

lemma buttons_released:
  assumes "lifecycle_laws (sys_lib E)" and "machine_ok (sys_lib E) (m_dispatcher daemon)"
  shows "\<exists>d. machine_ok (sys_lib E) (m_dispatcher daemon\<lparr>dev := d\<rparr>) \<and>
    Daemon_destroy E daemon =
      dispatcher_destroy (sys_lib E) (sys_profiles E) (sys_settings E) (exit_future E)
        (m_dispatcher daemon\<lparr>dev := d\<rparr>)"
proof -
  let ?L = "sys_lib E" and ?s = "m_dispatcher daemon"
  let ?d = "fst (ButtonsCallbackRegistrator_destroy ?L (m_buttonsHandler daemon) (dev ?s))"
  have "ctl_isActive ?L a ?d = ctl_isActive ?L a (dev ?s)" if "a \<in> actuators" for a
    by (rule frameD [OF Buttons_destroy_off(2) [OF assms(1) that]])
  then have "machine_ok ?L (?s\<lparr>dev := ?d\<rparr>)"
    by (intro machine_ok_device(1) [OF _ _ _ _ assms(2)]) simp_all
  moreover have "Daemon_destroy E daemon =
      dispatcher_destroy ?L (sys_profiles E) (sys_settings E) (exit_future E) (?s\<lparr>dev := ?d\<rparr>)"
    unfolding Daemon_destroy_def handlers_destroy_def
    by (simp add: block_Cons_Inr block_single on_dev_def zoom_def
        Buttons_destroy_off(1) [OF assms(1)] del: block.simps)
  ultimately show ?thesis by blast
qed

lemma idle_end_defined:
  assumes "lifecycle_laws (sys_lib E)" and "machine_ok (sys_lib E) (m_dispatcher daemon)"
    and "m_callback (m_dispatcher daemon) = heating_callback" and "outbox (m_dispatcher daemon) = []"
  shows "snd (Daemon_destroy E daemon) = Inr ()"
proof -
  obtain d where d: "machine_ok (sys_lib E) (m_dispatcher daemon\<lparr>dev := d\<rparr>)"
    "Daemon_destroy E daemon =
      dispatcher_destroy (sys_lib E) (sys_profiles E) (sys_settings E) (exit_future E)
        (m_dispatcher daemon\<lparr>dev := d\<rparr>)"
    using buttons_released [OF assms(1,2)] by blast
  then show ?thesis
    using dispatcher_destroy_off(1) [OF assms(1) d(1)] drain_idle [OF d(1)] assms(3,4) by simp
qed

lemma daemon_end:
  assumes "lifecycle_laws (sys_lib E)" and "machine_ok (sys_lib E) (m_dispatcher daemon)"
    and "m_callback (m_dispatcher daemon) = heating_callback"
    and "snd (Daemon_destroy E daemon) \<noteq> Inl UndefinedBehaviour"
  shows "snd (Daemon_destroy E daemon) = Inr () \<and> off (sys_lib E) (fst (Daemon_destroy E daemon))"
proof -
  obtain d where d: "machine_ok (sys_lib E) (m_dispatcher daemon\<lparr>dev := d\<rparr>)"
    "Daemon_destroy E daemon =
      dispatcher_destroy (sys_lib E) (sys_profiles E) (sys_settings E) (exit_future E)
        (m_dispatcher daemon\<lparr>dev := d\<rparr>)"
    using buttons_released [OF assms(1,2)] by blast
  have "m_callback (m_dispatcher daemon\<lparr>dev := d\<rparr>) = heating_callback" using assms(3) by simp
  from dispatcher_destroy_off [OF assms(1) d(1) this drain_defined] assms(4) d(2)
  show ?thesis by simp
qed


definition sample_system :: "(sim, string list \<Rightarrow> toml_entry option) system" where
  "sample_system = \<lparr>sys_lib = sim_lib, sys_toml = sample_toml, sys_profiles = one_json empty_profile,
     sys_settings = one_json (makeDefaultSettings 0), getCore = (\<lambda>_. skip), listens = (\<lambda>_. True),
     exit_future = 0\<rparr>"

definition sample_buttons :: buttons where
  "sample_buttons = \<lparr>m_powerButtonCallback = 0, m_brewButtonCallback = 0, m_steamButtonCallback = 0,
     powerClosure = PowerMomentary, brewClosure = BrewBistable, steamClosure = SteamBistable\<rparr>"

lemma sim_lifecycle_laws [simp]: "lifecycle_laws sim_lib"
  unfolding lifecycle_laws_def
  by (intro conjI sim_device_laws) (auto simp: sim_lib_def frame_def prog_defs leds_def actuators_def label_defs)


end
