(* ===== verification/Startup.thy ===== *)
theory Startup
  imports DaemonProps
begin

text \<open>
  The start of the daemon: what the constructed objects have in common with each other and
  with the abstract machine, and that a start either succeeds or leaves nothing behind.
\<close>

section \<open>Idle devices and fresh managers\<close>

definition idle :: "'d lib \<Rightarrow> 'd \<Rightarrow> bool" where
  "idle L d \<longleftrightarrow> (\<forall>a \<in> actuators. \<not> ctl_isActive L a d)"

definition fresh :: "'d lib \<Rightarrow> ('d, 'o list, 'z) state_manager_scheme \<Rightarrow> bool" where
  "fresh L s \<longleftrightarrow> machine_ok L s \<and> \<not> m_power s \<and> outbox s = []"

definition ready :: "'d lib \<Rightarrow> 'd dispatcher \<Rightarrow> bool" where
  "ready L s \<longleftrightarrow> fresh L s \<and> m_callback s = heating_callback \<and> m_eventsSinks s = [] \<and> results s = []"

text \<open>What a start needs: components are created inactive, and the rates fit the period.\<close>

definition system_ok :: "('d, 'c) system \<Rightarrow> string \<Rightarrow> bool" where
  "system_ok E path \<longleftrightarrow> lifecycle_laws (sys_lib E) \<and>
     (\<forall>cfg. keeps (idle (sys_lib E)) (getCore E cfg)) \<and>
     (\<forall>c p. fromFile (sys_toml E) path = Inr c \<longrightarrow>
        heaterReadyHysteresisPeriod (sys_toml E) c = Inr p \<longrightarrow> rates_ok (sys_lib E) p)"

lemma keeps_idle: "(\<And>a. a \<in> actuators \<Longrightarrow> frame (ctl_isActive L a) m) \<Longrightarrow> keeps (idle L) m"
  by (simp add: keeps_def idle_def frame_def)

lemma keeps_unchanged: "(\<And>s. fst (m s) = s) \<Longrightarrow> keeps P m"
  by (simp add: keeps_def)

lemma off_idle: "off L s \<longleftrightarrow> \<not> m_power s \<and> idle L (dev s)"
  by (auto simp: off_def idle_def actuators_def getPowerState_def getBrewState_def
      profilerActive_def deviceActive_def)

lemma machine_ok_idle:
  "\<not> m_power s \<Longrightarrow> machine_ok L s \<longleftrightarrow>
     machine_env L (m_readyHysteresisPeriod s) \<and> idle L (dev s)"
  by (auto simp: machine_ok_def heaters_ok_def idle_def actuators_def profilerActive_def
      deviceActive_def)

lemma fresh_off: "fresh L s \<Longrightarrow> off L s"
  by (auto simp: fresh_def off_idle machine_ok_idle)

lemma fresh_dev: "fresh L s \<Longrightarrow> idle L d \<Longrightarrow> fresh L (s\<lparr>dev := d\<rparr>)"
  by (auto simp: fresh_def machine_ok_idle)

lemma idle_operations:
  assumes "lifecycle_laws L"
  shows "keeps (idle L) (lookup L l)" "keeps (idle L) (in_getState L l)"
    "keeps (idle L) (in_register L l)" "keeps (idle L) (LedsHandler_create L)"
    "keeps (idle L) (LedsHandler_destroy L)" "keeps (idle L) (prof_register L)"
proof -
  note d = lifecycle_returns(1) [OF assms]
  show "keeps (idle L) (lookup L l)" "keeps (idle L) (in_getState L l)"
    "keeps (idle L) (in_register L l)" "keeps (idle L) (LedsHandler_create L)"
    "keeps (idle L) (LedsHandler_destroy L)" "keeps (idle L) (prof_register L)"
    unfolding LedsHandler_create_def
    by (rule keeps_idle, intro frames lifecycle_frames LedsHandler_destroy_frames
        activity_framesD [OF d] assms; simp)+
qed

section \<open>Stages\<close>

text \<open>
  How a construction ends: with an exception, no destructor having thrown, in a world that
  satisfies \<open>P\<close>, or with an object that satisfies \<open>Q\<close>.
\<close>

definition lands :: "('d \<Rightarrow> bool) \<Rightarrow> ('b \<Rightarrow> bool) \<Rightarrow> ('d \<times> ending) + 'b \<Rightarrow> bool" where
  "lands P Q r = (case r of Inl (d, e) \<Rightarrow> P d \<and> (\<exists>x. e = Thrown x) | Inr b \<Rightarrow> Q b)"

lemma lands_stage:
  assumes "I s" and "keeps I m"
    and "\<And>t. I t \<Longrightarrow> snd (destroy t) = Inr () \<and> P (part (fst (destroy t)))"
    and "\<And>t y. I t \<Longrightarrow> m s = (t, Inr y) \<Longrightarrow> lands P Q (k y t)"
  shows "lands P Q (stage m destroy part k s)"
proof -
  obtain t r where m: "m s = (t, r)" by (cases "m s")
  have t: "I t" using keepsD [OF assms(2,1)] by (simp add: m)
  show ?thesis
  proof (cases r)
    case (Inl e)
    then show ?thesis using assms(3) [OF t] m
      by (auto simp: stage_def unwind_def lands_def split: prod.split sum.split)
  next
    case (Inr y)
    then show ?thesis using assms(4) [OF t] m by (simp add: stage_def)
  qed
qed

section \<open>The stages of the daemon\<close>

text \<open>With the power off the setters touch the devices only.\<close>

lemma keeps_fresh:
  assumes "keeps (machine_ok L) m"
    and "\<And>s. \<not> m_power s \<Longrightarrow> outbox (fst (m s)) = outbox s \<and> \<not> m_power (fst (m s))"
  shows "keeps (fresh L) m"
  using assms by (simp add: keeps_def fresh_def)

lemma fresh_setters [kept]:
  "keeps (fresh L) (setBrewTemperature L t)" "keeps (fresh L) (setSteamTemperature L t)"
  "keeps (fresh L) (setBrewSteps L r)" "keeps (fresh L) (setAutoStopCondition L c)"
  by (rule keeps_fresh, rule machine_ok_operations,
      simp add: setBrewTemperature_def setSteamTemperature_def setBrewSteps_def
        setAutoStopCondition_def prog_defs split: sum.split)+

lemma fresh_apply [kept]:
  "keeps (fresh L) (applyBrewProfile L pm)" "keeps (fresh L) (applySettings L us)"
  by (auto simp: applyBrewProfile_def applyAutoStopCondition_def applySettings_def
      intro!: kept split: option.split StopConditionType.split)

lemma fresh_on_dev: "keeps (idle L) m \<Longrightarrow> keeps (fresh L) (on_dev m)"
  by (auto simp: keeps_def fresh_dev on_dev_def zoom_def fresh_def machine_ok_idle)

text \<open>Loading a message is what the contract of the stores calls \<open>boot\<close>.\<close>

lemma setup_boot:
  "setupBrewProfileManager L T c J =
     bindp (lift_result
       (bindr (brewProfilePath T c) (\<lambda>path. bindr (brewTemperature T c) (\<lambda>t.
        bindr (brewPressure T c) (\<lambda>p. Inr (BrewProfileManager_create path t p))))))
     (\<lambda>m d. (fst (fst (profile_store.boot L J (d, m))),
        map_sum id (\<lambda>_. snd (fst (profile_store.boot L J (d, m)))) (snd (profile_store.boot L J (d, m)))))"
  "setupUserSettingsManager L T c K =
     bindp (lift_result
       (bindr (userSettingsPath T c) (\<lambda>path. bindr (steamTemperature T c) (\<lambda>t.
        Inr (UserSettingsManager_create path t)))))
     (\<lambda>m d. (fst (fst (settings_store.boot L K (d, m))),
        map_sum id (\<lambda>_. snd (fst (settings_store.boot L K (d, m)))) (snd (settings_store.boot L K (d, m)))))"
  by (auto simp: setupBrewProfileManager_def setupUserSettingsManager_def profile_store.boot_def
      settings_store.boot_def fun_eq_iff bindp_def lift_result_def split: prod.split sum.split)

lemma setup_world:
  "fst (setupBrewProfileManager L T c J d) = d" "fst (setupUserSettingsManager L T c K d) = d"
  by (auto simp: setup_boot bindp_def lift_result_def profile_store.boot_keeps
      settings_store.boot_keeps split: sum.split)

lemma fresh_setup:
  "keeps (fresh L) (on_dev (setupBrewProfileManager L T c J))"
  "keeps (fresh L) (on_dev (setupUserSettingsManager L T c K))"
  by (rule fresh_on_dev, simp add: keeps_def setup_world)+

lemma StateManager_destroy_idle:
  assumes "lifecycle_laws L" and "off L s"
  shows "snd (StateManager_destroy L s) = Inr () \<and> idle L (dev (fst (StateManager_destroy L s)))"
  using StateManager_destroy_off [OF assms(1), of s] assms(2) by (simp add: off_idle)

lemma dispatcher_destroy_idle:
  assumes "lifecycle_laws L" and "ready L s"
  shows "snd (dispatcher_destroy L JP JS f s) = Inr () \<and>
    idle L (dev (fst (dispatcher_destroy L JP JS f s)))"
proof -
  have s: "machine_ok L s" "outbox s = []" "m_callback s = heating_callback"
    using assms(2) by (simp_all add: ready_def fresh_def)
  from dispatcher_destroy_off [OF assms(1) s(1,3) drain_idle [OF s(1,2)]]
  show ?thesis by (simp add: off_idle)
qed

lemma ready_on_dev: "keeps (idle L) m \<Longrightarrow> keeps (ready L) (on_dev m)"
  by (auto simp: keeps_def ready_def on_dev_def zoom_def fresh_def machine_ok_idle)

lemma handlers_destroy_idle:
  assumes "lifecycle_laws L" and "ready L s"
  shows "snd (handlers_destroy L JP JS f b s) = Inr () \<and>
    idle L (dev (fst (handlers_destroy L JP JS f b s)))"
proof -
  have "keeps (idle L) (ButtonsCallbackRegistrator_destroy L b)"
    by (rule keeps_idle, rule Buttons_destroy_off(2), rule assms)
  note ready_on_dev [OF this, THEN keepsD, OF assms(2)]
  from dispatcher_destroy_idle [OF assms(1) this, of JP JS f] show ?thesis
    by (simp add: handlers_destroy_def block_Cons_Inr block_single Buttons_destroy_off(1) [OF assms(1)]
        on_dev_def zoom_def del: block.simps)
qed

definition started :: "('d, 'c) system \<Rightarrow> 'd daemon \<Rightarrow> bool" where
  "started E daemon \<longleftrightarrow> ready (sys_lib E) (m_dispatcher daemon)"

lemma lands_server:
  assumes "system_ok E path" and "ready (sys_lib E) s"
  shows "lands (idle (sys_lib E)) (started E) (start_server E c b s)"
  unfolding start_server_def
proof (rule lands_stage [where I = "ready (sys_lib E)"])
  fix t
  assume "ready (sys_lib E) t"
  with assms(1) show "snd (handlers_destroy (sys_lib E) (sys_profiles E) (sys_settings E) (exit_future E) b t) = Inr () \<and>
      idle (sys_lib E) (dev (fst (handlers_destroy (sys_lib E) (sys_profiles E) (sys_settings E) (exit_future E) b t)))"
    by (intro handlers_destroy_idle) (simp_all add: system_ok_def)
qed (use assms in \<open>simp_all add: keeps_simple lands_def started_def\<close>)

lemma lands_buttons:
  assumes "system_ok E path" and "ready (sys_lib E) s"
  shows "lands (idle (sys_lib E)) (started E) (start_buttons E c s)"
  unfolding start_buttons_def
proof (rule lands_stage [where I = "ready (sys_lib E)"])
  have l: "lifecycle_laws (sys_lib E)" using assms(1) by (simp add: system_ok_def)
  show "keeps (ready (sys_lib E)) (on_dev (ButtonsCallbackRegistrator_create (sys_lib E)
      (powerButtonBistable (sys_toml E) c) (brewButtonBistable (sys_toml E) c)
      (steamButtonBistable (sys_toml E) c)))"
    unfolding ButtonsCallbackRegistrator_create_def registerPowerButtonCallback_def
      registerBrewButtonCallback_def registerSteamButtonCallback_def
    by (rule ready_on_dev) (auto intro!: kept idle_operations l split: prod.split)
qed (use assms in \<open>simp_all add: dispatcher_destroy_idle lands_server, simp_all add: system_ok_def dispatcher_destroy_idle\<close>)

lemma lands_dispatcher:
  assumes "system_ok E path" and "fresh (sys_lib E) s"
  shows "lands (idle (sys_lib E)) (started E) (start_dispatcher E c pm us s)"
  unfolding start_dispatcher_def
proof (rule lands_stage [where I = "fresh (sys_lib E)"])
  let ?L = "sys_lib E"
  have l: "lifecycle_laws ?L" using assms(1) by (simp add: system_ok_def)
  have r: "keeps (fresh ?L) (registerBrewProfilerCallback ?L)"
    unfolding registerBrewProfilerCallback_def by (intro fresh_on_dev idle_operations l)
  have fst_create: "fst (AsyncEventDispatcher_create ?L pm us t) = fst (registerBrewProfilerCallback ?L t)"
    for t by (simp add: AsyncEventDispatcher_create_def split: prod.split sum.split)
  show "keeps (fresh ?L) (AsyncEventDispatcher_create ?L pm us)"
    using r by (simp add: keeps_def fst_create)
  fix t :: "('a, task list) state_manager" and y :: "'a dispatcher"
  assume t: "fresh ?L t"
  show "snd (StateManager_destroy ?L t) = Inr () \<and> idle ?L (dev (fst (StateManager_destroy ?L t)))"
    by (rule StateManager_destroy_idle [OF l fresh_off [OF t]])
  assume "AsyncEventDispatcher_create ?L pm us s = (t, Inr y)"
  then have "ready ?L y" using t
    by (auto simp: AsyncEventDispatcher_create_def setHeatingStatusChangeCallback_def setCallback_def
        act_def ready_def fresh_def machine_ok_idle state_manager.defs split: prod.splits sum.splits)
  then show "lands (idle ?L) (started E) (start_buttons E c y)" by (rule lands_buttons [OF assms(1)])
qed (rule assms(2))

lemma lands_managers:
  assumes "system_ok E path" and "fresh (sys_lib E) s"
  shows "lands (idle (sys_lib E)) (started E) (start_managers E c s)"
proof -
  let ?L = "sys_lib E"
  have l: "lifecycle_laws ?L" using assms(1) by (simp add: system_ok_def)
  note d = StateManager_destroy_idle [OF l fresh_off]
  have a: "keeps (fresh ?L) (block [applyBrewProfile ?L pm, applySettings ?L us])" for pm us
    by (intro kept)
  show ?thesis unfolding start_managers_def Let_def
    by (rule lands_stage [where I = "fresh ?L", OF assms(2)], rule fresh_setup, erule d,
        rule lands_stage [where I = "fresh ?L"], assumption, rule fresh_setup, erule d,
        rule lands_stage [where I = "fresh ?L"], assumption, rule a, erule d,
        rule lands_dispatcher [OF assms(1)])
qed

lemma state_created:
  assumes "lifecycle_laws L" and "StateManager_create L sm d = (t, Inr s)" and "idle L t"
    and "outbox sm = []" and "m_temperatureCallback sm = None" and "rates_ok L (m_readyHysteresisPeriod sm)"
  shows "fresh L s \<and> dev s = t"
  using assms lifecycle_returns(1) [OF assms(1)]
  by (auto simp: StateManager_create_def bindp_def fresh_def machine_ok_idle machine_env_def
      status_manager.defs split: sum.splits)

lemma lands_state:
  assumes "system_ok E path" and "idle (sys_lib E) d"
    and "outbox sm = []" and "m_temperatureCallback sm = None" and "rates_ok (sys_lib E) (m_readyHysteresisPeriod sm)"
  shows "lands (idle (sys_lib E)) (started E) (start_state E c sm d)"
  unfolding start_state_def
proof (rule lands_stage [where I = "idle (sys_lib E)", OF assms(2)])
  let ?L = "sys_lib E"
  have l: "lifecycle_laws ?L" using assms(1) by (simp add: system_ok_def)
  show "keeps (idle ?L) (StateManager_create ?L sm)"
    unfolding StateManager_create_def
    by (intro keeps_bindp keeps_block_Cons keeps_block_Nil idle_operations l keeps_unchanged) simp
  fix t
  assume t: "idle ?L t"
  show "snd (case StateManager_destroy ?L (sm\<lparr>dev := t\<rparr>) of (t, r) \<Rightarrow> (dev t, r)) = Inr () \<and>
      idle ?L (id (fst (case StateManager_destroy ?L (sm\<lparr>dev := t\<rparr>) of (t, r) \<Rightarrow> (dev t, r))))"
    using StateManager_destroy_frames(1) [OF l, of "sm\<lparr>dev := t\<rparr>"] t
      frameD [OF StateManager_destroy_frames(2) [OF l], of _ "sm\<lparr>dev := t\<rparr>"]
    by (auto simp: idle_def deviceActive_def split: prod.split)
  fix y
  assume "StateManager_create ?L sm d = (t, Inr y)"
  from state_created [OF l this t assms(3-5)]
  show "lands (idle ?L) (started E) (start_managers E c y)"
    by (intro lands_managers [OF assms(1)]) simp
qed

lemma lands_status:
  assumes "system_ok E path" and "idle (sys_lib E) d"
    and "fromFile (sys_toml E) path = Inr c"
  shows "lands (idle (sys_lib E)) (started E) (start_status E c d)"
  unfolding start_status_def Let_def
proof (rule lands_stage [where I = "idle (sys_lib E)", OF assms(2)])
  let ?L = "sys_lib E" and ?T = "sys_toml E"
  let ?m = "bindp (lift_result (brewTemperatureWindow ?T c)) (\<lambda>brewWindow.
      bindp (lift_result (steamTemperatureWindow ?T c)) (\<lambda>steamWindow.
      bindp (lift_result (heaterReadyHysteresisPeriod ?T c)) (\<lambda>period.
        StatusManager_create ?L brewWindow steamWindow period ([] :: task list))))"
  have l: "lifecycle_laws ?L" using assms(1) by (simp add: system_ok_def)
  show "keeps (idle ?L) ?m"
    unfolding StatusManager_create_def
    by (intro keeps_bindp keeps_simple idle_operations l keeps_unchanged) simp
  fix t
  assume t: "idle ?L t"
  show "snd (LedsHandler_destroy ?L t) = Inr () \<and> idle ?L (id (fst (LedsHandler_destroy ?L t)))"
    using keepsD [OF idle_operations(5) [OF l] t] LedsHandler_destroy_frames(2) [OF l] by simp
  fix y :: "('a, task list) status_manager"
  assume "?m d = (t, Inr y)"
  then have "outbox y = [] \<and> m_temperatureCallback y = None \<and> rates_ok ?L (m_readyHysteresisPeriod y)"
    using assms(1,3) by (auto simp: bindp_def lift_result_def StatusManager_create_def system_ok_def
        split: sum.splits)
  then show "lands (idle ?L) (started E) (start_state E c y t)"
    using assms(1) t by (intro lands_state) simp_all
qed

lemma lands_daemon:
  assumes "system_ok E path" and "idle (sys_lib E) d"
  shows "lands (idle (sys_lib E)) (started E) (Daemon_create E path d)"
  unfolding Daemon_create_def Let_def
proof (rule lands_stage [where I = "idle (sys_lib E)", OF assms(2)])
  have l: "lifecycle_laws (sys_lib E)" and g: "\<And>cfg. keeps (idle (sys_lib E)) (getCore E cfg)"
    using assms(1) by (simp_all add: system_ok_def)
  show "keeps (idle (sys_lib E)) (bindp (lift_result (fromFile (sys_toml E) path)) (\<lambda>config.
      bindp (lift_result (setupLogger (sys_toml E) config)) (\<lambda>_.
      bindp (lift_result (ConfigMaker.make (sys_toml E) config)) (\<lambda>deviceConfig.
      bindp (getCore E deviceConfig) (\<lambda>_.
      bindp (LedsHandler_create (sys_lib E)) (\<lambda>_. return config))))))"
    by (intro keeps_bindp keeps_simple idle_operations l g)
next
  fix t c
  assume "idle (sys_lib E) t"
    and "bindp (lift_result (fromFile (sys_toml E) path)) (\<lambda>config.
      bindp (lift_result (setupLogger (sys_toml E) config)) (\<lambda>_.
      bindp (lift_result (ConfigMaker.make (sys_toml E) config)) (\<lambda>deviceConfig.
      bindp (getCore E deviceConfig) (\<lambda>_.
      bindp (LedsHandler_create (sys_lib E)) (\<lambda>_. return config))))) d = (t, Inr c)"
  then show "lands (idle (sys_lib E)) (started E) (start_status E c t)"
    by (intro lands_status [OF assms(1)]) (auto simp: bindp_def lift_result_def return_def split: sum.splits)
qed (simp_all add: skip_def)


section \<open>When a start succeeds\<close>

text \<open>The keys that the daemon reads besides those of the device configuration.\<close>

definition daemon_keys :: "(string list \<times> toml_type) list" where
  "daemon_keys =
     [([''log'', ''console_log_pattern''], StringType), ([''log'', ''console_log_level''], StringType),
      ([''global'', ''brew_profile_path''], StringType), ([''global'', ''user_settings_path''], StringType),
      ([''brew'', ''brew_temperature_window''], IntType), ([''brew'', ''temperature''], IntType),
      ([''brew'', ''pressure''], IntType), ([''steam'', ''steam_temperature_window''], IntType),
      ([''steam'', ''temperature''], IntType), ([''heater'', ''ready_hysteresis_period''], TimeType),
      ([''buttons'', ''power_bistable''], BoolType), ([''buttons'', ''brew_bistable''], BoolType),
      ([''buttons'', ''steam_bistable''], BoolType), ([''service'', ''socket_path''], StringType),
      ([''service'', ''tcp_enable''], BoolType), ([''service'', ''tcp_bind_address''], StringType)]"

text \<open>
  A file whose values have the right types, whose log level is one that spdlog has, and
  whose hysteresis period is not negative.
\<close>

definition daemon_typed :: "'c toml \<Rightarrow> 'c \<Rightarrow> bool" where
  "daemon_typed T c \<longleftrightarrow> well_typed T c \<and>
     (\<forall>(p, ty) \<in> set daemon_keys. \<forall>v. entry T c p = Some v \<longrightarrow> type_of v = ty) \<and>
     (case entry T c [''log'', ''console_log_level''] of
        Some (TString s) \<Rightarrow> s \<in> level_names T
      | _ \<Rightarrow> DEFAULT_CONSOLE_LOG_LEVEL \<in> level_names T) \<and>
     (case entry T c [''heater'', ''ready_hysteresis_period''] of
        Some (TTime n) \<Rightarrow> 0 \<le> n
      | _ \<Rightarrow> True) \<and> 0 \<le> ticks T"

lemma find_typed:
  assumes "toml_laws T" and "\<And>v. entry T c p = Some v \<Longrightarrow> type_of v = ty"
  shows "ty = StringType \<Longrightarrow> \<exists>x. find_or_string T c p s = Inr x"
    "ty = BoolType \<Longrightarrow> \<exists>x. find_or_bool T c p b = Inr x"
    "ty = IntType \<Longrightarrow> \<exists>x. find_or_int T c p n = Inr x"
  using toml_absent [OF assms(1)] toml_present [OF assms(1)] assms(2)
  by (cases "entry T c p"; force simp: type_of_cases)+

lemma daemon_values:
  assumes "toml_laws T" and "daemon_typed T c"
  shows "\<exists>x. logMessagePattern T c = Inr x" "\<exists>x. brewProfilePath T c = Inr x"
    "\<exists>x. userSettingsPath T c = Inr x" "\<exists>x. socketPath T c = Inr x"
    "\<exists>x. tcpBindAddress T c = Inr x" "\<exists>x. brewTemperatureWindow T c = Inr x"
    "\<exists>x. brewTemperature T c = Inr x" "\<exists>x. brewPressure T c = Inr x"
    "\<exists>x. steamTemperatureWindow T c = Inr x" "\<exists>x. steamTemperature T c = Inr x"
    "\<exists>x. powerButtonBistable T c = Inr x" "\<exists>x. brewButtonBistable T c = Inr x"
    "\<exists>x. steamButtonBistable T c = Inr x" "\<exists>x. tcpEnable T c = Inr x"
proof -
  have t: "(p, ty) \<in> set daemon_keys \<Longrightarrow> entry T c p = Some v \<Longrightarrow> type_of v = ty" for p ty v
    using assms(2) unfolding daemon_typed_def by blast
  show "\<exists>x. logMessagePattern T c = Inr x" "\<exists>x. brewProfilePath T c = Inr x"
    "\<exists>x. userSettingsPath T c = Inr x" "\<exists>x. socketPath T c = Inr x"
    "\<exists>x. tcpBindAddress T c = Inr x"
    unfolding logMessagePattern_def brewProfilePath_def userSettingsPath_def socketPath_def
      tcpBindAddress_def
    by (rule find_typed(1) [OF assms(1) _ refl], erule t [rotated], simp add: daemon_keys_def)+
  show "\<exists>x. brewTemperatureWindow T c = Inr x"
    "\<exists>x. brewTemperature T c = Inr x" "\<exists>x. brewPressure T c = Inr x"
    "\<exists>x. steamTemperatureWindow T c = Inr x" "\<exists>x. steamTemperature T c = Inr x"
    unfolding brewTemperatureWindow_def brewTemperature_def brewPressure_def
      steamTemperatureWindow_def steamTemperature_def
    by (rule find_typed(3) [OF assms(1) _ refl], erule t [rotated], simp add: daemon_keys_def)+
  show "\<exists>x. powerButtonBistable T c = Inr x" "\<exists>x. brewButtonBistable T c = Inr x"
    "\<exists>x. steamButtonBistable T c = Inr x" "\<exists>x. tcpEnable T c = Inr x"
    unfolding powerButtonBistable_def brewButtonBistable_def steamButtonBistable_def tcpEnable_def
    by (rule find_typed(2) [OF assms(1) _ refl], erule t [rotated], simp add: daemon_keys_def)+
qed

lemma period_value:
  assumes "toml_laws T" and "daemon_typed T c"
  shows "\<exists>p. heaterReadyHysteresisPeriod T c = Inr p"
proof -
  let ?p = "[''heater'', ''ready_hysteresis_period'']"
  have "(?p, TimeType) \<in> set daemon_keys" by (simp add: daemon_keys_def)
  then have t: "entry T c ?p = Some v \<Longrightarrow> type_of v = TimeType" for v
    using assms(2) unfolding daemon_typed_def by blast
  have k: "0 \<le> ticks T" using assms(2) by (simp add: daemon_typed_def)
  show ?thesis
  proof (cases "entry T c ?p")
    case None
    then show ?thesis using toml_absent(6) [OF assms(1) None] k
      by (simp add: heaterReadyHysteresisPeriod_def time_ticks_def DEFAULT_HEATER_READY_HYSTERESIS_PERIOD_def)
  next
    case (Some v)
    with t obtain n where n: "entry T c ?p = Some (TTime n)" by (auto simp: type_of_cases)
    then have "0 \<le> n" using assms(2) by (simp add: daemon_typed_def)
    then show ?thesis using toml_present(6) [OF assms(1) n] k
      by (simp add: heaterReadyHysteresisPeriod_def cdiv_nonneg not_less pos_imp_zdiv_nonneg_iff)
  qed
qed

lemma log_value:
  assumes "toml_laws T" and "daemon_typed T c"
  shows "\<exists>x. setupLogger T c = Inr x"
proof -
  let ?p = "[''log'', ''console_log_level'']"
  have "(?p, StringType) \<in> set daemon_keys" by (simp add: daemon_keys_def)
  then have t: "entry T c ?p = Some v \<Longrightarrow> type_of v = StringType" for v
    using assms(2) unfolding daemon_typed_def by blast
  have "\<exists>x. logLevel T c = Inr x"
  proof (cases "entry T c ?p")
    case None
    then show ?thesis using toml_absent(3) [OF assms(1) None] assms(2)
      by (simp add: logLevel_def enum_cast_def daemon_typed_def)
  next
    case (Some v)
    with t obtain s where s: "entry T c ?p = Some (TString s)" by (auto simp: type_of_cases)
    then show ?thesis using toml_present(4) [OF assms(1) s] assms(2)
      by (simp add: logLevel_def enum_cast_def daemon_typed_def)
  qed
  then show ?thesis using daemon_values(1) [OF assms] by (auto simp: setupLogger_def)
qed

lemma server_value:
  assumes "toml_laws T" and "daemon_typed T c"
  shows "\<exists>x. ServiceManager_create T c listening = Inr x"
  using daemon_values(4,5,14) [OF assms] by (auto simp: ServiceManager_create_def buildServer_def)

section \<open>Which starts succeed\<close>

text \<open>The core, its components and their closures are there; nothing of this touches a file.\<close>

definition devices_found :: "('d, 'c) system \<Rightarrow> bool" where
  "devices_found E \<longleftrightarrow>
     (\<forall>cfg. returns (getCore E cfg)) \<and> (\<forall>l. returns (lookup (sys_lib E) l)) \<and>
     (\<forall>l. returns (in_getState (sys_lib E) l)) \<and> (\<forall>l. returns (in_register (sys_lib E) l))"

definition files :: "'d lib \<Rightarrow> 'd \<Rightarrow> string \<Rightarrow> ifstream_result" where
  "files L d = (\<lambda>p. fs_read L p d)"

definition files_kept :: "('d, 'c) system \<Rightarrow> bool" where
  "files_kept E \<longleftrightarrow>
     (\<forall>cfg. frame (files (sys_lib E)) (getCore E cfg)) \<and>
     (\<forall>l. frame (files (sys_lib E)) (lookup (sys_lib E) l)) \<and>
     (\<forall>l. frame (files (sys_lib E)) (in_getState (sys_lib E) l)) \<and>
     (\<forall>l. frame (files (sys_lib E)) (ctl_activate (sys_lib E) l))"

text \<open>The profile that a start finds: the saved one, or the default if it cannot be read.\<close>

definition boot_profile ::
    "(string \<Rightarrow> ifstream_result) \<Rightarrow> BrewProfile json \<Rightarrow> string \<Rightarrow> BrewProfile \<Rightarrow> BrewProfile" where
  "boot_profile fs J file dflt =
     (case fs file of
        Content text \<Rightarrow> (case from_json J text empty_profile of (p, None) \<Rightarrow> p | _ \<Rightarrow> dflt)
      | _ \<Rightarrow> dflt)"

text \<open>A start that succeeds with the profile \<open>p\<close>.\<close>

definition boots :: "BrewProfile \<Rightarrow> ('d \<times> ending) + 'd daemon \<Rightarrow> bool" where
  "boots p r \<longleftrightarrow> (\<exists>daemon. r = Inr daemon \<and>
     getProfile (m_brewProfileManager (m_dispatcher daemon)) = p)"

lemma returnsE:
  assumes "returns m"
  obtains t y where "m s = (t, Inr y)" "t = fst (m s)"
  using returnsD [OF assms, of s] by (metis prod.collapse)

lemma stage_returned: "m s = (t, Inr y) \<Longrightarrow> stage m destroy part k s = k y t"
  by (simp add: stage_def)

lemma stage_failed: "snd (m s) = Inl e \<Longrightarrow> \<not> boots p (stage m destroy part k s)"
  by (cases "m s") (simp add: stage_def boots_def)

lemma server_boots:
  assumes "ServiceManager_create (sys_toml E) c (listens E) = Inr a"
  shows "boots p (start_server E c b s) \<longleftrightarrow> getProfile (m_brewProfileManager s) = p"
  by (simp add: start_server_def stage_def assms lift_result_def boots_def)

lemma buttons_boot:
  assumes "devices_found E" and "toml_laws (sys_toml E)" and "daemon_typed (sys_toml E) c"
  shows "boots p (start_buttons E c s) \<longleftrightarrow> getProfile (m_brewProfileManager s) = p"
proof -
  note v = daemon_values(11-13) [OF assms(2,3)]
  have "returns (ButtonsCallbackRegistrator_create (sys_lib E) (powerButtonBistable (sys_toml E) c)
      (brewButtonBistable (sys_toml E) c) (steamButtonBistable (sys_toml E) c))"
    unfolding ButtonsCallbackRegistrator_create_def registerPowerButtonCallback_def
      registerBrewButtonCallback_def registerSteamButtonCallback_def
    using v assms(1) by (auto intro!: returning simp: devices_found_def split: prod.split)
  from returnsD [OF this, of "dev s"] obtain b where
    "snd (ButtonsCallbackRegistrator_create (sys_lib E) (powerButtonBistable (sys_toml E) c)
      (brewButtonBistable (sys_toml E) c) (steamButtonBistable (sys_toml E) c) (dev s)) = Inr b" ..
  moreover obtain a where "ServiceManager_create (sys_toml E) c (listens E) = Inr a"
    using server_value [OF assms(2,3)] by blast
  ultimately show ?thesis
    by (simp add: start_buttons_def stage_def on_dev_def zoom_def server_boots)
qed

lemma dispatcher_boots:
  assumes "devices_found E" and "toml_laws (sys_toml E)" and "daemon_typed (sys_toml E) c"
    and "device_laws (sys_lib E)"
  shows "boots p (start_dispatcher E c pm us s) \<longleftrightarrow> getProfile pm = p"
proof -
  obtain n where n: "snd (prof_register (sys_lib E) (dev s)) = Inr n"
    using device_lawsD(12) [OF assms(4)] by blast
  obtain t y where t: "AsyncEventDispatcher_create (sys_lib E) pm us s = (t, Inr y)"
    "m_brewProfileManager y = pm"
    by (simp add: AsyncEventDispatcher_create_def registerBrewProfilerCallback_def on_dev_def
        zoom_def n state_manager.defs)
  show ?thesis unfolding start_dispatcher_def
    by (simp add: stage_def t buttons_boot [OF assms(1-3)])
qed

lemma setup_profile:
  assumes "brewProfilePath T c = Inr file" and "brewTemperature T c = Inr t"
    and "brewPressure T c = Inr b"
  shows "\<exists>m. setupBrewProfileManager L T c J d = (d, Inr m) \<and>
    getProfile m = boot_profile (files L d) J file (makeDefaultProfile t b)"
  using assms
  by (auto simp: setupBrewProfileManager_def bindp_def lift_result_def catching_def profile_defs
      BrewProfileManager_create_def getProfile_def boot_profile_def files_def
      split: ifstream_result.split option.split prod.split)

lemma setup_settings:
  assumes "toml_laws T" and "daemon_typed T c"
  shows "\<exists>m. setupUserSettingsManager L T c K d = (d, Inr m)"
  using daemon_values(3,10) [OF assms]
  by (auto simp: setupUserSettingsManager_def bindp_def lift_result_def catching_def settings_defs
      UserSettingsManager_create_def split: ifstream_result.split option.split prod.split)

lemma profile_settings_applied:
  assumes "fresh L s"
  shows "snd (block [applyBrewProfile L pm, applySettings L us] s) = Inr () \<longleftrightarrow>
    profile_valid L (getProfile pm)"
proof -
  have ok: "machine_ok L s" "\<not> getBrewState L s"
    using assms by (auto simp: fresh_def machine_ok_def heaters_ok_def getBrewState_def)
  have a: "snd (applyBrewProfile L pm s) = Inr () \<longleftrightarrow> profile_valid L (getProfile pm)"
    using applyBrewProfile_result [of L s pm, THEN conjunct2] ok
    by (simp add: machine_ok_def getProfile_def)
  have "machine_ok L (fst (applyBrewProfile L pm s))"
    by (rule keepsD [OF machine_ok_apply(1) ok(1)])
  then have "snd (applySettings L us (fst (applyBrewProfile L pm s))) = Inr ()"
    using setSteamTemperature_implements [of L "fst (applyBrewProfile L pm s)"]
    by (simp add: applySettings_def machine_ok_def implements_def skip_def)
  with a show ?thesis by (cases "snd (applyBrewProfile L pm s)") simp_all
qed

lemma managers_boot:
  assumes "devices_found E" and "toml_laws (sys_toml E)" and "daemon_typed (sys_toml E) c"
    and "fresh (sys_lib E) s" and "brewProfilePath (sys_toml E) c = Inr file"
    and "brewTemperature (sys_toml E) c = Inr t" and "brewPressure (sys_toml E) c = Inr b"
  shows "boots p (start_managers E c s) \<longleftrightarrow>
    p = boot_profile (files (sys_lib E) (dev s)) (sys_profiles E) file (makeDefaultProfile t b) \<and>
    profile_valid (sys_lib E) p"
proof -
  let ?L = "sys_lib E" and ?T = "sys_toml E"
  obtain pm where pm: "setupBrewProfileManager ?L ?T c (sys_profiles E) (dev s) = (dev s, Inr pm)"
    "getProfile pm = boot_profile (files ?L (dev s)) (sys_profiles E) file (makeDefaultProfile t b)"
    using setup_profile [OF assms(5-7), where L = ?L and J = "sys_profiles E" and d = "dev s"] by blast
  obtain us where us: "setupUserSettingsManager ?L ?T c (sys_settings E) (dev s) = (dev s, Inr us)"
    using setup_settings [OF assms(2,3), where L = ?L and K = "sys_settings E" and d = "dev s"] by blast
  let ?m = "block [applyBrewProfile ?L pm, applySettings ?L us]"
  have d: "device_laws ?L" using assms(4) by (simp add: fresh_def machine_ok_def machine_env_def)
  have e: "start_managers E c s =
      stage ?m (StateManager_destroy ?L) dev (\<lambda>_. start_dispatcher E c pm us) s"
    by (simp add: start_managers_def Let_def stage_def on_dev_def zoom_def pm(1) us)
  show ?thesis
  proof (cases "snd (?m s)")
    case (Inl x)
    then have "\<not> profile_valid ?L (getProfile pm)"
      using profile_settings_applied [OF assms(4), of pm us] by simp
    with stage_failed [where m = ?m, OF Inl] e pm(2) show ?thesis by metis
  next
    case (Inr x)
    then have v: "profile_valid ?L (getProfile pm)"
      using profile_settings_applied [OF assms(4), of pm us] by simp
    have "start_managers E c s = start_dispatcher E c pm us (fst (?m s))"
      using Inr by (cases "?m s") (simp add: e stage_def del: block.simps)
    with v pm(2) show ?thesis by (auto simp: dispatcher_boots [OF assms(1-3) d])
  qed
qed

text \<open>The stages before the managers only find devices.\<close>

lemma stage_found:
  assumes "returns m" and "keeps (idle L) m" and "frame (files L) m" and "idle L d"
  obtains t y where "stage m destroy part k d = k y t" "m d = (t, Inr y)" "idle L t"
    "files L t = files L d"
  using returnsE [OF assms(1), of d] keepsD [OF assms(2,4)] frameD [OF assms(3), of d]
  by (metis stage_returned)

lemma state_boots:
  assumes "system_ok E path" and "devices_found E" and "files_kept E"
    and "toml_laws (sys_toml E)" and "daemon_typed (sys_toml E) c" and "idle (sys_lib E) d"
    and "outbox sm = []" and "m_temperatureCallback sm = None" and "rates_ok (sys_lib E) (m_readyHysteresisPeriod sm)"
    and "brewProfilePath (sys_toml E) c = Inr file"
    and "brewTemperature (sys_toml E) c = Inr t" and "brewPressure (sys_toml E) c = Inr b"
  shows "boots p (start_state E c sm d) \<longleftrightarrow>
    p = boot_profile (files (sys_lib E) d) (sys_profiles E) file (makeDefaultProfile t b) \<and>
    profile_valid (sys_lib E) p"
proof -
  let ?L = "sys_lib E"
  have l: "lifecycle_laws ?L" using assms(1) by (simp add: system_ok_def)
  have "returns (StateManager_create ?L sm)"
    unfolding StateManager_create_def using assms(2)
    by (intro returning) (simp_all add: devices_found_def returns_def)
  moreover have "keeps (idle ?L) (StateManager_create ?L sm)"
    unfolding StateManager_create_def
    by (intro keeps_bindp keeps_block_Cons keeps_block_Nil idle_operations l keeps_unchanged) simp
  moreover have "frame (files ?L) (StateManager_create ?L sm)"
    unfolding StateManager_create_def using assms(3)
    by (intro frame_bindp frame_block_Cons frame_block_Nil) (simp_all add: files_kept_def frame_def)
  ultimately obtain d' s where s: "start_state E c sm d = start_managers E c s"
    "StateManager_create ?L sm d = (d', Inr s)" "idle ?L d'" "files ?L d' = files ?L d"
    using assms(6) unfolding start_state_def by (rule stage_found)
  from state_created [OF l s(2,3) assms(7-9)]
  have "fresh ?L s" "dev s = d'" by simp_all
  with managers_boot [OF assms(2,4,5) this(1) assms(10-12)] s(1,4) show ?thesis by simp
qed

lemma status_boots:
  assumes "system_ok E path" and "devices_found E" and "files_kept E"
    and "toml_laws (sys_toml E)" and "daemon_typed (sys_toml E) c" and "idle (sys_lib E) d"
    and "fromFile (sys_toml E) path = Inr c" and "brewProfilePath (sys_toml E) c = Inr file"
    and "brewTemperature (sys_toml E) c = Inr t" and "brewPressure (sys_toml E) c = Inr b"
  shows "boots p (start_status E c d) \<longleftrightarrow>
    p = boot_profile (files (sys_lib E) d) (sys_profiles E) file (makeDefaultProfile t b) \<and>
    profile_valid (sys_lib E) p"
proof -
  let ?L = "sys_lib E" and ?T = "sys_toml E"
  have l: "lifecycle_laws ?L" using assms(1) by (simp add: system_ok_def)
  obtain bw sw per where c: "brewTemperatureWindow ?T c = Inr bw"
    "steamTemperatureWindow ?T c = Inr sw" "heaterReadyHysteresisPeriod ?T c = Inr per"
    using daemon_values(6,9) [OF assms(4,5)] period_value [OF assms(4,5)] by blast
  let ?m = "StatusManager_create ?L bw sw per ([] :: task list)"
  have "returns ?m" "frame (files ?L) ?m"
    unfolding StatusManager_create_def using assms(2,3)
    by (intro returning frame_bindp; simp add: devices_found_def files_kept_def returns_def frame_def)+
  moreover have "keeps (idle ?L) ?m" unfolding StatusManager_create_def
    by (intro keeps_bindp idle_operations l keeps_unchanged) simp
  ultimately obtain d' sm where s: "start_status E c d = start_state E c sm d'"
    "?m d = (d', Inr sm)" "idle ?L d'" "files ?L d' = files ?L d"
    using assms(6) unfolding start_status_def Let_def c lift_result_def bindp_def
    by simp (rule stage_found)
  from StatusManager_create_result [OF s(2)] assms(1,7) c(3)
  have "outbox sm = []" "m_temperatureCallback sm = None" "rates_ok ?L (m_readyHysteresisPeriod sm)"
    by (simp_all add: system_ok_def)
  from state_boots [OF assms(1-5) s(3) this assms(8-10)] s(1,4) show ?thesis by simp
qed

lemma core_found:
  assumes "system_ok E path" and "devices_found E" and "files_kept E" and "idle (sys_lib E) d"
  obtains t where "bindp (getCore E cfg) (\<lambda>_. bindp (LedsHandler_create (sys_lib E)) (\<lambda>_. return x)) d =
    (t, Inr x)" "idle (sys_lib E) t" "files (sys_lib E) t = files (sys_lib E) d"
proof -
  let ?L = "sys_lib E"
  let ?m = "bindp (getCore E cfg) (\<lambda>_. bindp (LedsHandler_create ?L) (\<lambda>_. return x))"
  have l: "lifecycle_laws ?L" and g: "\<And>cfg. keeps (idle ?L) (getCore E cfg)"
    using assms(1) by (simp_all add: system_ok_def)
  have "returns (ctl_activate ?L l)" for l
    using device_lawsD(1) [OF lifecycle_returns(1) [OF l]] by (simp add: returns_def)
  then have "returns ?m" "frame (files ?L) ?m"
    unfolding LedsHandler_create_def using assms(2,3)
    by (intro returning frames; simp add: devices_found_def files_kept_def)+
  moreover have "keeps (idle ?L) ?m" by (intro keeps_bindp keeps_simple idle_operations l g)
  moreover obtain t y where t: "?m d = (t, Inr y)" "t = fst (?m d)"
    by (rule returnsE [OF \<open>returns ?m\<close>])
  moreover have "y = x"
    using t(1) by (auto simp: bindp_def return_def split: sum.splits)
  ultimately show ?thesis
    using assms(4) by (intro that [of t]) (simp_all add: frameD keepsD)
qed

lemma daemon_boots:
  assumes "system_ok E path" and "devices_found E" and "files_kept E"
    and "toml_laws (sys_toml E)" and "daemon_typed (sys_toml E) c" and "idle (sys_lib E) d"
    and "fromFile (sys_toml E) path = Inr c" and "brewProfilePath (sys_toml E) c = Inr file"
    and "brewTemperature (sys_toml E) c = Inr t" and "brewPressure (sys_toml E) c = Inr b"
  shows "boots p (Daemon_create E path d) \<longleftrightarrow>
    (\<exists>dc. ConfigMaker.make (sys_toml E) c = Inr dc) \<and>
    p = boot_profile (files (sys_lib E) d) (sys_profiles E) file (makeDefaultProfile t b) \<and>
    profile_valid (sys_lib E) p"
proof -
  let ?L = "sys_lib E" and ?T = "sys_toml E"
  obtain lg where lg: "setupLogger ?T c = Inr lg" using log_value [OF assms(4,5)] by blast
  let ?k = "\<lambda>dc. bindp (getCore E dc) (\<lambda>_. bindp (LedsHandler_create ?L) (\<lambda>_. return c))"
  have e: "Daemon_create E path d = stage (\<lambda>d. case ConfigMaker.make ?T c of Inl e \<Rightarrow> (d, Inl e)
      | Inr dc \<Rightarrow> ?k dc d) skip id (start_status E) d"
    by (simp add: Daemon_create_def Let_def stage_def bindp_def lift_result_def assms(7) lg split: sum.split)
  show ?thesis
  proof (cases "ConfigMaker.make ?T c")
    case (Inl x)
    then show ?thesis by (simp add: e stage_def boots_def)
  next
    case (Inr dc)
    obtain d' where d: "?k dc d = (d', Inr c)" "idle ?L d'" "files ?L d' = files ?L d"
      by (rule core_found [OF assms(1-3,6)])
    then have "Daemon_create E path d = start_status E c d'" by (simp add: e stage_def Inr)
    with status_boots [OF assms(1-5) d(2) assms(7-10), of p] d(3) Inr show ?thesis by simp
  qed
qed

text \<open>
  C6: given its devices and a file whose values have the right types, the daemon starts
  exactly when every required key is in the file and the brew profile is valid: the saved
  one, if it can be read, and the default one otherwise; that profile is then the current
  one. An unreadable profile is replaced by the default, an invalid one is not.
\<close>

theorem daemon_starts_iff:
  assumes "system_ok E path" and "devices_found E" and "files_kept E"
    and "toml_laws (sys_toml E)" and "daemon_typed (sys_toml E) c" and "idle (sys_lib E) d"
    and "fromFile (sys_toml E) path = Inr c" and "brewProfilePath (sys_toml E) c = Inr file"
    and "brewTemperature (sys_toml E) c = Inr t" and "brewPressure (sys_toml E) c = Inr b"
  shows "let p = boot_profile (files (sys_lib E) d) (sys_profiles E) file (makeDefaultProfile t b) in
    ((\<exists>daemon. Daemon_create E path d = Inr daemon) \<longleftrightarrow>
       (\<forall>(k, ty) \<in> set required_keys. entry (sys_toml E) c k \<noteq> None) \<and> profile_valid (sys_lib E) p) \<and>
    (\<forall>daemon. Daemon_create E path d = Inr daemon \<longrightarrow>
       getProfile (m_brewProfileManager (m_dispatcher daemon)) = p)"
proof -
  have t: "well_typed (sys_toml E) c" using assms(5) by (simp add: daemon_typed_def)
  show ?thesis
    using daemon_boots [OF assms] device_config_iff [OF assms(4) t]
    unfolding boots_def Let_def by blast
qed

lemma save_keeps_machine:
  assumes "device_laws L"
  shows "machine_of L (fst (on_profiles (saveProfile L J p) s)) = machine_of L s"
  by (rule machine_ok_device(2) [OF _ _ _ _ assms])
    (auto simp: on_profiles_def zoom_def saveProfile_def Let_def split_def activity_fs_write
      split: sum.split ofstream_result.split)

text \<open>
  C7: the profile of a request decides every later start. Once the profile is written, any
  start that finds this file succeeds exactly when the profile is valid, and then with this
  profile; the request itself succeeds exactly when the profile is valid and no brew runs.
  So a profile that was refused because it is invalid keeps the daemon from starting.
\<close>

theorem requested_profile_decides_starts:
  assumes "system_ok E path" and "devices_found E" and "files_kept E"
    and "toml_laws (sys_toml E)" and "daemon_typed (sys_toml E) c"
    and "\<forall>(k, ty) \<in> set required_keys. entry (sys_toml E) c k \<noteq> None"
    and "fromFile (sys_toml E) path = Inr c" and "brewProfilePath (sys_toml E) c = Inr file"
    and "fs_laws (sys_lib E)" and "json_laws (sys_profiles E)"
    and "machine_ok (sys_lib E) s" and "m_profilePath (m_brewProfileManager s) = file"
    and "saveProfile (sys_lib E) (sys_profiles E) p (dev s, m_brewProfileManager s) = ((w, m), Inr ())"
    and "idle (sys_lib E) d" and "fs_read (sys_lib E) file d = fs_read (sys_lib E) file w"
  shows "(snd (doSetBrewProfile (sys_lib E) (sys_profiles E) p s) = Inr () \<longleftrightarrow>
      profile_valid (sys_lib E) p \<and> \<not> getBrewState (sys_lib E) s) \<and>
    ((\<exists>daemon. Daemon_create E path d = Inr daemon) \<longleftrightarrow> profile_valid (sys_lib E) p) \<and>
    (\<forall>daemon. Daemon_create E path d = Inr daemon \<longrightarrow>
       getProfile (m_brewProfileManager (m_dispatcher daemon)) = p)"
proof -
  let ?L = "sys_lib E" and ?J = "sys_profiles E" and ?T = "sys_toml E"
  obtain t b where c: "brewTemperature ?T c = Inr t" "brewPressure ?T c = Inr b"
    using daemon_values(7,8) [OF assms(4,5)] by blast
  have 0: "\<exists>dc. ConfigMaker.make ?T c = Inr dc"
    using assms(5,6) device_config_iff [OF assms(4)] by (simp add: daemon_typed_def)
  obtain js where "to_json ?J p = Inr js" "fs_read ?L file w = Content js"
    using assms(9,12,13) by (auto simp: profile_defs fs_laws_def split: sum.splits prod.splits ofstream_result.splits)
      (metis fst_conv snd_conv)
  then have "boot_profile (files ?L d) ?J file (makeDefaultProfile t b) = p"
    using assms(10,15) by (simp add: boot_profile_def files_def json_laws_def)
  with 0 have 1: "boots q (Daemon_create E path d) \<longleftrightarrow> q = p \<and> profile_valid ?L p" for q
    using daemon_boots [OF assms(1-5,14,7,8) c, of q] by auto
  let ?s = "s\<lparr>dev := w, m_brewProfileManager := m\<rparr>"
  have o: "on_profiles (saveProfile ?L ?J p) s = (?s, Inr ())"
    using assms(13) by (simp add: on_profiles_def zoom_def)
  then have "machine_ok ?L ?s"
    using keepsD [OF machine_ok_save(1) assms(11), of ?J p] by simp
  moreover from this have "getBrewState ?L ?s = getBrewState ?L s"
    using save_keeps_machine [of ?L ?J p s] o
    by (simp add: machine_of_def getBrewState_def machine_ok_def machine_env_def)
  moreover have "m_currentProfile m = p"
    using profile_store.save_current [of ?L ?J p "(dev s, m_brewProfileManager s)"] assms(13) by simp
  ultimately have "snd (doSetBrewProfile ?L ?J p s) = Inr () \<longleftrightarrow>
      profile_valid ?L p \<and> \<not> getBrewState ?L s"
    using applyBrewProfile_result [of ?L ?s m, THEN conjunct2]
    by (cases "snd (applyBrewProfile ?L m ?s)")
      (auto simp: doSetBrewProfile_def o machine_ok_def notifyChanged_told)
  with 1 show ?thesis by (auto simp: boots_def)
qed


section \<open>A concrete start\<close>

definition sample_start :: "BrewProfile \<Rightarrow> (sim, string list \<Rightarrow> toml_entry option) system" where
  "sample_start p = sample_system\<lparr>sys_toml := sample_toml\<lparr>parse_file := (\<lambda>_. Inr sample_config)\<rparr>,
     sys_profiles := one_json p\<rparr>"

lemma sample_start_fields [simp]:
  "sys_lib (sample_start p) = sim_lib" "sys_profiles (sample_start p) = one_json p"
  "getCore (sample_start p) = (\<lambda>_. skip)" "exit_future (sample_start p) = 0"
  "fromFile (sys_toml (sample_start p)) path = Inr sample_config"
  "entry (sys_toml (sample_start p)) c k = c k"
  by (simp_all add: sample_start_def sample_system_def fromFile_def)

lemma sample_start_laws: "toml_laws (sys_toml (sample_start p))"
  using sample_toml_laws(1) by (simp add: sample_start_def toml_laws_def)

lemma daemon_keys_distinct: "distinct (map fst (required_keys @ daemon_keys))"
  by (simp add: required_keys_def daemon_keys_def)

lemma sample_daemon_keys: "(k, ty) \<in> set daemon_keys \<Longrightarrow> sample_config k = None"
  using daemon_keys_distinct by (force simp: sample_config_def map_of_eq_None_iff)

lemma sample_start_typed: "daemon_typed (sys_toml (sample_start p)) sample_config"
proof -
  have e: "pull_names (sys_toml (sample_start p)) = pull_names sample_toml"
    "entry (sys_toml (sample_start p)) = entry sample_toml"
    by (simp_all add: sample_start_def)
  have w: "well_typed (sys_toml (sample_start p)) sample_config"
    using sample_config_typed unfolding well_typed_def e .
  have n: "sample_config [''log'', ''console_log_level''] = None"
    "sample_config [''heater'', ''ready_hysteresis_period''] = None"
    by (rule sample_daemon_keys, simp add: daemon_keys_def)+
  have k: "\<forall>(k, ty) \<in> set daemon_keys. \<forall>v. sample_config k = Some v \<longrightarrow> type_of v = ty"
    using sample_daemon_keys by fastforce
  show ?thesis
    using w n k by (simp add: daemon_typed_def)
      (simp add: sample_start_def sample_toml_def DEFAULT_CONSOLE_LOG_LEVEL_def)
qed

lemma sample_start_values:
  "brewProfilePath (sys_toml (sample_start p)) sample_config = Inr ''/var/lib/openpressod/brew_profile.json''"
  "brewTemperature (sys_toml (sample_start p)) sample_config = Inr 95000"
  "brewPressure (sys_toml (sample_start p)) sample_config = Inr 9000"
  "heaterReadyHysteresisPeriod (sys_toml (sample_start p)) sample_config = Inr 5000000000"
  by (simp_all add: sample_start_def sample_toml_def brewProfilePath_def brewTemperature_def
      brewPressure_def heaterReadyHysteresisPeriod_def time_ticks_def daemonBaseDirectory_def
      DEFAULT_BREW_PROFILE_FILE_NAME_def DEFAULT_BREW_TEMPERATURE_def DEFAULT_BREW_PRESSURE_def
      DEFAULT_HEATER_READY_HYSTERESIS_PERIOD_def sample_system_def
      sample_daemon_keys [unfolded daemon_keys_def])

lemma sample_start_required: "\<forall>(k, ty) \<in> set required_keys. sample_config k \<noteq> None"
  by (auto simp: sample_config_required)

lemma sample_start_ok: "system_ok (sample_start p) path"
proof -
  have "rates_ok sim_lib 5000000000"
    using required_counts [OF sim_ticks] by (auto simp: rates_ok_def sim_lib_def)
  then show ?thesis
    by (simp add: system_ok_def sample_start_values keeps_simple)
qed

lemma sample_start_found: "devices_found (sample_start p)" "files_kept (sample_start p)"
  by (simp_all add: devices_found_def files_kept_def returns_def frame_def files_def)
    (simp_all add: sim_lib_def prog_defs)

lemma sample_world_idle: "idle sim_lib (sim_world\<lparr>sim_files := fs\<rparr>)"
  by (simp add: idle_def sim_world_def)

text \<open>Without a saved profile the default is the one that starts.\<close>

lemma sample_default_valid: "profile_valid sim_lib (makeDefaultProfile 95000 9000)"
proof -
  have "float_of_int 9000 = Finite 9000"
    using f32_of_int_exact [of 9000] by (simp add: float_of_int_def)
  then show ?thesis
    by (simp add: profile_valid_def makeDefaultProfile_def empty_profile_def step_valid_def
        stop_valid_def convertible_def sim_lib_def trunc_def)
qed

lemma sample_default_boot:
  "boot_profile (files sim_lib (sim_world\<lparr>sim_files := Map.empty\<rparr>)) J f dflt = dflt"
  by (simp add: boot_profile_def files_def sim_lib_def)

lemma sample_starts:
  "boots (makeDefaultProfile 95000 9000)
     (Daemon_create (sample_start empty_profile) path (sim_world\<lparr>sim_files := Map.empty\<rparr>))"
  using daemon_boots [OF sample_start_ok [of empty_profile path] sample_start_found sample_start_laws
      sample_start_typed _ _ sample_start_values(1-3), of "sim_world\<lparr>sim_files := Map.empty\<rparr>"]
    sample_start_required device_config_iff [OF sample_start_laws
      conjunct1 [OF sample_start_typed [unfolded daemon_typed_def]], of empty_profile]
  by (simp add: sample_world_idle sample_default_valid sample_default_boot)


theorem daemon_starts_iff_witness:
  "\<exists>daemon. Daemon_create (sample_start empty_profile) ''conf'' (sim_world\<lparr>sim_files := Map.empty\<rparr>) = Inr daemon"
  using daemon_starts_iff [OF sample_start_ok [of empty_profile "''conf''"] sample_start_found
      sample_start_laws sample_start_typed _ _ sample_start_values(1-3),
      of "sim_world\<lparr>sim_files := Map.empty\<rparr>"] sample_start_required
  by (simp add: sample_world_idle sample_default_valid sample_default_boot Let_def)

text \<open>A profile whose one step has no target: it is refused, and nothing starts after it.\<close>

definition bad_profile :: BrewProfile where
  "bad_profile = empty_profile\<lparr>steps := [sample_step\<lparr>targettype := Target_Other 7\<rparr>]\<rparr>"

theorem requested_profile_decides_starts_witness:
  "snd (doSetBrewProfile sim_lib (one_json bad_profile) bad_profile
     (sample_on False\<lparr>m_brewProfileManager := sample_profiles
        \<lparr>m_profilePath := ''/var/lib/openpressod/brew_profile.json''\<rparr>\<rparr>)) \<noteq> Inr () \<and>
   \<not> (\<exists>daemon. Daemon_create (sample_start bad_profile) ''conf''
     (sim_world\<lparr>sim_files := [''/var/lib/openpressod/brew_profile.json'' \<mapsto> ''message'']\<rparr>) = Inr daemon)"
proof -
  let ?file = "''/var/lib/openpressod/brew_profile.json''"
  let ?d = "sim_world\<lparr>sim_files := [?file \<mapsto> ''message'']\<rparr>"
  let ?s = "sample_on False\<lparr>m_brewProfileManager := sample_profiles\<lparr>m_profilePath := ?file\<rparr>\<rparr>"
  have ok: "machine_ok sim_lib ?s" "m_profilePath (m_brewProfileManager ?s) = ?file"
    using sample_on_ok [of False]
    by (simp_all add: machine_ok_def heaters_ok_def profilerActive_def deviceActive_def)
  obtain w m where w: "saveProfile sim_lib (one_json bad_profile) bad_profile
      (dev ?s, m_brewProfileManager ?s) = ((w, m), Inr ())" "fs_read sim_lib ?file ?d = fs_read sim_lib ?file w"
    by (simp add: saveProfile_def one_json_def sim_lib_def Let_def)
  have v: "\<not> profile_valid sim_lib bad_profile"
    by (simp add: profile_valid_def bad_profile_def step_valid_def sample_step_def)
  have f: "fs_laws sim_lib" by (simp add: fs_laws_def sim_lib_def)
  show ?thesis
    using requested_profile_decides_starts [OF sample_start_ok [of bad_profile "''conf''"] sample_start_found
      sample_start_laws sample_start_typed _ _ sample_start_values(1), of ?s bad_profile w m ?d]
      sample_start_required ok w v f
    by (simp add: sample_world_idle)
qed


end
