(* ===== verification/Process.thy ===== *)
theory Process
  imports Startup
begin

text \<open>
  \<^verbatim>\<open>signals_handler/signals_handler\<close> and \<^verbatim>\<open>main.cpp\<close>: the whole process, from its arguments
  to its exit code, and what holds in every state that it can reach.
\<close>

section \<open>The signals handler\<close>

datatype signal = SIGINT | SIGTERM | SIGHUP | OtherSignal nat

text \<open>The signals that the handler is installed for, and the flag that it sets.\<close>

record signals =
  handled :: "signal set"
  s_exit :: bool

definition signals_init :: signals where
  "signals_init = \<lparr>handled = {}, s_exit = False\<rparr>"

definition exitSignalsHandler :: "signal \<Rightarrow> signals stmt" where
  "exitSignalsHandler _ = act (\<lambda>s. s\<lparr>s_exit := True\<rparr>)"

text \<open>\<open>installs\<close> says for which signals \<^verbatim>\<open>std::signal\<close> does not return \<^verbatim>\<open>SIG_ERR\<close>.\<close>

definition registerExitHandler :: "(signal \<Rightarrow> bool) \<Rightarrow> signal \<Rightarrow> signals stmt" where
  "registerExitHandler installs signal = branch (\<lambda>_. installs signal)
     (act (\<lambda>s. s\<lparr>handled := insert signal (handled s)\<rparr>))
     (throw (RuntimeError ''Failed to register signal handler''))"

definition SignalsHandler_init :: "(signal \<Rightarrow> bool) \<Rightarrow> signals stmt" where
  "SignalsHandler_init installs = block
     [registerExitHandler installs SIGINT, registerExitHandler installs SIGTERM,
      registerExitHandler installs SIGHUP]"

definition exitFlag :: "signals \<Rightarrow> bool" where
  "exitFlag s = s_exit s"

text \<open>A signal with the handler calls it; the others are not the program's affair.\<close>

definition raise_signal :: "signal \<Rightarrow> signals stmt" where
  "raise_signal signal = branch (\<lambda>s. signal \<in> handled s) (exitSignalsHandler signal) skip"

section \<open>The process\<close>

text \<open>What CLI11 makes of the arguments: the path, an exit code of its own, or an error.\<close>

datatype cli = Parsed string | ParseExit int | CliError string

definition EX_OK :: int where "EX_OK = 0"
definition EX_SOFTWARE :: int where "EX_SOFTWARE = 70"

datatype 'd process =
    Running "'d daemon" signals
  | Exited int 'd
  | Aborted 'd
  | Undefined

text \<open>
  The destructor at the end of the block of \<^verbatim>\<open>main\<close> is \<^verbatim>\<open>noexcept\<close>: an exception in it
  ends the program.
\<close>

definition main_stop :: "('d, 'c) system \<Rightarrow> 'd daemon \<Rightarrow> 'd process" where
  "main_stop E daemon =
     (case Daemon_destroy E daemon of
        (s, Inr _) \<Rightarrow> Exited EX_OK (dev s)
      | (s, Inl e) \<Rightarrow> if e = UndefinedBehaviour then Undefined else Aborted (dev s))"

text \<open>
  Up to the wait for the exit flag. The signals that arrive while the daemon is built are
  in \<open>early\<close>; an exception of \<^verbatim>\<open>SignalsHandler::init\<close> is outside the \<^verbatim>\<open>try\<close> block.
\<close>

definition main_start ::
    "('d, 'c) system \<Rightarrow> (signal \<Rightarrow> bool) \<Rightarrow> signal list \<Rightarrow> cli \<Rightarrow> 'd \<Rightarrow> 'd process" where
  "main_start E installs early args d =
     (case args of
        ParseExit code \<Rightarrow> Exited code d
      | CliError _ \<Rightarrow> Exited EX_SOFTWARE d
      | Parsed configPath \<Rightarrow>
          (case SignalsHandler_init installs signals_init of
             (_, Inl e) \<Rightarrow> Aborted d
           | (signals, Inr _) \<Rightarrow>
               (case Daemon_create E configPath d of
                  Inl (d', Terminated) \<Rightarrow> Aborted d'
                | Inl (d', Thrown e) \<Rightarrow>
                    if e = UndefinedBehaviour then Undefined else Exited EX_SOFTWARE d'
                | Inr daemon \<Rightarrow>
                    Running daemon (fst (block (map raise_signal early) signals)))))"

section \<open>What the process can do\<close>

text \<open>
  While the daemon runs: a request arrives, the worker takes a task, the sensor delivers a
  temperature, the world changes (a running brew may end by itself), a signal arrives. Once
  the exit flag is set the main thread takes the daemon down.
\<close>

inductive process_step :: "('d, 'c) system \<Rightarrow> 'd process \<Rightarrow> 'd process \<Rightarrow> bool" for E where
  request: "m \<in> requests \<Longrightarrow> process_step E (Running D sig)
    (Running (D\<lparr>m_dispatcher := fst (m (m_dispatcher D))\<rparr>) sig)"
| work: "worker_step (sys_lib E) (sys_profiles E) (sys_settings E) (m_dispatcher D) = (s, Inr ()) \<Longrightarrow>
    process_step E (Running D sig) (Running (D\<lparr>m_dispatcher := s\<rparr>) sig)"
| undefined: "worker_step (sys_lib E) (sys_profiles E) (sys_settings E) (m_dispatcher D) = (s, Inl e) \<Longrightarrow>
    process_step E (Running D sig) Undefined"
| reading: "process_step E (Running D sig)
    (Running (D\<lparr>m_dispatcher := fst (deliverTemperature (sys_lib E) t (m_dispatcher D))\<rparr>) sig)"
| world: "\<lbrakk>ctl_isActive (sys_lib E) STEAM_CONTROLLER_LABEL d =
      ctl_isActive (sys_lib E) STEAM_CONTROLLER_LABEL (dev (m_dispatcher D));
    ctl_isActive (sys_lib E) BREW_TEMPERATURE_CONTROLLER_LABEL d =
      ctl_isActive (sys_lib E) BREW_TEMPERATURE_CONTROLLER_LABEL (dev (m_dispatcher D));
    ctl_isActive (sys_lib E) BREW_PROFILER_LABEL d \<longrightarrow>
      ctl_isActive (sys_lib E) BREW_PROFILER_LABEL (dev (m_dispatcher D))\<rbrakk> \<Longrightarrow>
    process_step E (Running D sig) (Running (D\<lparr>m_dispatcher := (m_dispatcher D)\<lparr>dev := d\<rparr>\<rparr>) sig)"
| signal: "process_step E (Running D sig) (Running D (fst (raise_signal g sig)))"
| stop: "exitFlag sig \<Longrightarrow> process_step E (Running D sig) (main_stop E D)"

inductive_simps ended_steps [simp]:
  "process_step E (Exited code d) q" "process_step E (Aborted d) q" "process_step E Undefined q"

lemma ended_stays:
  assumes "(process_step E)\<^sup>*\<^sup>* p q" and "\<And>D sig. p \<noteq> Running D sig"
  shows "q = p"
  using assms by (cases p) (auto elim: converse_rtranclpE)

definition process_start :: "('d, 'c) system \<Rightarrow> 'd process \<Rightarrow> bool" where
  "process_start E p \<longleftrightarrow> (\<exists>installs early args d. idle (sys_lib E) d \<and>
     (\<forall>path. args = Parsed path \<longrightarrow> system_ok E path) \<and> p = main_start E installs early args d)"

section \<open>The invariant\<close>

definition serving :: "('d, 'c) system \<Rightarrow> 'd dispatcher \<Rightarrow> bool" where
  "serving E s \<longleftrightarrow> lifecycle_laws (sys_lib E) \<and> machine_ok (sys_lib E) s \<and> m_callback s = heating_callback"

definition process_ok :: "('d, 'c) system \<Rightarrow> 'd process \<Rightarrow> bool" where
  "process_ok E p =
     (case p of
        Running D sig \<Rightarrow> serving E (m_dispatcher D) \<and> handled sig = {SIGINT, SIGTERM, SIGHUP}
      | Exited _ d \<Rightarrow> idle (sys_lib E) d
      | Aborted d \<Rightarrow> idle (sys_lib E) d
      | Undefined \<Rightarrow> True)"

lemma init_handles:
  "snd (SignalsHandler_init installs s) = Inr () \<Longrightarrow>
   handled (fst (SignalsHandler_init installs s)) = handled s \<union> {SIGINT, SIGTERM, SIGHUP} \<and>
   s_exit (fst (SignalsHandler_init installs s)) = s_exit s"
  by (auto simp: SignalsHandler_init_def registerExitHandler_def branch_def act_def throw_def
      split: if_splits)

lemma raise_signal_result:
  "raise_signal g s = (s\<lparr>s_exit := s_exit s \<or> g \<in> handled s\<rparr>, Inr ())"
  by (simp add: raise_signal_def exitSignalsHandler_def branch_def act_def skip_def)

lemma raise_signals_result:
  "block (map raise_signal gs) s = (s\<lparr>s_exit := s_exit s \<or> (\<exists>g \<in> set gs. g \<in> handled s)\<rparr>, Inr ())"
  by (induction gs arbitrary: s) (auto simp: raise_signal_result)

lemma requests_push: "m \<in> requests \<Longrightarrow> \<exists>t. m = push t"
  by (auto simp: requests_def togglePowerState_def toggleBrew_def button_startBrew_def
      button_stopBrew_def toggleSteamModeState_def button_setPowerState_def
      button_setSteamModeState_def addEventsStreamReactor_def releaseEventsStreamReactor_def
      resetWeight_def getBrewProfile_def setBrewProfile_def remote_getPowerState_def
      remote_setPowerState_def remote_getBrewState_def remote_startBrew_def remote_stopBrew_def
      remote_getSteamModeState_def remote_setSteamModeState_def getUserSettings_def
      setUserSettings_def brewCallback_def executeDiscardResult_def executeWithCallback_def
      split: option.split)

lemma serving_request: "m \<in> requests \<Longrightarrow> serving E s \<Longrightarrow> serving E (fst (m s))"
  by (drule requests_push) (auto simp: serving_def push_def act_def)

lemma serving_work:
  assumes "worker_step (sys_lib E) JP JS s = (t, Inr ())" and "serving E s"
  shows "serving E t"
proof -
  have "machine_ok (sys_lib E) (fst (worker_step (sys_lib E) JP JS s))"
    using assms(2) by (intro keepsD [OF machine_ok_step]) (simp add: serving_def)
  moreover have "m_callback t = m_callback s"
    using run_callback [of "sys_lib E" JP JS 1 s] assms(1) by (simp add: worker_run_def block_single)
  ultimately show ?thesis using assms by (simp add: serving_def)
qed

lemma serving_reading:
  assumes "serving E s"
  shows "serving E (fst (deliverTemperature (sys_lib E) t s))"
  using assms heaters_ok_deliver [of "sys_lib E" s t]
  by (auto simp: serving_def machine_ok_def machine_env_def
      frameD [OF frame_status_operations(3) [of m_callback]])

lemma main_stop_ok:
  assumes "serving E (m_dispatcher D)"
  shows "main_stop E D = Undefined \<or> (\<exists>d. main_stop E D = Exited EX_OK d \<and> idle (sys_lib E) d)"
proof (cases "snd (Daemon_destroy E D) = Inl UndefinedBehaviour")
  case True
  then show ?thesis by (cases "Daemon_destroy E D") (simp add: main_stop_def)
next
  case False
  from daemon_end [OF _ _ _ False] assms show ?thesis
    by (cases "Daemon_destroy E D") (auto simp: main_stop_def serving_def off_idle)
qed

lemma process_start_ok: "process_start E p \<Longrightarrow> process_ok E p"
proof -
  assume "process_start E p"
  then obtain installs early args d where d: "idle (sys_lib E) d"
    and s: "\<And>path. args = Parsed path \<Longrightarrow> system_ok E path"
    and p: "p = main_start E installs early args d" by (auto simp: process_start_def)
  show ?thesis
  proof (cases args)
    case (Parsed path)
    note l = lands_daemon [OF s [OF Parsed] d]
    have c: "lifecycle_laws (sys_lib E)" using s [OF Parsed] by (simp add: system_ok_def)
    obtain sig r where i: "SignalsHandler_init installs signals_init = (sig, r)"
      by (cases "SignalsHandler_init installs signals_init")
    show ?thesis
    proof (cases r)
      case (Inl e)
      then show ?thesis using d by (simp add: p Parsed main_start_def i process_ok_def)
    next
      case (Inr u)
      then have "handled sig = {SIGINT, SIGTERM, SIGHUP}"
        using init_handles [of installs signals_init] i by (simp add: signals_init_def)
      note h = this
      show ?thesis
      proof (cases "Daemon_create E path d")
        case create: (Inl x)
        obtain d' e where "x = (d', Thrown e)" "idle (sys_lib E) d'"
          using l by (cases x) (auto simp: create lands_def)
        then show ?thesis by (simp add: p Parsed main_start_def i Inr create process_ok_def)
      next
        case create: (Inr D)
        have "serving E (m_dispatcher D)"
          using l c by (simp add: create lands_def started_def ready_def fresh_def serving_def)
        with h show ?thesis
          by (simp add: p Parsed main_start_def i Inr create process_ok_def raise_signals_result)
      qed
    qed
  qed (use d in \<open>simp_all add: p main_start_def process_ok_def\<close>)
qed

lemma serving_world:
  assumes "ctl_isActive (sys_lib E) STEAM_CONTROLLER_LABEL d =
      ctl_isActive (sys_lib E) STEAM_CONTROLLER_LABEL (dev s)"
    and "ctl_isActive (sys_lib E) BREW_TEMPERATURE_CONTROLLER_LABEL d =
      ctl_isActive (sys_lib E) BREW_TEMPERATURE_CONTROLLER_LABEL (dev s)"
    and "ctl_isActive (sys_lib E) BREW_PROFILER_LABEL d \<longrightarrow>
      ctl_isActive (sys_lib E) BREW_PROFILER_LABEL (dev s)"
    and "serving E s"
  shows "serving E (s\<lparr>dev := d\<rparr>)"
  using assms by (auto simp: serving_def machine_ok_def heaters_ok_def profilerActive_def deviceActive_def)

lemma process_ok_running [simp]:
  "process_ok E (Running D sig) \<longleftrightarrow>
     serving E (m_dispatcher D) \<and> handled sig = {SIGINT, SIGTERM, SIGHUP}"
  by (simp add: process_ok_def)

lemma process_step_ok: "process_step E p q \<Longrightarrow> process_ok E p \<Longrightarrow> process_ok E q"
proof (induction rule: process_step.induct)
  case (request m D sig)
  then show ?case by (simp add: serving_request [OF request(1)])
next
  case (work D s sig)
  then show ?case by (simp add: serving_work [OF work(1)])
next
  case (undefined D s e sig)
  show ?case by (simp add: process_ok_def)
next
  case (reading D sig t)
  then show ?case by (simp add: serving_reading)
next
  case (world d D sig)
  then show ?case by (simp add: serving_world)
next
  case (signal D sig g)
  then show ?case by (simp add: raise_signal_result)
next
  case (stop sig D)
  then have "serving E (m_dispatcher D)" by simp
  from main_stop_ok [OF this] show ?case
    by (elim disjE exE conjE) (simp_all add: process_ok_def)
qed

interpretation process: safety "process_start E" "process_step E" "process_ok E" for E
  by unfold_locales (erule process_start_ok, erule process_step_ok)

section \<open>What the process promises\<close>


text \<open>
  An exit signal ends a running process: after it the flag is set, the main thread
  can take the daemon down at once, and doing so leads to exit code 0 with every actuator
  off, or meets an undefined conversion in a waiting request. The end is final.
\<close>

lemma signal_ends_running:
  assumes "process_start E p" and "(process_step E)\<^sup>*\<^sup>* p (Running D sig)"
    and "g \<in> {SIGINT, SIGTERM, SIGHUP}"
  shows "let sig' = fst (raise_signal g sig) in
    exitFlag sig' \<and> process_step E (Running D sig) (Running D sig') \<and>
    process_step E (Running D sig') (main_stop E D) \<and>
    (main_stop E D = Undefined \<or> (\<exists>d. main_stop E D = Exited 0 d \<and> idle (sys_lib E) d)) \<and>
    (\<forall>q. (process_step E)\<^sup>*\<^sup>* (main_stop E D) q \<longrightarrow> q = main_stop E D)"
proof -
  have ok: "process_ok E (Running D sig)" using assms(1,2) by (rule process.reachable_inv)
  then have f: "exitFlag (fst (raise_signal g sig))"
    using assms(3) by (simp add: raise_signal_result exitFlag_def)
  have "serving E (m_dispatcher D)" using ok by simp
  note m = main_stop_ok [OF this]
  then have "main_stop E D \<noteq> Running D' sig'" for D' sig' by auto
  with ended_stays have "\<forall>q. (process_step E)\<^sup>*\<^sup>* (main_stop E D) q \<longrightarrow> q = main_stop E D" by blast
  with m f show ?thesis
    by (simp add: Let_def EX_OK_def process_step.signal process_step.stop)
qed

text \<open>How a start of the process can have gone when the process is where it is now.\<close>

definition explained ::
    "('d, 'c) system \<Rightarrow> cli \<Rightarrow> 'd \<Rightarrow> 'd process \<Rightarrow> 'd process \<Rightarrow> bool" where
  "explained E args d p q =
     (case q of
        Running _ _ \<Rightarrow> \<exists>path D. args = Parsed path \<and> Daemon_create E path d = Inr D
      | Exited code _ \<Rightarrow>
          (case args of
             ParseExit n \<Rightarrow> code = n
           | CliError _ \<Rightarrow> code = EX_SOFTWARE
           | Parsed path \<Rightarrow>
               code = EX_SOFTWARE \<and> (\<exists>x. Daemon_create E path d = Inl x) \<or>
               code = EX_OK \<and> (\<exists>x. Daemon_create E path d = Inr x) \<and>
                 (\<exists>D sig. (process_step E)\<^sup>*\<^sup>* p (Running D sig) \<and> exitFlag sig))
      | Aborted _ \<Rightarrow> False
      | Undefined \<Rightarrow> True)"

lemma explained_start:
  assumes "\<And>path. args = Parsed path \<Longrightarrow> system_ok E path" and "idle (sys_lib E) d"
    and "\<And>g. g \<in> {SIGINT, SIGTERM, SIGHUP} \<Longrightarrow> installs g"
  shows "explained E args d p (main_start E installs early args d)"
proof (cases args)
  case (Parsed path)
  have i: "snd (SignalsHandler_init installs signals_init) = Inr ()"
    using assms(3) by (simp add: SignalsHandler_init_def registerExitHandler_def branch_def act_def)
  then obtain sig where s: "SignalsHandler_init installs signals_init = (sig, Inr ())"
    by (metis prod.collapse)
  note l = lands_daemon [OF assms(1) [OF Parsed] assms(2)]
  show ?thesis
  proof (cases "Daemon_create E path d")
    case create: (Inl x)
    obtain d' e where "x = (d', Thrown e)" using l by (cases x) (auto simp: create lands_def)
    then show ?thesis by (simp add: Parsed main_start_def s create explained_def)
  next
    case create: (Inr D)
    then show ?thesis by (simp add: Parsed main_start_def s explained_def)
  qed
qed (simp_all add: main_start_def explained_def)

lemma explained_step:
  assumes "process_step E q r" and "process_ok E q" and "explained E args d p q"
    and "(process_step E)\<^sup>*\<^sup>* p q"
  shows "explained E args d p r"
  using assms
proof cases
  case (stop sig D)
  have "serving E (m_dispatcher D)" using stop assms(2) by simp
  from main_stop_ok [OF this] show ?thesis
  proof (elim disjE exE conjE)
    fix d'
    assume "main_stop E D = Exited EX_OK d'"
    moreover obtain path D' where "args = Parsed path" "Daemon_create E path d = Inr D'"
      using stop assms(3) by (auto simp: explained_def)
    ultimately show ?thesis using stop assms(4) by (auto simp: explained_def)
  qed (simp add: stop explained_def)
qed (simp_all add: explained_def)

lemma explained_reachable:
  assumes "(process_step E)\<^sup>*\<^sup>* p q" and "process_ok E p" and "explained E args d p p"
  shows "process_ok E q \<and> explained E args d p q"
  using assms
proof (induction rule: rtranclp_induct)
  case (step q r)
  then show ?case by (blast intro: explained_step process_step_ok)
qed simp


section \<open>A concrete process\<close>

abbreviation sample_main :: "sim process" where
  "sample_main \<equiv> main_start (sample_start empty_profile) (\<lambda>_. True) [] (Parsed ''conf'')
     (sim_world\<lparr>sim_files := Map.empty\<rparr>)"

lemma sample_main_start: "process_start (sample_start empty_profile) sample_main"
  unfolding process_start_def
  by (rule exI [of _ "\<lambda>_. True"], rule exI [of _ "[]"], rule exI [of _ "Parsed ''conf''"],
      rule exI [of _ "sim_world\<lparr>sim_files := Map.empty\<rparr>"]) (simp add: sample_world_idle sample_start_ok)

lemma sample_main_runs:
  obtains D sig where "sample_main = Running D sig" "ready sim_lib (m_dispatcher D)"
proof -
  let ?E = "sample_start empty_profile" and ?d = "sim_world\<lparr>sim_files := Map.empty\<rparr>"
  obtain D where c: "Daemon_create ?E ''conf'' ?d = Inr D"
    using sample_starts [of "''conf''"] by (auto simp: boots_def)
  have "lands (idle (sys_lib ?E)) (started ?E) (Daemon_create ?E ''conf'' ?d)"
    by (rule lands_daemon [OF sample_start_ok]) (simp add: sample_world_idle)
  with c have "ready sim_lib (m_dispatcher D)" by (simp add: lands_def started_def)
  moreover obtain sig where "sample_main = Running D sig"
    by (simp add: main_start_def c SignalsHandler_init_def registerExitHandler_def branch_def act_def)
  ultimately show ?thesis by (rule that [rotated])
qed

lemma sample_main_stops:
  assumes "ready sim_lib (m_dispatcher D)"
  shows "\<exists>d. main_stop (sample_start empty_profile) D = Exited 0 d"
proof -
  have "snd (Daemon_destroy (sample_start empty_profile) D) = Inr ()"
    using assms by (intro idle_end_defined) (simp_all add: ready_def fresh_def)
  then show ?thesis
    by (cases "Daemon_destroy (sample_start empty_profile) D") (simp add: main_stop_def EX_OK_def)
qed



end
