(* ===== verification/EventsReactor.thy ===== *)
theory EventsReactor
  imports Progress "HOL-Library.Word" "HOL-Library.Sublist"
begin

text \<open>
  \<^verbatim>\<open>service/events_stream_reactor\<close>: the queue of one event stream and the thread that writes
  it to the client. Unlike the serial executor, the reactor changes the atomic queue size
  outside the lock: an event is in the queue before it is counted, and a batch is taken
  before it is subtracted. Every critical section and every atomic operation is a step of
  its own. \<open>pushed\<close> and \<open>written\<close> record the events put in and those whose write was
  completed; \<open>uncounted\<close> and \<open>cancels\<close> count the threads that have put an event in and
  not yet counted it, and the cancellations.
\<close>

datatype write_status = Idle | InProgress | Failed

datatype stream_point = Waiting | Woken | Taken | Ready | Writing | Finished

record 'e reactor =
  m_writeStatus :: write_status
  m_queueSize :: "64 word"
  m_eventsQueue :: "'e list"
  batch :: "'e list"
  point :: stream_point
  uncounted :: nat
  cancels :: nat
  pushed :: "'e list"
  written :: "'e list"
  released :: bool

definition reactor_init :: "'e reactor" where
  "reactor_init = \<lparr>m_writeStatus = Idle, m_queueSize = 0, m_eventsQueue = [], batch = [],
     point = Waiting, uncounted = 0, cancels = 0, pushed = [], written = [], released = False\<rparr>"

section \<open>Operations\<close>

text \<open>\<^verbatim>\<open>pushEvent\<close>: the critical section and the count.\<close>

definition push_event :: "'e \<Rightarrow> 'e reactor \<Rightarrow> 'e reactor" where
  "push_event e s = s\<lparr>m_eventsQueue := m_eventsQueue s @ [e], uncounted := uncounted s + 1,
     pushed := pushed s @ [e]\<rparr>"

definition count_event :: "'e reactor \<Rightarrow> 'e reactor" where
  "count_event s = s\<lparr>m_queueSize := m_queueSize s + 1, uncounted := uncounted s - 1\<rparr>"

definition OnWriteDone :: "bool \<Rightarrow> 'e reactor \<Rightarrow> 'e reactor" where
  "OnWriteDone ok s = s\<lparr>m_writeStatus := (if ok then Idle else Failed)\<rparr>"

definition OnCancel :: "'e reactor \<Rightarrow> 'e reactor" where
  "OnCancel s = s\<lparr>m_queueSize := m_queueSize s + 1, cancels := cancels s + 1\<rparr>"

text \<open>After \<^verbatim>\<open>Finish\<close>: the thread has ended, and the dispatcher is asked to drop the stream.\<close>

definition OnDone :: "'e reactor \<Rightarrow> 'e reactor" where
  "OnDone s = s\<lparr>released := True\<rparr>"

text \<open>The worker thread, one step at a time; \<open>None\<close> is a blocked or finished thread.\<close>

definition take_events :: "'e reactor \<Rightarrow> 'e reactor" where
  "take_events s = s\<lparr>batch := m_eventsQueue s, m_eventsQueue := [], point := Taken\<rparr>"

definition subtract_batch :: "'e reactor \<Rightarrow> 'e reactor" where
  "subtract_batch s = s\<lparr>m_queueSize := m_queueSize s - of_nat (length (batch s)),
     point := (if batch s = [] then Finished else Ready)\<rparr>"

definition start_write :: "'e reactor \<Rightarrow> 'e reactor" where
  "start_write s = s\<lparr>m_writeStatus := InProgress, point := Writing\<rparr>"

definition end_write :: "'e reactor \<Rightarrow> 'e reactor" where
  "end_write s =
     (if m_writeStatus s = Failed then s\<lparr>point := Finished\<rparr>
      else s\<lparr>written := written s @ [hd (batch s)], batch := tl (batch s),
             point := (if tl (batch s) = [] then Waiting else Ready)\<rparr>)"

definition worker :: "'e reactor \<Rightarrow> 'e reactor option" where
  "worker s =
     (case point s of
        Waiting \<Rightarrow> if m_queueSize s = 0 then None else Some (s\<lparr>point := Woken\<rparr>)
      | Woken \<Rightarrow> Some (take_events s)
      | Taken \<Rightarrow> Some (subtract_batch s)
      | Ready \<Rightarrow> Some (start_write s)
      | Writing \<Rightarrow> if m_writeStatus s = InProgress then None else Some (end_write s)
      | Finished \<Rightarrow> None)"

section \<open>Steps\<close>

text \<open>
  With \<open>atomic\<close> the queue is not taken between an event and its count: the interleavings
  that would remain if both were done under the lock, as the serial executor does.
\<close>

inductive reactor_step :: "bool \<Rightarrow> 'e reactor \<Rightarrow> 'e reactor \<Rightarrow> bool" for atomic where
  push: "reactor_step atomic s (push_event e s)"
| count: "0 < uncounted s \<Longrightarrow> reactor_step atomic s (count_event s)"
| write_done: "point s = Writing \<Longrightarrow> m_writeStatus s = InProgress \<Longrightarrow>
    reactor_step atomic s (OnWriteDone ok s)"
| cancel: "reactor_step atomic s (OnCancel s)"
| finish: "point s = Finished \<Longrightarrow> \<not> released s \<Longrightarrow> reactor_step atomic s (OnDone s)"
| work: "worker s = Some t \<Longrightarrow> (atomic \<Longrightarrow> point s = Woken \<Longrightarrow> uncounted s = 0) \<Longrightarrow>
    reactor_step atomic s t"

definition reactor_ok :: "bool \<Rightarrow> 'e reactor \<Rightarrow> bool" where
  "reactor_ok atomic s \<longleftrightarrow>
     pushed s = written s @ batch s @ m_eventsQueue s \<and>
     (point s \<in> {Ready, Writing} \<longrightarrow> batch s \<noteq> []) \<and>
     (point s \<in> {Waiting, Woken} \<longrightarrow> batch s = []) \<and>
     m_queueSize s + of_nat (uncounted s) =
       of_nat (length (m_eventsQueue s)) + of_nat (cancels s) +
       (if point s = Taken then of_nat (length (batch s)) else 0) \<and>
     (released s \<longrightarrow> point s = Finished) \<and>
     (point s = Finished \<longrightarrow> batch s \<noteq> [] \<longrightarrow> m_writeStatus s = Failed) \<and>
     (atomic \<longrightarrow> uncounted s \<le> length (m_eventsQueue s) \<and>
       (point s = Woken \<longrightarrow> m_eventsQueue s \<noteq> [] \<or> 0 < cancels s) \<and>
       (point s = Taken \<longrightarrow> batch s \<noteq> [] \<or> 0 < cancels s) \<and>
       (point s = Finished \<longrightarrow> 0 < cancels s \<or> m_writeStatus s = Failed))"

lemma stream_worker_ok:
  assumes "reactor_ok atomic s" and "worker s = Some t"
    and "atomic \<Longrightarrow> point s = Woken \<Longrightarrow> uncounted s = 0"
  shows "reactor_ok atomic t"
proof (cases "point s")
  case Waiting
  then have "t = s\<lparr>point := Woken\<rparr>" and n: "m_queueSize s \<noteq> 0"
    using assms(2) by (auto simp: worker_def split: if_splits)
  moreover have "atomic \<Longrightarrow> m_eventsQueue s = [] \<Longrightarrow> 0 < cancels s"
    using assms(1) n Waiting by (cases "cancels s") (auto simp: reactor_ok_def)
  ultimately show ?thesis using assms(1) Waiting by (auto simp: reactor_ok_def)
next
  case Woken
  then have "t = take_events s" and "batch s = []"
    using assms by (simp_all add: worker_def reactor_ok_def)
  then show ?thesis using assms(1,3) Woken by (auto simp: reactor_ok_def take_events_def)
next
  case Taken
  then have "t = subtract_batch s" using assms by (simp add: worker_def)
  then show ?thesis using assms(1) Taken
    by (auto simp: reactor_ok_def subtract_batch_def algebra_simps)
next
  case Ready
  then have "t = start_write s" using assms by (simp add: worker_def)
  then show ?thesis using assms(1) Ready by (auto simp: reactor_ok_def start_write_def)
next
  case Writing
  then have "t = end_write s" using assms(2) by (simp add: worker_def split: if_splits)
  moreover obtain x xs where "batch s = x # xs"
    using assms(1) Writing by (cases "batch s") (auto simp: reactor_ok_def)
  ultimately show ?thesis using assms(1) Writing by (auto simp: reactor_ok_def end_write_def)
next
  case Finished
  then show ?thesis using assms(2) by (simp add: worker_def)
qed

lemma reactor_ok_step: "reactor_step atomic s t \<Longrightarrow> reactor_ok atomic s \<Longrightarrow> reactor_ok atomic t"
proof (induction rule: reactor_step.induct)
  case (push s e)
  then show ?case by (cases "point s") (simp_all add: reactor_ok_def push_event_def)
next
  case (count s)
  then show ?case
    by (cases "uncounted s"; cases "point s")
      (auto simp: reactor_ok_def count_event_def algebra_simps)
next
  case (write_done s ok)
  then show ?case by (simp add: reactor_ok_def OnWriteDone_def)
next
  case (cancel s)
  then show ?case by (cases "point s") (simp_all add: reactor_ok_def OnCancel_def algebra_simps)
next
  case (finish s)
  then show ?case by (simp add: reactor_ok_def OnDone_def)
qed (rule stream_worker_ok)

lemma reactor_ok_init: "reactor_ok atomic reactor_init"
  by (simp add: reactor_ok_def reactor_init_def)

interpretation stream: safety "\<lambda>s. s = reactor_init" "reactor_step atomic" "reactor_ok atomic"
  for atomic
  by unfold_locales (simp add: reactor_ok_init, rule reactor_ok_step)

text \<open>
  In every interleaving the client gets the events in the order in which they were
  pushed, without gap or repetition, and an event whose write is under way is the next one.
\<close>

lemma stream_in_order:
  assumes "(reactor_step atomic)\<^sup>*\<^sup>* reactor_init s"
  shows "prefix (written s) (pushed s) \<and>
    (point s \<in> {Ready, Writing} \<longrightarrow> prefix (written s @ [hd (batch s)]) (pushed s))"
proof -
  have ok: "reactor_ok atomic s" using stream.reachable_inv [OF refl assms] .
  then have p: "pushed s = written s @ batch s @ m_eventsQueue s" by (simp add: reactor_ok_def)
  show ?thesis
  proof (intro conjI impI)
    show "prefix (written s) (pushed s)" using p by simp
    assume "point s \<in> {Ready, Writing}"
    then obtain x xs where "batch s = x # xs"
      using ok by (cases "batch s") (auto simp: reactor_ok_def)
    with p show "prefix (written s @ [hd (batch s)]) (pushed s)" by simp
  qed
qed

section \<open>The end of a stream\<close>

text \<open>
  What brings a stream to its end: the worker, the completion of a write and the release.
  Once a call is cancelled gRPC completes its writes with a failure; without \<open>delivering\<close>
  only such completions are steps.
\<close>

inductive closing_step :: "bool \<Rightarrow> 'e reactor \<Rightarrow> 'e reactor \<Rightarrow> bool" for delivering where
  written: "point s = Writing \<Longrightarrow> m_writeStatus s = InProgress \<Longrightarrow> (ok \<Longrightarrow> delivering) \<Longrightarrow>
    closing_step delivering s (OnWriteDone ok s)"
| release: "point s = Finished \<Longrightarrow> \<not> released s \<Longrightarrow> closing_step delivering s (OnDone s)"
| worked: "worker s = Some t \<Longrightarrow> closing_step delivering s t"

text \<open>The steps of the threads that push events and of a client that cancels once more.\<close>

inductive outside_step :: "'e reactor \<Rightarrow> 'e reactor \<Rightarrow> bool" where
  pushed: "outside_step s (push_event e s)"
| counted: "0 < uncounted s \<Longrightarrow> outside_step s (count_event s)"
| cancelled: "outside_step s (OnCancel s)"

inductive count_step :: "'e reactor \<Rightarrow> 'e reactor \<Rightarrow> bool" where
  "0 < uncounted s \<Longrightarrow> count_step s (count_event s)"

text \<open>How far the end is when every write fails, and how far when no event is added.\<close>

definition failing_rank :: "'e reactor \<Rightarrow> nat" where
  "failing_rank s =
     (case point s of
        Waiting \<Rightarrow> 7 | Woken \<Rightarrow> 6 | Taken \<Rightarrow> 5 | Ready \<Rightarrow> 4
      | Writing \<Rightarrow> (case m_writeStatus s of Idle \<Rightarrow> 8 | InProgress \<Rightarrow> 3 | Failed \<Rightarrow> 2)
      | Finished \<Rightarrow> if released s then 0 else 1)"

definition flushing_rank :: "'e reactor \<Rightarrow> nat" where
  "flushing_rank s = 7 * length (m_eventsQueue s) + 7 * length (batch s) + uncounted s +
     (case point s of
        Waiting \<Rightarrow> 7 | Woken \<Rightarrow> 6 | Taken \<Rightarrow> 5 | Ready \<Rightarrow> 4
      | Writing \<Rightarrow> if m_writeStatus s = InProgress then 3 else 2
      | Finished \<Rightarrow> if released s then 0 else 1)"

text \<open>Some thread has yet to count its event, or the 64 bits of the count are exceeded.\<close>

definition count_pending :: "'e reactor \<Rightarrow> bool" where
  "count_pending s \<longleftrightarrow> 0 < uncounted s \<or> 2 ^ 64 \<le> length (m_eventsQueue s) + cancels s"

definition cancelled_ok :: "'e reactor \<Rightarrow> bool" where
  "cancelled_ok s \<longleftrightarrow> reactor_ok False s \<and> (0 < cancels s \<or> released s)"

lemma closing_step_reactor: "closing_step delivering s t \<Longrightarrow> reactor_step False s t"
  by (induction rule: closing_step.induct) (auto intro: reactor_step.intros)

lemma outside_step_reactor: "outside_step s t \<Longrightarrow> reactor_step False s t"
  by (induction rule: outside_step.induct) (auto intro: reactor_step.intros)

lemma count_step_outside: "count_step s t \<Longrightarrow> outside_step s t"
  by (induction rule: count_step.induct) (rule outside_step.counted)

lemmas stream_step_defs =
  take_events_def subtract_batch_def start_write_def end_write_def OnWriteDone_def OnDone_def

text \<open>The steps one by one, with what is known where each is taken.\<close>

lemma closing_step_cases [consumes 1, case_names wake taking subtract writing fail advance written release]:
  assumes "closing_step delivering s t"
  obtains "point s = Waiting" and "t = s\<lparr>point := Woken\<rparr>"
  | "point s = Woken" and "t = take_events s"
  | "point s = Taken" and "t = subtract_batch s"
  | "point s = Ready" and "t = start_write s"
  | "point s = Writing" and "m_writeStatus s = Failed" and "t = s\<lparr>point := Finished\<rparr>"
  | "point s = Writing" and "m_writeStatus s = Idle" and "t = end_write s"
  | ok where "point s = Writing" and "m_writeStatus s = InProgress" and "ok \<Longrightarrow> delivering"
      and "t = OnWriteDone ok s"
  | "point s = Finished" and "\<not> released s" and "t = OnDone s"
  using assms
proof (cases rule: closing_step.cases)
  case worked
  then show ?thesis
    using that(1-6) by (cases "m_writeStatus s")
      (auto simp: worker_def end_write_def split: stream_point.splits if_splits)
qed (use that(7,8) in auto)

lemma cancels_kept:
  "closing_step delivering s t \<Longrightarrow> cancels t = cancels s \<and> (released s \<longrightarrow> released t)"
  "outside_step s t \<Longrightarrow> cancels s \<le> cancels t \<and> (released s \<longrightarrow> released t)"
  by (auto elim!: closing_step_cases outside_step.cases
      simp: stream_step_defs push_event_def count_event_def OnCancel_def)

lemma cancelled_ok_step:
  "cancelled_ok s \<Longrightarrow> closing_step delivering s t \<Longrightarrow> cancelled_ok t"
  "cancelled_ok s \<Longrightarrow> outside_step s t \<Longrightarrow> cancelled_ok t"
  using reactor_ok_step [OF closing_step_reactor, of delivering s t]
    reactor_ok_step [OF outside_step_reactor, of s t] cancels_kept(1) [of delivering s t] cancels_kept(2) [of s t]
  by (auto simp: cancelled_ok_def)

lemma closing_not_stuck:
  assumes "cancelled_ok s" and "\<not> count_pending s" and "\<not> released s"
  shows "\<exists>t. closing_step delivering s t"
proof (cases "worker s")
  case (Some t)
  then show ?thesis by (auto intro: closing_step.worked)
next
  case None
  have "m_queueSize s \<noteq> 0" if "point s = Waiting"
  proof -
    have "m_queueSize s = of_nat (length (m_eventsQueue s) + cancels s)"
      using assms(1,2) that by (simp add: cancelled_ok_def reactor_ok_def count_pending_def)
    moreover have "0 < length (m_eventsQueue s) + cancels s"
      "length (m_eventsQueue s) + cancels s < 2 ^ 64"
      using assms by (auto simp: cancelled_ok_def count_pending_def)
    ultimately show ?thesis by (simp add: word_of_nat_eq_0_iff nat_dvd_not_less del: of_nat_add)
  qed
  with None have "point s = Finished \<or> point s = Writing \<and> m_writeStatus s = InProgress"
    by (auto simp: worker_def split: stream_point.splits if_splits)
  with assms(3) show ?thesis by (auto intro: closing_step.release closing_step.written [of _ False])
qed

text \<open>
  Once a stream is cancelled, failing writes end it in at most eight steps of its own,
  whatever is pushed meanwhile.
\<close>

interpretation failing: stoppable "closing_step False" outside_step cancelled_ok failing_rank
  count_pending released
proof unfold_locales
  fix s t :: "'a reactor"
  assume "closing_step False s t"
  then show "failing_rank t < failing_rank s"
    by (cases rule: closing_step_cases) (auto simp: failing_rank_def stream_step_defs)
next
  fix s t :: "'a reactor"
  assume "outside_step s t"
  then show "failing_rank t \<le> failing_rank s"
    by (rule outside_step.cases)
      (auto simp: failing_rank_def push_event_def count_event_def OnCancel_def
        split: stream_point.split write_status.split)
qed (fact cancelled_ok_step, fact cancelled_ok_step, rule closing_not_stuck)

text \<open>
  Where nothing more is pushed, the events that are there are written first. \<open>settled\<close>
  excludes the one place where an event comes too late: after the last taking of the queue.
\<close>

definition settled :: "'e reactor \<Rightarrow> bool" where
  "settled s \<longleftrightarrow> (point s \<in> {Taken, Finished} \<longrightarrow> batch s = [] \<longrightarrow> m_eventsQueue s = [])"

definition flushing_ok :: "bool \<Rightarrow> 'e reactor \<Rightarrow> bool" where
  "flushing_ok c s \<longleftrightarrow> cancelled_ok s \<and> (c \<longrightarrow> settled s)"

lemma batch_present:
  assumes "reactor_ok False s"
  shows "point s = Ready \<Longrightarrow> batch s \<noteq> []" "point s = Writing \<Longrightarrow> batch s \<noteq> []"
    "point s = Waiting \<Longrightarrow> batch s = []" "point s = Woken \<Longrightarrow> batch s = []"
  using assms by (simp_all add: reactor_ok_def)

lemma flushing_rank_less:
  assumes "reactor_ok False s" and "closing_step True s t"
  shows "flushing_rank t < flushing_rank s"
  using assms(2) batch_present [OF assms(1)]
  by (cases rule: closing_step_cases; cases "batch s") (auto simp: flushing_rank_def stream_step_defs)

lemma settled_closing: "closing_step delivering s t \<Longrightarrow> cancelled_ok s \<Longrightarrow> settled s \<Longrightarrow> settled t"
  by (cases rule: closing_step_cases, assumption)
    (simp_all add: settled_def stream_step_defs batch_present cancelled_ok_def)

lemma settled_count: "count_step s t \<Longrightarrow> settled s \<Longrightarrow> settled t"
  by (auto elim!: count_step.cases simp: settled_def count_event_def)

interpretation flushing: stoppable "closing_step True" count_step "flushing_ok c" flushing_rank
  count_pending released for c
proof unfold_locales
  fix s t :: "'a reactor"
  assume "flushing_ok c s" and "closing_step True s t"
  then show "flushing_ok c t"
    using cancelled_ok_step(1) settled_closing unfolding flushing_ok_def by blast
  show "flushing_rank t < flushing_rank s"
    using \<open>flushing_ok c s\<close> \<open>closing_step True s t\<close>
    by (intro flushing_rank_less) (simp_all add: flushing_ok_def cancelled_ok_def)
next
  fix s t :: "'a reactor"
  assume "flushing_ok c s" and "count_step s t"
  then show "flushing_ok c t"
    using cancelled_ok_step(2) [OF _ count_step_outside] settled_count
    unfolding flushing_ok_def by blast
  from \<open>count_step s t\<close> show "flushing_rank t \<le> flushing_rank s"
    by (rule count_step.cases) (auto simp: flushing_rank_def count_event_def split: stream_point.splits)
next
  fix s :: "'a reactor"
  assume "flushing_ok c s" and "\<not> count_pending s" and "\<not> released s"
  then show "\<exists>t. closing_step True s t"
    unfolding flushing_ok_def by (blast intro: closing_not_stuck)
qed

lemma flushed_all:
  assumes "flushing_ok True s" and "released s" and "m_writeStatus s \<noteq> Failed"
  shows "written s = pushed s"
  using assms by (auto simp: flushing_ok_def cancelled_ok_def reactor_ok_def settled_def)


text \<open>
  If an event and its count could not be separated by the taking of the queue, the
  stream would be finished only after the client cancelled it or a write failed.
\<close>

lemma stream_ends_for_a_reason:
  assumes "(reactor_step True)\<^sup>*\<^sup>* reactor_init s" and "point s = Finished"
  shows "0 < cancels s \<or> m_writeStatus s = Failed"
  using stream.reachable_inv [OF refl assms(1)] assms(2) by (simp add: reactor_ok_def)

text \<open>Runs of the reactor, as lists of what happens next.\<close>

datatype 'e action = Push 'e | Count | WriteDone bool | Cancel | Work

fun perform :: "'e action \<Rightarrow> 'e reactor \<Rightarrow> 'e reactor option" where
  "perform (Push e) s = Some (push_event e s)"
| "perform Count s = (if 0 < uncounted s then Some (count_event s) else None)"
| "perform (WriteDone ok) s =
     (if point s = Writing \<and> m_writeStatus s = InProgress then Some (OnWriteDone ok s) else None)"
| "perform Cancel s = Some (OnCancel s)"
| "perform Work s = worker s"

fun run :: "'e action list \<Rightarrow> 'e reactor \<Rightarrow> 'e reactor option" where
  "run [] s = Some s"
| "run (a # as) s = (case perform a s of None \<Rightarrow> None | Some t \<Rightarrow> run as t)"

lemma perform_step: "perform a s = Some t \<Longrightarrow> reactor_step False s t"
  by (cases a) (auto intro: reactor_step.intros split: if_splits)

lemma run_reach: "run as s = Some t \<Longrightarrow> (reactor_step False)\<^sup>*\<^sup>* s t"
proof (induction as arbitrary: s)
  case Nil
  then show ?case by simp
next
  case (Cons a as)
  then show ?case
    by (auto split: option.splits intro: converse_rtranclp_into_rtranclp dest: perform_step)
qed

definition early_end :: "'e \<Rightarrow> 'e \<Rightarrow> 'e action list" where
  "early_end a b =
     [Push a, Count, Work, Push b, Work, Work, Work, WriteDone True, Work, Work, WriteDone True,
      Work, Work, Work, Work]"

definition early_ended :: "'e \<Rightarrow> 'e \<Rightarrow> 'e reactor" where
  "early_ended a b =
     \<lparr>m_writeStatus = Idle, m_queueSize = - 1, m_eventsQueue = [], batch = [],
      point = Finished, uncounted = 1, cancels = 0, pushed = [a, b], written = [a, b],
      released = False\<rparr>"

lemma early_end_run: "run (early_end a b) reactor_init = Some (early_ended a b)"
  by (simp add: early_end_def early_ended_def worker_def push_event_def count_event_def
      take_events_def subtract_batch_def start_write_def end_write_def OnWriteDone_def
      reactor_init_def)

lemma stream_can_end_early:
  "\<exists>s. (reactor_step False)\<^sup>*\<^sup>* (reactor_init :: 'e reactor) s \<and> point s = Finished \<and>
     cancels s = 0 \<and> m_writeStatus s \<noteq> Failed \<and>
     (\<forall>e. worker (push_event e s) = None \<and> written (push_event e s) \<noteq> pushed (push_event e s))"
  by (rule exI [of _ "early_ended a b" for a b])
    (use run_reach [OF early_end_run] in \<open>auto simp: early_ended_def worker_def push_event_def\<close>)

text \<open>
  C35: why a stream ends. If an event and its count could not be separated by the taking of
  the queue, a stream would be finished only after the client cancelled it or a write failed.
  The code does separate them, and a stream can end early: a second event is put in while
  the worker takes the first, the batch of two is subtracted from a size that counts one, and
  with both events written the wrapped size wakes the worker to an empty queue, which it
  takes for a cancellation. No client cancelled, no write failed, and no later event is ever
  written.
\<close>

theorem stream_end_reasons:
  assumes "(reactor_step True)\<^sup>*\<^sup>* reactor_init (t :: 'e reactor)" and "point t = Finished"
  shows "(0 < cancels t \<or> m_writeStatus t = Failed) \<and>
    (\<exists>s. (reactor_step False)\<^sup>*\<^sup>* (reactor_init :: 'e reactor) s \<and> point s = Finished \<and>
       cancels s = 0 \<and> m_writeStatus s \<noteq> Failed \<and>
       (\<forall>e. worker (push_event e s) = None \<and> written (push_event e s) \<noteq> pushed (push_event e s)))"
  using stream_ends_for_a_reason [OF assms] stream_can_end_early by blast

definition cancelled :: "nat reactor" where
  "cancelled = the (run [Cancel, Work, Work, Work] reactor_init)"

lemma cancelled_steps:
  "(reactor_step True)\<^sup>*\<^sup>* reactor_init cancelled" "point cancelled = Finished"
  "cancels cancelled = 1"
proof -
  let ?s1 = "OnCancel reactor_init :: nat reactor" let ?s2 = "the (worker ?s1)"
  let ?s3 = "the (worker ?s2)" let ?s4 = "the (worker ?s3)"
  note d = worker_def OnCancel_def reactor_init_def take_events_def subtract_batch_def
  have e: "cancelled = ?s4" by (simp add: cancelled_def d)
  have 1: "reactor_step True reactor_init ?s1" by (rule reactor_step.cancel)
  have 2: "reactor_step True ?s1 ?s2" "reactor_step True ?s2 ?s3" "reactor_step True ?s3 ?s4"
    by (rule reactor_step.work; simp add: d)+
  note steps = 1 2
  show "(reactor_step True)\<^sup>*\<^sup>* reactor_init cancelled" unfolding e
    by (rule converse_rtranclp_into_rtranclp, rule steps)+ (rule rtranclp.rtrancl_refl)
  show "point cancelled = Finished" and "cancels cancelled = 1" by (simp_all add: e d)
qed

theorem stream_end_reasons_witness:
  "0 < cancels cancelled \<or> m_writeStatus cancelled = Failed"
  by (rule conjunct1 [OF stream_end_reasons [OF cancelled_steps(1,2)]])

definition one_left :: "nat reactor" where
  "one_left = OnCancel (count_event (push_event 7 reactor_init))"

lemma one_left_reached: "(reactor_step False)\<^sup>*\<^sup>* reactor_init one_left"
  unfolding one_left_def
  by (rule converse_rtranclp_into_rtranclp, rule reactor_step.push)
    (rule converse_rtranclp_into_rtranclp, rule reactor_step.count, simp add: push_event_def,
      rule r_into_rtranclp, rule reactor_step.cancel)

lemma closing_run:
  assumes "run as s = Some t" and "\<forall>a \<in> set as. a = Work \<or> a = WriteDone True \<or> a = WriteDone False"
    and "counted_run (closing_step True) other n r s"
  shows "counted_run (closing_step True) other (n + length as) r t"
  using assms
proof (induction as arbitrary: s n)
  case (Cons a as)
  from Cons.prems(1) obtain u where u: "perform a s = Some u" "run as u = Some t"
    by (auto split: option.splits)
  have "closing_step True s u"
  proof (cases a)
    case Work
    with u(1) show ?thesis by (simp add: closing_step.worked)
  next
    case (WriteDone ok)
    with u(1) show ?thesis by (auto intro: closing_step.written split: if_splits)
  qed (use Cons.prems(2) in auto)
  with Cons.prems(3) have "counted_run (closing_step True) other (Suc n) r u"
    by (rule counted_run.own)
  from Cons.IH [OF u(2) _ this] Cons.prems(2) show ?case by simp
qed simp

definition one_flushed :: "nat reactor" where
  "one_flushed = \<lparr>m_writeStatus = Idle, m_queueSize = 1, m_eventsQueue = [], batch = [],
     point = Finished, uncounted = 0, cancels = 1, pushed = [7], written = [7], released = False\<rparr>"

lemma one_flushed_run:
  "run [Work, Work, Work, Work, WriteDone True, Work, Work, Work, Work] one_left = Some one_flushed"
  by (simp add: one_left_def one_flushed_def worker_def stream_step_defs OnCancel_def
      count_event_def push_event_def reactor_init_def)


end
