(* ===== verification/Server.thy ===== *)
theory Server
  imports Service EventsReactor
begin

text \<open>
  \<^verbatim>\<open>service/service_manager\<close>: the server with the streams that it has open, and the destructor
  that shuts it down and waits for it. \<^verbatim>\<open>Shutdown\<close> belongs to gRPC and is a parameter: it
  takes no new call and cancels those that are open.
\<close>

section \<open>The open streams\<close>

type_synonym ('e, 'd, 'f) streams = "'e reactor list \<times> ('d, 'f) metrics_reactor list"

text \<open>
  A server that runs: calls are opened, and each stream takes steps of its own.
\<close>

inductive server_step ::
    "('d, 'f) sensors \<Rightarrow> ('e, 'd, 'f) streams \<Rightarrow> ('e, 'd, 'f) streams \<Rightarrow> bool" for S where
  events: "server_step S (es, ms) (es @ [reactor_init], ms)"
| metrics: "metrics_start S m \<Longrightarrow> server_step S (es, ms) (es, ms @ [m])"
| stream: "either_step (some_step (reactor_step False)) (some_step (metrics_step S)) ss ts \<Longrightarrow>
    server_step S ss ts"

definition streams_ok :: "('e, 'd, 'f) streams \<Rightarrow> bool" where
  "streams_ok ss \<longleftrightarrow> (\<forall>r \<in> set (fst ss). reactor_ok False r) \<and> (\<forall>m \<in> set (snd ss). metrics_ok m)"

lemma streams_ok_step: "server_step S ss ts \<Longrightarrow> streams_ok ss \<Longrightarrow> streams_ok ts"
proof (induction rule: server_step.induct)
  case (events es ms)
  then show ?case by (simp add: streams_ok_def reactor_ok_init)
next
  case (metrics m es ms)
  then show ?case by (simp add: streams_ok_def metrics.init_inv [OF metrics.hyps])
next
  case (stream ss ts)
  from stream.hyps show ?case
  proof (cases rule: either_step.cases)
    case (left es es' ms)
    with stream.prems some_step_all [OF left(3), of "reactor_ok False"] show ?thesis
      by (auto simp: streams_ok_def intro: reactor_ok_step)
  next
    case (right ms ms' es)
    with stream.prems some_step_all [OF right(3), of metrics_ok] show ?thesis
      by (auto simp: streams_ok_def intro: metrics_ok_step)
  qed
qed

interpretation server: safety "\<lambda>ss. ss = ([], [])" "server_step S" streams_ok for S
  by unfold_locales (simp add: streams_ok_def, rule streams_ok_step)

section \<open>Shutting down\<close>

text \<open>
  What gRPC documents of \<^verbatim>\<open>Shutdown\<close> with a deadline that has passed: no call is taken any
  more, and each open call is cancelled, unless it has been or is done.
\<close>

definition event_stopped :: "'e reactor \<Rightarrow> 'e reactor \<Rightarrow> bool" where
  "event_stopped r r' \<longleftrightarrow>
     r' = EventsReactor.OnCancel r \<or> r' = r \<and> (0 < cancels r \<or> released r)"

definition metrics_stopped ::
    "('d, 'f) metrics_reactor \<Rightarrow> ('d, 'f) metrics_reactor \<Rightarrow> bool" where
  "metrics_stopped m m' \<longleftrightarrow>
     m' = fst (MetricsReactor.OnCancel m) \<and> \<not> deleted m \<or> m' = m \<and> (m_cancel m \<or> deleted m)"

definition stop_laws :: "(('e, 'd, 'f) streams \<Rightarrow> ('e, 'd, 'f) streams) \<Rightarrow> bool" where
  "stop_laws stop_calls \<longleftrightarrow>
     (\<forall>es ms. list_all2 event_stopped es (fst (stop_calls (es, ms))) \<and>
        list_all2 metrics_stopped ms (snd (stop_calls (es, ms))))"

text \<open>The streams and gRPC, and what goes on around them, while \<^verbatim>\<open>Wait\<close> blocks.\<close>

definition server_closing ::
    "('d, 'f) sensors \<Rightarrow> ('e, 'd, 'f) streams \<Rightarrow> ('e, 'd, 'f) streams \<Rightarrow> bool" where
  "server_closing S = either_step (some_step (closing_step False)) (some_step (metrics_closing S))"

definition server_outside ::
    "('e, 'd, 'f) streams \<Rightarrow> ('e, 'd, 'f) streams \<Rightarrow> bool" where
  "server_outside = either_step (some_step outside_step) (some_step metrics_outside)"

definition wait_returns :: "('e, 'd, 'f) streams \<Rightarrow> bool" where
  "wait_returns ss \<longleftrightarrow> (\<forall>r \<in> set (fst ss). released r) \<and> (\<forall>m \<in> set (snd ss). deleted m)"

text \<open>The destructor: \<open>ss\<close> and \<open>ts\<close> are the streams before it and after it has returned.\<close>

definition ServiceManager_destroy ::
    "('d, 'f) sensors \<Rightarrow> (('e, 'd, 'f) streams \<Rightarrow> ('e, 'd, 'f) streams) \<Rightarrow> string list option \<Rightarrow>
     ('e, 'd, 'f) streams \<Rightarrow> ('e, 'd, 'f) streams \<Rightarrow> bool" where
  "ServiceManager_destroy S stop_calls server ss ts =
     (case server of
        None \<Rightarrow> ts = ss
      | Some _ \<Rightarrow>
          (\<exists>n. counted_run (server_closing S) server_outside n (stop_calls ss) ts) \<and> wait_returns ts)"

definition streams_cancelled :: "('e, 'd, 'f) streams \<Rightarrow> bool" where
  "streams_cancelled = (\<lambda>(es, ms). (\<forall>r \<in> set es. cancelled_ok r) \<and> (\<forall>m \<in> set ms. metrics_cancelled m))"

definition streams_rank :: "('e, 'd, 'f) streams \<Rightarrow> nat" where
  "streams_rank = (\<lambda>(es, ms). sum_list (map failing_rank es) + sum_list (map metrics_rank ms))"

interpretation closing: stoppable "server_closing S" server_outside streams_cancelled streams_rank
  "\<lambda>(es, ms). (\<exists>r \<in> set es. count_pending r) \<or> (\<exists>m \<in> set ms. False)"
  "\<lambda>(es, ms). (\<forall>r \<in> set es. released r) \<and> (\<forall>m \<in> set ms. metrics_ended m)" for S
  unfolding server_closing_def server_outside_def streams_cancelled_def streams_rank_def
  by (rule pair_stoppable; rule failing.list_stoppable metrics_end.list_stoppable)

lemma list_all2_all:
  "list_all2 R xs ys \<Longrightarrow> \<forall>x \<in> set xs. P x \<Longrightarrow> (\<And>x y. R x y \<Longrightarrow> P x \<Longrightarrow> Q y) \<Longrightarrow> \<forall>y \<in> set ys. Q y"
  by (induction rule: list_all2_induct) auto

lemma stop_cancels:
  assumes "stop_laws stop_calls" and "streams_ok (es, ms)"
  shows "streams_cancelled (stop_calls (es, ms)) \<and>
    length (fst (stop_calls (es, ms))) = length es \<and> length (snd (stop_calls (es, ms))) = length ms"
proof -
  have e: "list_all2 event_stopped es (fst (stop_calls (es, ms)))"
    and m: "list_all2 metrics_stopped ms (snd (stop_calls (es, ms)))"
    using assms(1) by (simp_all add: stop_laws_def)
  have "cancelled_ok r'" if "event_stopped r r'" "reactor_ok False r" for r r' :: "'a reactor"
    using that reactor_ok_step [OF reactor_step.cancel [of False r]]
    by (auto simp: cancelled_ok_def event_stopped_def EventsReactor.OnCancel_def)
  then have "\<forall>r \<in> set (fst (stop_calls (es, ms))). cancelled_ok r"
    using list_all2_all [OF e, of "reactor_ok False" cancelled_ok] assms(2) by (simp add: streams_ok_def)
  moreover have "metrics_cancelled m'" if "metrics_stopped m m'" "metrics_ok m"
    for m m' :: "('b, 'c) metrics_reactor"
  proof -
    have "metrics_cancelled (fst (MetricsReactor.OnCancel m))" if "\<not> deleted m"
      using metrics_ok_step [OF metrics_step.cancel [OF that] \<open>metrics_ok m\<close>]
      by (simp add: metrics_cancelled_def MetricsReactor.OnCancel_def)
    with that show ?thesis by (auto simp: metrics_stopped_def metrics_cancelled_def)
  qed
  then have "\<forall>m \<in> set (snd (stop_calls (es, ms))). metrics_cancelled m"
    using list_all2_all [OF m, of metrics_ok metrics_cancelled] assms(2) by (simp add: streams_ok_def)
  ultimately show ?thesis
    using e m by (auto simp: streams_cancelled_def list_all2_lengthD split: prod.split)
qed

lemma sum_list_le: "(\<And>x. x \<in> set xs \<Longrightarrow> f x \<le> (k :: nat)) \<Longrightarrow> sum_list (map f xs) \<le> k * length xs"
  by (induction xs) fastforce+

lemma streams_rank_bound: "streams_rank (es, ms) \<le> 8 * length es + 5 * length ms"
proof -
  have "failing_rank r \<le> 8" for r :: "'a reactor"
    by (auto simp: failing_rank_def split: stream_point.split write_status.split)
  moreover have "metrics_rank m \<le> 5" for m :: "('b, 'c) metrics_reactor"
    by (auto simp: metrics_rank_def split: metrics_point.split)
  ultimately show ?thesis
    using sum_list_le [of es failing_rank 8] sum_list_le [of ms metrics_rank 5]
    by (simp add: streams_rank_def)
qed

text \<open>
  C36: the destructor of the service manager does not hang on a stream. From whatever the
  open streams are doing when the server is shut down, and whatever events are pushed and
  measured meanwhile, at most eight steps for each event stream and five for each metrics
  stream are left; and when none can be taken, \<^verbatim>\<open>Wait\<close> returns, unless a thread has
  yet to count the event it pushed or a sensor has thrown. Without a server nothing is waited for.
\<close>

theorem server_wait_returns:
  assumes "(server_step S)\<^sup>*\<^sup>* ([], []) (es, ms)" and "stop_laws stop_calls"
    and "counted_run (server_closing S) server_outside n (stop_calls (es, ms)) ts"
  shows "n \<le> 8 * length es + 5 * length ms \<and>
    ((\<nexists>us. server_closing S ts us) \<longrightarrow>
       ServiceManager_destroy S stop_calls (Some addresses) (es, ms) ts \<or>
       (\<exists>r \<in> set (fst ts). count_pending r) \<or> (\<exists>m \<in> set (snd ts). metrics_reactor.point m = Terminated)) \<and>
    ServiceManager_destroy S stop_calls None (es, ms) (es, ms)"
proof -
  have ok: "streams_cancelled (stop_calls (es, ms))"
    and l: "length (fst (stop_calls (es, ms))) = length es" "length (snd (stop_calls (es, ms))) = length ms"
    using stop_cancels [OF assms(2) server.reachable_inv [OF refl assms(1)]] by simp_all
  have "n \<le> 8 * length es + 5 * length ms"
    using closing.run_ends(1) [OF assms(3) ok]
      streams_rank_bound [of "fst (stop_calls (es, ms))" "snd (stop_calls (es, ms))"] l by simp
  moreover have "wait_returns ts \<or> (\<exists>r \<in> set (fst ts). count_pending r) \<or>
      (\<exists>m \<in> set (snd ts). metrics_reactor.point m = Terminated)" if "\<nexists>us. server_closing S ts us"
    using closing.run_ends(2) [OF assms(3) ok that]
    by (auto simp: wait_returns_def metrics_ended_def split: prod.splits)
  ultimately show ?thesis using assms(3) by (auto simp: ServiceManager_destroy_def)
qed

text \<open>A server with one event stream: its shutdown, step by step.\<close>

definition stop_all :: "('e, 'd, 'f) streams \<Rightarrow> ('e, 'd, 'f) streams" where
  "stop_all = (\<lambda>(es, ms).
     (map (\<lambda>r. if 0 < cancels r \<or> released r then r else EventsReactor.OnCancel r) es,
      map (\<lambda>m. if m_cancel m \<or> deleted m then m else fst (MetricsReactor.OnCancel m)) ms))"

lemma stop_all_laws: "stop_laws stop_all"
  by (simp add: stop_laws_def stop_all_def list_all2_conv_all_nth event_stopped_def metrics_stopped_def)

lemma one_stream_closing: "closing_step False r t \<Longrightarrow> server_closing S ([r], []) ([t], [])"
  unfolding server_closing_def using some_step.intros [of 0 "[r]" "closing_step False" t]
  by (auto intro: either_step.left)

lemma stop_all_fresh: "stop_all ([reactor_init], []) = ([EventsReactor.OnCancel reactor_init], [])"
  by (simp add: stop_all_def reactor_init_def)

definition stopped_stream :: "'e reactor" where
  "stopped_stream =
     EventsReactor.OnDone (subtract_batch (take_events ((EventsReactor.OnCancel reactor_init)\<lparr>reactor.point := Woken\<rparr>)))"

lemma stopped_run:
  "counted_run (server_closing S) server_outside 4 (stop_all ([reactor_init :: 'e reactor], []))
     ([stopped_stream], [])"
proof -
  let ?r0 = "EventsReactor.OnCancel reactor_init :: 'e reactor"
  let ?r1 = "?r0\<lparr>reactor.point := Woken\<rparr>" let ?r2 = "take_events ?r1" let ?r3 = "subtract_batch ?r2"
  note d = EventsReactor.OnCancel_def reactor_init_def take_events_def subtract_batch_def worker_def
  have c: "closing_step False ?r0 ?r1" "closing_step False ?r1 ?r2" "closing_step False ?r2 ?r3"
    by (rule closing_step.worked, simp add: d)+
  have e: "closing_step False ?r3 stopped_stream"
    unfolding stopped_stream_def by (rule closing_step.release) (simp_all add: d)
  note step = one_stream_closing [of _ _ S]
  have "counted_run (server_closing S) server_outside (Suc (Suc (Suc (Suc 0)))) ([?r0], []) ([stopped_stream], [])"
    by (rule counted_run.own, rule counted_run.own, rule counted_run.own, rule counted_run.own,
        rule counted_run.start) (rule step, rule c e)+
  then show ?thesis by (simp add: stop_all_fresh numeral_eq_Suc)
qed

lemma stopped_stream_fields: "released stopped_stream" "\<not> count_pending stopped_stream"
  by (simp_all add: count_pending_def stopped_stream_def EventsReactor.OnCancel_def
      EventsReactor.OnDone_def reactor_init_def take_events_def subtract_batch_def)

lemma stopped_stream_stuck: "\<nexists>us. server_closing S ([stopped_stream :: 'e reactor], []) us"
  by (auto simp: server_closing_def stopped_stream_def EventsReactor.OnCancel_def EventsReactor.OnDone_def
      reactor_init_def take_events_def subtract_batch_def
      elim!: either_step.cases some_step.cases closing_step_cases)

theorem server_wait_returns_witness:
  "ServiceManager_destroy sample_sensors stop_all (Some [''unix:/run/openpresso.sock''])
     ([reactor_init :: nat reactor], []) ([stopped_stream], [])"
proof -
  have "(server_step sample_sensors)\<^sup>*\<^sup>* ([], []) ([] @ [reactor_init], [])"
    by (rule r_into_rtranclp, rule server_step.events)
  then have r: "(server_step sample_sensors)\<^sup>*\<^sup>* ([], []) ([reactor_init :: nat reactor], [])" by simp
  show ?thesis
    using server_wait_returns [OF r stop_all_laws stopped_run] stopped_stream_stuck [of sample_sensors, where 'e = nat]
    by (auto simp: stopped_stream_fields)
qed

end
