(* ===== verification/Lifetime.thy ===== *)
theory Lifetime
  imports Process Server
begin

text \<open>
  The process of \<open>Process\<close> with the streams of its server: between the exit signal and the
  destructors of the daemon's other members, \<^verbatim>\<open>~ServiceManager\<close> shuts the server down and waits
  for the streams, while buttons, sensor, worker and signals go on.
\<close>

section \<open>The phases of a process\<close>

datatype ('d, 'w, 'f) lifetime =
    Serving "'d daemon" signals "(Event, 'w, 'f) streams"
  | Stopping "'d daemon" signals "(Event, 'w, 'f) streams"
  | Over "'d process"

definition life_start ::
    "('d, 'c) system \<Rightarrow> (signal \<Rightarrow> bool) \<Rightarrow> signal list \<Rightarrow> cli \<Rightarrow> 'd \<Rightarrow> ('d, 'w, 'f) lifetime" where
  "life_start E installs early args d =
     (case main_start E installs early args d of
        Running D sig \<Rightarrow> Serving D sig ([], [])
      | p \<Rightarrow> Over p)"

text \<open>\<^verbatim>\<open>~ServiceManager\<close> up to \<^verbatim>\<open>Wait\<close>: without a server nothing is shut down.\<close>

definition shut_down ::
    "((Event, 'w, 'f) streams \<Rightarrow> (Event, 'w, 'f) streams) \<Rightarrow> 'd daemon \<Rightarrow>
     (Event, 'w, 'f) streams \<Rightarrow> (Event, 'w, 'f) streams" where
  "shut_down stop_calls D ss = (case m_server D of None \<Rightarrow> ss | Some _ \<Rightarrow> stop_calls ss)"

text \<open>
  What the daemon does in both phases is a step of the running process. The streams of a
  server that runs are opened and served; those of a server that is shut down come to their
  end, and when they have, the rest of the daemon is taken down.
\<close>

inductive life_step ::
    "('d, 'c) system \<Rightarrow> ('w, 'f) sensors \<Rightarrow> ((Event, 'w, 'f) streams \<Rightarrow> (Event, 'w, 'f) streams) \<Rightarrow>
     ('d, 'w, 'f) lifetime \<Rightarrow> ('d, 'w, 'f) lifetime \<Rightarrow> bool" for E S stop_calls where
  serving: "process_step E (Running D sig) (Running D' sig') \<Longrightarrow>
    life_step E S stop_calls (Serving D sig ss) (Serving D' sig' ss)"
| stopping: "process_step E (Running D sig) (Running D' sig') \<Longrightarrow>
    life_step E S stop_calls (Stopping D sig ss) (Stopping D' sig' ss)"
| undefined_serving: "worker_step (sys_lib E) (sys_profiles E) (sys_settings E) (m_dispatcher D) = (s, Inl e) \<Longrightarrow>
    life_step E S stop_calls (Serving D sig ss) (Over Undefined)"
| undefined_stopping: "worker_step (sys_lib E) (sys_profiles E) (sys_settings E) (m_dispatcher D) = (s, Inl e) \<Longrightarrow>
    life_step E S stop_calls (Stopping D sig ss) (Over Undefined)"
| streams: "m_server D \<noteq> None \<Longrightarrow> server_step S ss ts \<Longrightarrow>
    life_step E S stop_calls (Serving D sig ss) (Serving D sig ts)"
| exit: "exitFlag sig \<Longrightarrow>
    life_step E S stop_calls (Serving D sig ss) (Stopping D sig (shut_down stop_calls D ss))"
| closing: "server_closing S ss ts \<Longrightarrow>
    life_step E S stop_calls (Stopping D sig ss) (Stopping D sig ts)"
| outside: "server_outside ss ts \<Longrightarrow>
    life_step E S stop_calls (Stopping D sig ss) (Stopping D sig ts)"
| return: "m_server D = None \<or> wait_returns ss \<Longrightarrow>
    life_step E S stop_calls (Stopping D sig ss) (Over (main_stop E D))"

section \<open>The process behind the phases\<close>

fun process_of :: "('d, 'w, 'f) lifetime \<Rightarrow> 'd process" where
  "process_of (Serving D sig _) = Running D sig"
| "process_of (Stopping D sig _) = Running D sig"
| "process_of (Over p) = p"

text \<open>
  While it stops, the exit flag is set; no stream is open without a server, and what the
  server has open is in order.
\<close>

fun phase_ok :: "('d, 'w, 'f) lifetime \<Rightarrow> bool" where
  "phase_ok (Serving D sig ss) = (Server.streams_ok ss \<and> (m_server D = None \<longrightarrow> ss = ([], [])))"
| "phase_ok (Stopping D sig ss) = (exitFlag sig \<and> streams_cancelled ss)"
| "phase_ok (Over p) = True"

inductive_cases running_step: "process_step E (Running D sig) (Running D' sig')"

lemma running_keeps:
  "process_step E (Running D sig) (Running D' sig') \<Longrightarrow>
   m_server D' = m_server D \<and> (exitFlag sig \<longrightarrow> exitFlag sig')"
  by (erule running_step)
    (auto simp: raise_signal_result exitFlag_def main_stop_def split: prod.splits sum.splits if_splits)

lemma streams_cancelled_empty [simp]: "streams_cancelled ([], [])"
  by (simp add: streams_cancelled_def)

lemma phase_ok_step: 
  assumes "life_step E S stop_calls l l'" and "stop_laws stop_calls" and "phase_ok l"
  shows "phase_ok l'"
  using assms(1,3)
proof (induction rule: life_step.induct)
  case (serving D sig D' sig' ss)
  then show ?case using running_keeps [OF serving.hyps] by simp
next
  case (stopping D sig D' sig' ss)
  then show ?case using running_keeps [OF stopping.hyps] by simp
next
  case (streams D ss ts sig)
  then show ?case using Server.streams_ok_step [OF streams.hyps(2)] by auto
next
  case (exit sig D ss)
  then show ?case using stop_cancels [OF assms(2), of "fst ss" "snd ss"]
    by (auto simp: shut_down_def split: option.split)
next
  case (closing ss ts D sig)
  then show ?case using Server.closing.own_inv [OF _ closing.hyps] by simp
next
  case (outside ss ts D sig)
  then show ?case using Server.closing.other_inv [OF _ outside.hyps] by simp
qed simp_all

text \<open>The phases are a refinement of the process: what holds in its reachable states holds here.\<close>

lemma life_step_process:
  assumes "life_step E S stop_calls l l'" and "phase_ok l"
  shows "(process_step E)\<^sup>=\<^sup>= (process_of l) (process_of l')"
  using assms
  by (induction rule: life_step.induct) (auto intro: process_step.intros)

lemma life_reachable:
  assumes "(life_step E S stop_calls)\<^sup>*\<^sup>* (life_start E installs early args d) l" and "stop_laws stop_calls"
  shows "phase_ok l \<and> (process_step E)\<^sup>*\<^sup>* (main_start E installs early args d) (process_of l)"
  using assms(1)
proof (induction rule: rtranclp_induct)
  case base
  show ?case by (simp add: life_start_def Server.streams_ok_def split: process.split)
next
  case (step l l')
  then have "phase_ok l" and r: "(process_step E)\<^sup>*\<^sup>* (main_start E installs early args d) (process_of l)" by blast+
  with step phase_ok_step [OF _ assms(2)] life_step_process [of E S stop_calls l l'] show ?case
    by (auto intro: rtranclp.rtrancl_into_rtrancl)
qed

section \<open>The wait for the server\<close>

text \<open>A step of a stream that comes to its end, and whatever else happens during the wait.\<close>

inductive wait_step ::
    "('w, 'f) sensors \<Rightarrow> ('d, 'w, 'f) lifetime \<Rightarrow> ('d, 'w, 'f) lifetime \<Rightarrow> bool" for S where
  "server_closing S ss ts \<Longrightarrow> wait_step S (Stopping D sig ss) (Stopping D sig ts)"

inductive meanwhile ::
    "('d, 'c) system \<Rightarrow> ('d, 'w, 'f) lifetime \<Rightarrow> ('d, 'w, 'f) lifetime \<Rightarrow> bool" for E where
  daemon: "process_step E (Running D sig) (Running D' sig') \<Longrightarrow>
    meanwhile E (Stopping D sig ss) (Stopping D' sig' ss)"
| pushes: "server_outside ss ts \<Longrightarrow> meanwhile E (Stopping D sig ss) (Stopping D sig ts)"

inductive_simps wait_from_stopping: "wait_step S (Stopping D sig ss) l"

fun open_calls :: "('d, 'w, 'f) lifetime \<Rightarrow> (Event, 'w, 'f) streams" where
  "open_calls (Stopping D sig ss) = ss"
| "open_calls _ = ([], [])"

fun is_stopping :: "('d, 'w, 'f) lifetime \<Rightarrow> bool" where
  "is_stopping (Stopping D sig ss) = True"
| "is_stopping _ = False"

text \<open>What a stream may wait for: a thread that has yet to count its event, a sensor that threw.\<close>

definition stream_hangs :: "(Event, 'w, 'f) streams \<Rightarrow> bool" where
  "stream_hangs ss \<longleftrightarrow>
     (\<exists>r \<in> set (fst ss). count_pending r) \<or> (\<exists>m \<in> set (snd ss). metrics_reactor.point m = metrics_point.Terminated)"

interpretation waiting: stoppable "wait_step S" "meanwhile E"
  "\<lambda>l. is_stopping l \<and> process_ok E (process_of l) \<and> streams_cancelled (open_calls l)"
  "\<lambda>l. streams_rank (open_calls l)" "\<lambda>l. stream_hangs (open_calls l)"
  "\<lambda>l. wait_returns (open_calls l)" for S E
proof (unfold_locales, goal_cases)
  case (1 l l')
  then show ?case using Server.closing.own_inv by (auto elim!: wait_step.cases)
next
  case (2 l l')
  then show ?case using Server.closing.own_rank by (auto elim!: wait_step.cases)
next
  case (3 l l')
  from 3(2,1) show ?case
  proof (cases rule: meanwhile.cases)
    case (daemon D sig D' sig' ss)
    then show ?thesis using process_step_ok [OF daemon(3)] 3(1) by simp
  next
    case (pushes ss ts D sig)
    then show ?thesis using Server.closing.other_inv [OF _ pushes(3)] 3(1) by simp
  qed
next
  case (4 l l')
  then show ?case using Server.closing.other_rank by (auto elim!: meanwhile.cases)
next
  case (5 l)
  then obtain D sig es ms where l: "l = Stopping D sig (es, ms)" by (cases l) auto
  have "\<not> (\<exists>r \<in> set es. count_pending r)"
    "\<not> ((\<forall>r \<in> set es. released r) \<and> (\<forall>m \<in> set ms. metrics_ended m))"
    using 5(2,3) by (auto simp: l stream_hangs_def wait_returns_def metrics_ended_def)
  then have "\<exists>ts. server_closing S (es, ms) ts"
    using 5(1) Server.closing.not_stuck [of "(es, ms)" S] by (simp add: l)
  then show ?case by (auto simp: l wait_from_stopping)
qed

text \<open>The wait is a run of the phases.\<close>

lemma wait_run:
  assumes "counted_run (wait_step S) (meanwhile E) n l l'"
  shows "(life_step E S stop_calls)\<^sup>*\<^sup>* l l'"
  using assms
  by (rule run_mono) (auto elim!: wait_step.cases meanwhile.cases intro: life_step.intros)


section \<open>A process with an open stream\<close>

text \<open>The server of a daemon that was built.\<close>

lemma stage_Inr:
  assumes "stage m destroy part k s = Inr x"
  obtains y t where "m s = (t, Inr y)" and "k y t = Inr x"
  using assms by (auto simp: stage_def split: prod.splits sum.splits)

lemma server_created:
  assumes "start_server E c b s = Inr D"
  shows "\<exists>addresses. buildServer (sys_toml E) c = Inr addresses \<and>
    m_server D = (if listens E addresses then Some addresses else None)"
  using assms unfolding start_server_def
  by (elim stage_Inr) (auto simp: ServiceManager_create_def lift_result_def bindr_def split: sum.splits)

lemma daemon_server:
  assumes "Daemon_create E path d = Inr D"
  shows "\<exists>c addresses. fromFile (sys_toml E) path = Inr c \<and> buildServer (sys_toml E) c = Inr addresses \<and>
    m_server D = (if listens E addresses then Some addresses else None)"
proof -
  obtain c t where c: "fromFile (sys_toml E) path = Inr c" "start_status E c t = Inr D"
    using assms unfolding Daemon_create_def Let_def
    by (elim stage_Inr) (auto simp: prog_defs lift_result_def split: sum.splits)
  from c(2) obtain b s where "start_server E c b s = Inr D"
    unfolding start_status_def Let_def start_state_def start_managers_def start_dispatcher_def start_buttons_def
    by (elim stage_Inr) blast
  from server_created [OF this] c(1) show ?thesis by blast
qed

lemma wait_lift:
  "counted_run (server_closing S) server_outside n ss ts \<Longrightarrow>
   counted_run (wait_step S) (meanwhile E) n (Stopping D sig ss) (Stopping D sig ts)"
proof (induction rule: counted_run.induct)
  case (own n ss ts us)
  from own.IH wait_step.intros [OF own.hyps(2)] show ?case by (rule counted_run.own)
next
  case (other n ss ts us)
  from other.IH meanwhile.pushes [OF other.hyps(2)] show ?case by (rule counted_run.other)
qed (rule counted_run.start)


end
