(* ===== verification/Executor.thy ===== *)
theory Executor
  imports Prelude "HOL-Library.Word" "HOL-Library.Sublist"
begin

text \<open>
  \<^verbatim>\<open>async_events_dispatcher/procedures_serial_executor.hpp\<close>: the queue, its atomic size and
  the worker thread, as a transition system in which every step is one critical section or
  one atomic operation. \<open>pushed\<close> and \<open>executed\<close> record what has been put in and run.
\<close>

datatype worker_point = Waiting | Woken | Executing | Exited

record 't executor =
  m_queue :: "'t list"
  m_queueSize :: "64 word"
  batch :: "'t list"
  point :: worker_point
  closing :: bool
  pushed :: "'t list"
  executed :: "'t list"

definition executor_init :: "'t executor" where
  "executor_init = \<lparr>m_queue = [], m_queueSize = 0, batch = [], point = Waiting,
     closing = False, pushed = [], executed = []\<rparr>"

section \<open>Steps\<close>

text \<open>
  \<^verbatim>\<open>executeWithFuture\<close>, \<^verbatim>\<open>executeWithCallback\<close> and \<^verbatim>\<open>executeDiscardResult\<close> share this critical
  section: the task enters the queue and the size grows under the same lock.
\<close>

definition enqueue :: "'t \<Rightarrow> 't executor \<Rightarrow> 't executor" where
  "enqueue t s = s\<lparr>m_queue := m_queue s @ [t], m_queueSize := m_queueSize s + 1,
     pushed := pushed s @ [t]\<rparr>"

text \<open>The destructor adds one to the size and, with the \<^verbatim>\<open>jthread\<close>, waits for the worker.\<close>

definition close_queue :: "'t executor \<Rightarrow> 't executor" where
  "close_queue s = s\<lparr>m_queueSize := m_queueSize s + 1, closing := True\<rparr>"

text \<open>
  The worker: it waits for a size other than zero; takes the whole queue and its length
  off the size in one critical section; leaves when it got nothing; runs the first task and
  removes it, and waits again when the batch is empty. \<open>None\<close> is a blocked or finished
  thread.
\<close>

definition take_queue :: "'t executor \<Rightarrow> 't executor" where
  "take_queue s = s\<lparr>batch := m_queue s, m_queue := [],
     m_queueSize := m_queueSize s - of_nat (length (m_queue s)),
     point := (if m_queue s = [] then Exited else Executing)\<rparr>"

definition run_front :: "'t executor \<Rightarrow> 't executor" where
  "run_front s = s\<lparr>executed := executed s @ [hd (batch s)], batch := tl (batch s),
     point := (if tl (batch s) = [] then Waiting else Executing)\<rparr>"

definition worker :: "'t executor \<Rightarrow> 't executor option" where
  "worker s =
     (case point s of
        Waiting \<Rightarrow> if m_queueSize s = 0 then None else Some (s\<lparr>point := Woken\<rparr>)
      | Woken \<Rightarrow> Some (take_queue s)
      | Executing \<Rightarrow> Some (run_front s)
      | Exited \<Rightarrow> None)"

text \<open>
  Tasks are pushed by other threads until the destructor starts, and by a running task at
  any time.
\<close>

inductive executor_step :: "'t executor \<Rightarrow> 't executor \<Rightarrow> bool" where
  push: "\<not> closing s \<or> point s = Executing \<Longrightarrow> executor_step s (enqueue t s)"
| close: "\<not> closing s \<Longrightarrow> executor_step s (close_queue s)"
| work: "worker s = Some t \<Longrightarrow> executor_step s t"

section \<open>The invariant\<close>

definition executor_ok :: "'t executor \<Rightarrow> bool" where
  "executor_ok s \<longleftrightarrow>
     pushed s = executed s @ batch s @ m_queue s \<and>
     m_queueSize s = of_nat (length (m_queue s) + of_bool (closing s)) \<and>
     (batch s \<noteq> [] \<longleftrightarrow> point s = Executing) \<and>
     (point s = Woken \<longrightarrow> m_queue s \<noteq> [] \<or> closing s) \<and>
     (point s = Exited \<longrightarrow> closing s \<and> m_queue s = [])"

lemma worker_ok:
  assumes "executor_ok s" and "worker s = Some t"
  shows "executor_ok t"
proof (cases "point s")
  case Waiting
  then have "t = s\<lparr>point := Woken\<rparr>" "m_queueSize s \<noteq> 0"
    using assms(2) by (auto simp: worker_def split: if_splits)
  moreover have "m_queue s = [] \<Longrightarrow> closing s"
    using assms(1) \<open>m_queueSize s \<noteq> 0\<close> by (cases "closing s") (simp_all add: executor_ok_def)
  ultimately show ?thesis using assms(1) Waiting by (auto simp: executor_ok_def)
next
  case Woken
  then have "t = take_queue s" and "batch s = []"
    using assms by (auto simp: worker_def executor_ok_def)
  then show ?thesis using assms(1) Woken by (auto simp: executor_ok_def take_queue_def)
next
  case Executing
  then obtain x xs where b: "batch s = x # xs"
    using assms(1) by (cases "batch s") (auto simp: executor_ok_def)
  have "t = run_front s" using assms(2) Executing by (simp add: worker_def)
  then show ?thesis using assms(1) Executing b by (auto simp: executor_ok_def run_front_def)
next
  case Exited
  then show ?thesis using assms(2) by (simp add: worker_def)
qed

lemma executor_ok_step: "executor_step s t \<Longrightarrow> executor_ok s \<Longrightarrow> executor_ok t"
proof (induction rule: executor_step.induct)
  case (push s t)
  then show ?case
    by (cases "point s"; cases "closing s") (simp_all add: executor_ok_def enqueue_def)
next
  case (close s)
  then show ?case by (cases "point s") (simp_all add: executor_ok_def close_queue_def)
qed (rule worker_ok)

lemma executor_ok_init: "executor_ok executor_init"
  by (simp add: executor_ok_def executor_init_def)

interpretation executor: safety "\<lambda>s. s = executor_init" executor_step executor_ok
  by unfold_locales (simp add: executor_ok_init, rule executor_ok_step)

text \<open>
  C11: tasks run one at a time in the order they were pushed, none is lost or run twice,
  and the worker ends only after the destructor has started and every task, also one that
  a task pushed meanwhile, has run.
\<close>

theorem executor_serial:
  assumes "executor_step\<^sup>*\<^sup>* executor_init s"
  shows "prefix (executed s) (pushed s) \<and>
    (point s = Exited \<longrightarrow> closing s \<and> executed s = pushed s)"
proof -
  have "executor_ok s" using executor.reachable_inv [OF refl assms] .
  then show ?thesis by (auto simp: executor_ok_def)
qed

definition worker_next :: "'t executor \<Rightarrow> 't executor" where
  "worker_next s = the (worker s)"

definition executor_sample :: "nat executor" where
  "executor_sample = (worker_next ^^ 2) (close_queue ((worker_next ^^ 3) (enqueue 5 executor_init)))"

lemma executor_sample_eq:
  "executor_sample = \<lparr>m_queue = [], m_queueSize = 1, batch = [], point = Exited,
     closing = True, pushed = [5], executed = [5]\<rparr>"
  by (simp add: executor_sample_def executor_init_def worker_next_def worker_def enqueue_def
      close_queue_def take_queue_def run_front_def numeral_2_eq_2 numeral_3_eq_3)

lemma executor_sample_reach: "executor_step\<^sup>*\<^sup>* executor_init executor_sample"
proof -
  let ?s1 = "enqueue (5 :: nat) executor_init" let ?s2 = "worker_next ?s1" let ?s3 = "worker_next ?s2"
  let ?s4 = "worker_next ?s3" let ?s5 = "close_queue ?s4" let ?s6 = "worker_next ?s5"
  note d = executor_init_def worker_next_def worker_def enqueue_def close_queue_def
    take_queue_def run_front_def
  have e: "executor_sample = worker_next ?s6"
    by (simp add: executor_sample_def numeral_2_eq_2 numeral_3_eq_3)
  have 1: "executor_step executor_init ?s1"
    by (rule executor_step.push) (simp add: executor_init_def)
  have 2: "executor_step ?s1 ?s2" "executor_step ?s2 ?s3" "executor_step ?s3 ?s4"
    by (rule executor_step.work, simp add: d)+
  have 3: "executor_step ?s4 ?s5" by (rule executor_step.close) (simp add: d)
  have 4: "executor_step ?s5 ?s6" "executor_step ?s6 (worker_next ?s6)"
    by (rule executor_step.work, simp add: d)+
  note steps = 1 2 3 4
  show ?thesis unfolding e
    by (rule converse_rtranclp_into_rtranclp, rule steps)+ (rule rtranclp.rtrancl_refl)
qed

theorem executor_serial_witness:
  "executed executor_sample = pushed executor_sample"
  using executor_serial [OF executor_sample_reach] by (simp add: executor_sample_eq)

section \<open>Progress\<close>

text \<open>The worker alone, for a number of steps.\<close>

fun worker_steps :: "nat \<Rightarrow> 't executor \<Rightarrow> 't executor option" where
  "worker_steps 0 s = Some s"
| "worker_steps (Suc n) s = (case worker s of None \<Rightarrow> None | Some t \<Rightarrow> worker_steps n t)"

definition work_left :: "'t executor \<Rightarrow> nat" where
  "work_left s = 3 * length (batch s) + 3 * length (m_queue s) +
     (case point s of Waiting \<Rightarrow> 2 | Woken \<Rightarrow> 1 | _ \<Rightarrow> 0)"

lemma worker_enabled:
  assumes "executor_ok s" and "length (m_queue s) + 1 < 2 ^ 64" and "point s \<noteq> Exited"
    and "closing s \<or> executed s \<noteq> pushed s"
  obtains t where "worker s = Some t"
proof -
  let ?n = "length (m_queue s) + of_bool (closing s)"
  have "?n < 2 ^ 64" using assms(2) by (cases "closing s") simp_all
  then have "unat (m_queueSize s) = ?n"
    using assms(1) by (simp only: executor_ok_def unat_of_nat) (simp add: take_bit_nat_eq_self)
  moreover have "point s = Waiting \<Longrightarrow> 0 < ?n"
    using assms(1,4) by (cases "closing s") (auto simp: executor_ok_def)
  ultimately have "point s = Waiting \<Longrightarrow> m_queueSize s \<noteq> 0" by (metis neq0_conv unat_0)
  then show ?thesis using assms(3) that by (cases "point s") (simp_all add: worker_def)
qed

lemma worker_progress:
  assumes "executor_ok s" and "worker s = Some t"
  shows "executor_ok t \<and> length (m_queue t) \<le> length (m_queue s) \<and> pushed t = pushed s \<and>
    closing t = closing s \<and> work_left t < work_left s"
proof -
  have "length (m_queue t) \<le> length (m_queue s) \<and> pushed t = pushed s \<and>
      closing t = closing s \<and> work_left t < work_left s"
  proof (cases "point s")
    case Executing
    then obtain x xs where "batch s = x # xs"
      using assms(1) by (cases "batch s") (auto simp: executor_ok_def)
    with Executing assms(2) show ?thesis by (auto simp: worker_def run_front_def work_left_def)
  next
    case Woken
    then have "batch s = []" using assms(1) by (auto simp: executor_ok_def)
    with Woken assms(2) show ?thesis by (auto simp: worker_def take_queue_def work_left_def)
  qed (use assms(2) in \<open>auto simp: worker_def work_left_def split: if_splits\<close>)
  then show ?thesis using worker_ok [OF assms] by simp
qed

lemma worker_drains:
  "\<lbrakk>executor_ok s; closing s; length (m_queue s) + 1 < 2 ^ 64\<rbrakk> \<Longrightarrow>
   \<exists>n t. worker_steps n s = Some t \<and> point t = Exited \<and> executed t = pushed s \<and> n \<le> work_left s"
proof (induction "work_left s" arbitrary: s rule: less_induct)
  case less
  show ?case
  proof (cases "point s = Exited")
    case True
    then have "executed s = pushed s" using less.prems by (auto simp: executor_ok_def)
    with True show ?thesis by (intro exI [of _ 0] exI [of _ s]) simp
  next
    case False
    obtain t where w: "worker s = Some t"
      using worker_enabled [OF less.prems(1,3) False] less.prems(2) by blast
    from worker_progress [OF less.prems(1) w] less.prems
    have t: "executor_ok t" "closing t" "length (m_queue t) + 1 < 2 ^ 64" "pushed t = pushed s"
      "work_left t < work_left s" by auto
    obtain n u where "worker_steps n t = Some u" "point u = Exited" "executed u = pushed t"
      "n \<le> work_left t"
      using less.hyps [OF t(5,1,2,3)] by blast
    with t w show ?thesis by (intro exI [of _ "Suc n"] exI [of _ u]) simp
  qed
qed

lemma work_left_bound: "work_left s \<le> 3 * length (batch s) + 3 * length (m_queue s) + 2"
  by (simp add: work_left_def split: worker_point.split)

section \<open>Service\<close>

lemma worker_serves:
  "executor_ok s \<Longrightarrow> length (m_queue s) + 1 < 2 ^ 64 \<Longrightarrow>
   \<exists>n t. worker_steps n s = Some t \<and> executed t = pushed s \<and> n \<le> work_left s"
proof (induction "work_left s" arbitrary: s rule: less_induct)
  case less
  show ?case
  proof (cases "executed s = pushed s")
    case True
    then show ?thesis by (intro exI [of _ 0] exI [of _ s]) simp
  next
    case False
    then have "point s \<noteq> Exited" using less.prems(1) by (auto simp: executor_ok_def)
    then obtain t where w: "worker s = Some t"
      using worker_enabled [OF less.prems] False by blast
    from worker_progress [OF less.prems(1) w] less.prems(2)
    have t: "executor_ok t" "length (m_queue t) + 1 < 2 ^ 64" "pushed t = pushed s"
      "work_left t < work_left s" by auto
    obtain n u where "worker_steps n t = Some u" "executed u = pushed t" "n \<le> work_left t"
      using less.hyps [OF t(4,1,2)] by blast
    with t w show ?thesis by (intro exI [of _ "Suc n"] exI [of _ u]) simp
  qed
qed

text \<open>
  C13: every request is served, and the destructor returns. In every state that can be reached,
  as long as the queue is shorter than \<open>2 ^ 64 - 1\<close>, the worker left alone is not blocked
  before it has run every task that was pushed, and it needs at most three steps per waiting
  task and two more; no wake-up is lost, whether a task came before, during or after the
  worker took the queue. Once the destructor has started the worker also ends, within the
  same number of steps, with every task run.
\<close>

theorem executor_serves:
  assumes "executor_step\<^sup>*\<^sup>* executor_init s" and "length (m_queue s) + 1 < 2 ^ 64"
  shows "(\<exists>n t. worker_steps n s = Some t \<and> executed t = pushed s \<and>
      n \<le> 3 * length (batch s) + 3 * length (m_queue s) + 2) \<and>
    (closing s \<longrightarrow> (\<exists>n t. worker_steps n s = Some t \<and> point t = Exited \<and> executed t = pushed s \<and>
      n \<le> 3 * length (batch s) + 3 * length (m_queue s) + 2))"
proof -
  have ok: "executor_ok s" using executor.reachable_inv [OF refl assms(1)] .
  from worker_serves [OF ok assms(2)] worker_drains [OF ok _ assms(2)] show ?thesis
    using work_left_bound [of s] by (meson le_trans)
qed

theorem executor_serves_witness:
  "(\<exists>n t. worker_steps n (enqueue (5::nat) executor_init) = Some t \<and> executed t = [5] \<and> n \<le> 5) \<and>
   (\<exists>n t. worker_steps n executor_sample = Some t \<and> point t = Exited \<and> executed t = [5] \<and>
      n \<le> Suc (Suc 0))"
proof -
  have "executor_step\<^sup>*\<^sup>* executor_init (enqueue (5::nat) executor_init)"
    by (intro r_into_rtranclp executor_step.push) (simp add: executor_init_def)
  from executor_serves [OF this] executor_serves [OF executor_sample_reach] show ?thesis
    by (simp add: enqueue_def executor_init_def executor_sample_eq)
qed

end
