(* ===== verification/Composition.thy ===== *)
theory Composition
  imports DispatcherProps Executor
begin

text \<open>
  The dispatcher over the executor of the code: its queue is not one list but the locked
  queue and the batch of the worker thread. The executor with the dispatcher as the state
  that its tasks change refines the dispatcher with one queue, on which every other theory
  builds.
\<close>

section \<open>Programs that only append to the queue\<close>

text \<open>
  Whatever waits in the queue, a program does the same and puts its tasks behind it. The
  status callback has to be the one that the dispatcher sets.
\<close>

definition behind ::
    "task list \<Rightarrow> ('d, task list, 'z) status_manager_scheme \<Rightarrow> ('d, task list, 'z) status_manager_scheme" where
  "behind q s = s\<lparr>outbox := q @ outbox s\<rparr>"

definition appends :: "(('d, task list, 'z) status_manager_scheme, 'a) prog \<Rightarrow> bool" where
  "appends m \<longleftrightarrow> (\<forall>q s. m_callback s = heating_callback \<longrightarrow>
     m_callback (fst (m s)) = heating_callback \<and> m (behind q s) = (behind q (fst (m s)), snd (m s)))"

named_theorems appending \<open>introduction rules for programs that only append to the queue\<close>

lemma appendsD:
  assumes "appends m" and "m_callback s = heating_callback"
  shows "m_callback (fst (m s)) = heating_callback" "m (behind q s) = (behind q (fst (m s)), snd (m s))"
  using assms by (simp_all add: appends_def)

lemma behind_callback [simp]: "m_callback (behind q s) = m_callback s"
  by (simp add: behind_def)

lemma appends_simple [appending]:
  "appends skip" "appends (return x)" "appends (throw e)" "appends (lift_result r)" "appends (block [])"
  by (simp_all add: appends_def prog_defs)

lemma appends_get [appending]: "(\<And>q s. g (behind q s) = g s) \<Longrightarrow> appends (get g)"
  by (simp add: appends_def prog_defs)

lemma appends_act [appending]:
  "(\<And>q s. g (behind q s) = behind q (g s)) \<Longrightarrow> (\<And>s. m_callback (g s) = m_callback s) \<Longrightarrow> appends (act g)"
  by (simp add: appends_def prog_defs)

lemma appends_bindp [appending]: "appends m \<Longrightarrow> (\<And>x. appends (k x)) \<Longrightarrow> appends (bindp m k)"
  by (auto simp: appends_def bindp_def split: sum.split)

lemma appends_branch [appending]:
  "(\<And>q s. b (behind q s) = b s) \<Longrightarrow> appends t \<Longrightarrow> appends e \<Longrightarrow> appends (branch b t e)"
  by (simp add: appends_def branch_def)

lemma appends_if [appending]: "(b \<Longrightarrow> appends t) \<Longrightarrow> (\<not> b \<Longrightarrow> appends e) \<Longrightarrow> appends (if b then t else e)"
  by simp

lemma appends_block [appending]: "appends c \<Longrightarrow> appends (block cs) \<Longrightarrow> appends (block (c # cs))"
  by (auto simp: appends_def split: sum.split)

lemma appends_catching [appending]: "appends m \<Longrightarrow> (\<And>e. appends (h e)) \<Longrightarrow> appends (catching m h)"
  by (auto simp: appends_def catching_def split: sum.split)

lemma appends_on_dev [appending]: "appends (on_dev m)"
  by (simp add: appends_def on_dev_def zoom_def behind_def)

text \<open>A program that depends on a part of the state that the queue is not in.\<close>

lemma appends_at: "(\<And>q s. f (behind q s) = f s) \<Longrightarrow> (\<And>x. appends (k x)) \<Longrightarrow> appends (\<lambda>s. k (f s) s)"
  by (simp add: appends_def)

lemma appends_option:
  assumes "\<And>q s. f (behind q s) = f s" and "\<And>x. appends (k x)"
  shows "appends (\<lambda>s. case f s of None \<Rightarrow> (s, Inr ()) | Some x \<Rightarrow> k x s)"
  unfolding appends_def using assms(1) appendsD [OF assms(2)] by (simp split: option.split)

lemma appends_publish [appending]: "appends (publishStatus st)"
  by (simp add: appends_def publishStatus_def branch_def act_def skip_def behind_def heating_callback_def)

lemma appends_status [appending]:
  "appends (indicateState L b t)" "appends (disable L)" "appends (deliverTemperature L t)"
proof -
  have a: "appends (applyStatus L b' st)" for b' st
    unfolding applyStatus_def by (intro appending)
  have u: "appends (unregisterTemperatureCallback L)"
    unfolding unregisterTemperatureCallback_def
    by (intro appends_option appending; simp add: behind_def)
  have r: "appends (registerTemperatureCallback L cb)" for cb
    unfolding registerTemperatureCallback_def by (intro appending) (simp_all add: behind_def)
  have m: "appends (makeTemperatureCallback L b' t' w rt)" for b' t' w rt
    by (auto simp: appends_def makeTemperatureCallback_def makeFixedRateCallback_def
        makeVariableRateCallback_def return_def behind_def split: option.split sum.split)
  show "appends (indicateState L b t)"
    unfolding indicateState_def by (intro appending u a r m; simp add: behind_def temperature_window_def)
  show "appends (disable L)"
    unfolding disable_def by (intro appending u)
  have c: "appends (set_closure cb)" for cb
    unfolding set_closure_def by (intro appending) (simp_all add: behind_def)
  have "appends (fixedRateCallback L b' tg w n k t)" for b' tg w n k
    unfolding fixedRateCallback_def Let_def by (intro appending a c) (simp add: behind_def)
  moreover have "appends (variableRateCallback L b' tg w k t)" for b' tg w k
    unfolding variableRateCallback_def Let_def by (intro appending a c) (simp_all add: behind_def)
  ultimately have "appends (temperatureCallback L cb t)" for cb
    by (cases cb) (simp_all add: temperatureCallback_def)
  then show "appends (deliverTemperature L t)"
    unfolding deliverTemperature_def by (intro appends_option) (simp add: behind_def)
qed

lemma appends_operations [appending]:
  "appends (setPowerState L b)" "appends (startBrew L)" "appends (stopBrew L)"
  "appends (setSteamModeState L b)" "appends (setBrewTemperature L t)"
  "appends (setSteamTemperature L t)" "appends (resetScales L)" "appends (setBrewSteps L r)"
  "appends (setAutoStopCondition L c)" "appends (unregisterBrewProfileCallback L n)"
  unfolding setPowerState_def startBrew_def stopBrew_def setSteamModeState_def
    setBrewTemperature_def setSteamTemperature_def resetScales_def setBrewSteps_def
    setAutoStopCondition_def unregisterBrewProfileCallback_def indicateState_eq
  by (intro appending; simp add: behind_def profilerActive_def deviceActive_def)+

lemma appends_apply [appending]: "appends (applyBrewProfile L pm)" "appends (applySettings L us)"
  by (auto simp: applyBrewProfile_def applyAutoStopCondition_def applySettings_def simp del: block.simps
      intro!: appending split: option.split StopConditionType.split)

lemma appends_notify [appending]: "appends (notifyChanged e)"
  unfolding notifyChanged_def by (intro appending) (simp_all add: behind_def)

lemma appends_save [appending]:
  "appends (on_profiles (saveProfile L J p))" "appends (on_settings (saveSettings L K u))"
  by (simp_all add: appends_def on_profiles_def on_settings_def zoom_def behind_def split_def)

lemma appends_requests [appending]:
  "appends (doSetPowerState L b)" "appends (doStartBrew L)" "appends (doStopBrew L)"
  "appends (doSetSteamModeState L b)" "appends (notifyHeatingStatusChange st)"
  "appends (doNotifyBrewStepChange i)" "appends (addReactor L n)" "appends (removeReactor n)"
  "appends (doSetBrewProfile L JP p)" "appends (doSetUserSettings L JS u)"
  "appends (remoteStopBrew L)" "appends (shutdown L)"
  unfolding doSetPowerState_def doStartBrew_def doStopBrew_def doSetSteamModeState_def
    notifyHeatingStatusChange_def doNotifyBrewStepChange_def addReactor_def removeReactor_def
    doSetBrewProfile_def doSetUserSettings_def remoteStopBrew_def shutdown_def
  by (intro appending appends_at [where k = "applyBrewProfile L"] appends_at [where k = "applySettings L"]
      appends_at [where k = "unregisterBrewProfileCallback L"];
      simp add: behind_def profilerActive_def deviceActive_def getBrewState_def getPowerState_def
        sendInitialState_def getSteamModeState_def heatingStatus_def getCurrentStatus_def)+

lemma appends_procedure: "appends (run_procedure L JP JS p)"
proof -
  have f: "appends m \<Longrightarrow> appends (finish m)" for m :: "('a, 'b) dispatcher_stmt"
    unfolding finish_def by (intro appending)
  show ?thesis
    by (cases p) (simp_all, (intro f appending appends_at [where k = "doSetPowerState L"]
        appends_at [where k = "doSetSteamModeState L"];
        simp add: behind_def profilerActive_def deviceActive_def getBrewState_def getPowerState_def
          getSteamModeState_def)+)
qed

lemma appends_task: "appends (run_task L JP JS t)"
  by (cases t) (simp_all add: run_task.simps, (unfold packaged_def deliver_def, intro appending appends_procedure;
      simp add: behind_def)+)

section \<open>The dispatcher over its executor\<close>

text \<open>
  The state of the two together; the queue of the dispatcher is not used and stays empty.
  A program run by any thread pushes its tasks into the executor.
\<close>

type_synonym 'd composed = "task executor \<times> 'd dispatcher"

definition performs :: "'d dispatcher stmt \<Rightarrow> 'd composed \<Rightarrow> 'd composed" where
  "performs m c = (fold enqueue (outbox (fst (m (snd c)))) (fst c),
     (fst (m (snd c)))\<lparr>outbox := []\<rparr>)"

text \<open>
  The worker: waking up and taking the queue concern the executor alone; the first task of
  the batch is run on the dispatcher and then removed.
\<close>

definition runs_front ::
    "'d lib \<Rightarrow> BrewProfile json \<Rightarrow> UserSettings json \<Rightarrow> 'd composed \<Rightarrow> 'd composed" where
  "runs_front L JP JS c =
     (let c' = performs (run_task L JP JS (hd (batch (fst c)))) c in (run_front (fst c'), snd c'))"

inductive composed_step ::
    "'d lib \<Rightarrow> BrewProfile json \<Rightarrow> UserSettings json \<Rightarrow> 'd composed \<Rightarrow> 'd composed \<Rightarrow> bool"
  for L JP JS where
  request: "m \<in> requests \<Longrightarrow> \<not> closing (fst c) \<Longrightarrow> composed_step L JP JS c (performs m c)"
| reading: "\<not> closing (fst c) \<Longrightarrow> composed_step L JP JS c (performs (deliverTemperature L t) c)"
| world: "composed_step L JP JS c (fst c, (snd c)\<lparr>dev := d\<rparr>)"
| close: "\<not> closing (fst c) \<Longrightarrow> composed_step L JP JS c (close_queue (fst c), snd c)"
| take: "point (fst c) \<noteq> Executing \<Longrightarrow> worker (fst c) = Some x \<Longrightarrow> composed_step L JP JS c (x, snd c)"
| run: "point (fst c) = Executing \<Longrightarrow> composed_step L JP JS c (runs_front L JP JS c)"

text \<open>The one queue: what the worker holds and, behind it, what waits under the lock.\<close>

definition one_queue :: "'d composed \<Rightarrow> 'd dispatcher" where
  "one_queue c = (snd c)\<lparr>outbox := batch (fst c) @ m_queue (fst c)\<rparr>"

definition composed_ok :: "'d composed \<Rightarrow> bool" where
  "composed_ok c \<longleftrightarrow> executor_ok (fst c) \<and> outbox (snd c) = [] \<and> m_callback (snd c) = heating_callback"

lemma enqueue_all:
  "batch (fold enqueue ts x) = batch x" "m_queue (fold enqueue ts x) = m_queue x @ ts"
  "point (fold enqueue ts x) = point x" "closing (fold enqueue ts x) = closing x"
  by (induction ts arbitrary: x) (simp_all add: enqueue_def)

lemma enqueue_all_steps:
  "\<not> closing x \<or> point x = Executing \<Longrightarrow> executor_step\<^sup>*\<^sup>* x (fold enqueue ts x)"
proof (induction ts arbitrary: x)
  case (Cons t ts)
  have "executor_step x (enqueue t x)" by (rule executor_step.push) (rule Cons.prems)
  moreover have "executor_step\<^sup>*\<^sup>* (enqueue t x) (fold enqueue ts (enqueue t x))"
    using Cons.prems by (intro Cons.IH) (simp add: enqueue_def)
  ultimately show ?case by (simp add: converse_rtranclp_into_rtranclp)
qed simp

lemma executor_ok_enqueue_all:
  "executor_ok x \<Longrightarrow> \<not> closing x \<or> point x = Executing \<Longrightarrow> executor_ok (fold enqueue ts x)"
  using enqueue_all_steps executor.steps_inv by blast

lemma one_queue_behind:
  "outbox (snd c) = [] \<Longrightarrow> one_queue c = behind (batch (fst c) @ m_queue (fst c)) (snd c)"
  by (simp add: one_queue_def behind_def)

text \<open>A program of any thread does the same over the one queue.\<close>

lemma performs_one_queue:
  assumes "appends m" and "composed_ok c"
  shows "one_queue (performs m c) = fst (m (one_queue c))"
proof -
  have c: "outbox (snd c) = []" "m_callback (snd c) = heating_callback"
    using assms(2) by (simp_all add: composed_ok_def)
  show ?thesis
    by (simp add: one_queue_behind [OF c(1)] appendsD(2) [OF assms(1) c(2)])
      (simp add: one_queue_def performs_def behind_def enqueue_all)
qed

lemma performs_ok:
  assumes "appends m" and "composed_ok c" and "\<not> closing (fst c) \<or> point (fst c) = Executing"
  shows "composed_ok (performs m c)"
  using assms appendsD(1) [OF assms(1)]
  by (simp add: composed_ok_def performs_def executor_ok_enqueue_all)

lemma appends_push: "appends (push t)"
  by (simp add: appends_def push_def act_def behind_def)

lemma request_appends: "m \<in> requests \<Longrightarrow> appends m"
  by (auto simp: requests_def togglePowerState_def toggleBrew_def button_startBrew_def
      button_stopBrew_def toggleSteamModeState_def button_setPowerState_def
      button_setSteamModeState_def addEventsStreamReactor_def releaseEventsStreamReactor_def
      resetWeight_def getBrewProfile_def setBrewProfile_def remote_getPowerState_def
      remote_setPowerState_def remote_getBrewState_def remote_startBrew_def remote_stopBrew_def
      remote_getSteamModeState_def remote_setSteamModeState_def getUserSettings_def
      setUserSettings_def brewCallback_def executeDiscardResult_def executeWithCallback_def
      appends_push split: option.split)

lemma run_one_queue:
  assumes "composed_ok c" and "point (fst c) = Executing"
  shows "composed_ok (runs_front L JP JS c)"
    and "one_queue (runs_front L JP JS c) = fst (worker_step L JP JS (one_queue c))"
proof -
  obtain t ts where b: "batch (fst c) = t # ts"
    using assms by (cases "batch (fst c)") (auto simp: composed_ok_def executor_ok_def)
  let ?p = "performs (run_task L JP JS t) c"
  have p: "composed_ok ?p" using assms by (intro performs_ok appends_task) simp_all
  have e: "executor_step (fst ?p) (run_front (fst ?p))"
    using assms(2) by (intro executor_step.work) (simp add: worker_def performs_def enqueue_all)
  show "composed_ok (runs_front L JP JS c)"
    using p executor_ok_step [OF e] by (simp add: runs_front_def Let_def b composed_ok_def)
  have c: "outbox (snd c) = []" "m_callback (snd c) = heating_callback"
    using assms(1) by (simp_all add: composed_ok_def)
  have "worker_step L JP JS (one_queue c) = run_task L JP JS t (behind (ts @ m_queue (fst c)) (snd c))"
    by (simp add: worker_step_def one_queue_def b behind_def c(1))
  then show "one_queue (runs_front L JP JS c) = fst (worker_step L JP JS (one_queue c))"
    by (simp add: appendsD(2) [OF appends_task c(2)])
      (simp add: runs_front_def Let_def one_queue_def performs_def run_front_def behind_def enqueue_all b)
qed

lemma composed_step_refines:
  assumes "composed_step L JP JS c c'" and "composed_ok c"
  shows "composed_ok c' \<and> (dispatcher_step L JP JS)\<^sup>=\<^sup>= (one_queue c) (one_queue c')"
  using assms
proof cases
  case (request m)
  note a = request_appends [OF request(2)]
  show ?thesis unfolding request(1)
    using performs_ok [OF a assms(2)] performs_one_queue [OF a assms(2)] request(2,3)
    by (auto intro: dispatcher_step.request)
next
  case (reading t)
  note a = appends_status(3)
  show ?thesis unfolding reading(1)
    using performs_ok [OF a assms(2)] performs_one_queue [OF a assms(2)] reading(2)
    by (auto intro: dispatcher_step.reading)
next
  case (world d)
  have "one_queue c' = (one_queue c)\<lparr>dev := d\<rparr>" by (simp add: world one_queue_def)
  then have "dispatcher_step L JP JS (one_queue c) (one_queue c')"
    by (simp add: dispatcher_step.world)
  then show ?thesis using assms(2) world by (simp add: composed_ok_def)
next
  case close
  then have "executor_ok (close_queue (fst c))"
    using assms(2) by (intro executor_ok_step [OF executor_step.close]) (simp_all add: composed_ok_def)
  then show ?thesis
    using assms(2) close by (simp add: composed_ok_def one_queue_def close_queue_def)
next
  case (take x)
  then have x: "batch x @ m_queue x = batch (fst c) @ m_queue (fst c)"
    using assms(2) by (cases "point (fst c)")
      (auto simp: worker_def take_queue_def composed_ok_def executor_ok_def split: if_splits)
  then show ?thesis
    using assms(2) take worker_ok by (auto simp: composed_ok_def one_queue_def)
next
  case run
  then show ?thesis using run_one_queue [OF assms(2)] by (auto intro: dispatcher_step.work)
qed

lemma composed_steps_refine:
  "(composed_step L JP JS)\<^sup>*\<^sup>* c c' \<Longrightarrow> composed_ok c \<Longrightarrow>
   composed_ok c' \<and> (dispatcher_step L JP JS)\<^sup>*\<^sup>* (one_queue c) (one_queue c')"
proof (induction rule: rtranclp_induct)
  case (step c' c'')
  from step.IH [OF step.prems] have c: "composed_ok c'" "(dispatcher_step L JP JS)\<^sup>*\<^sup>* (one_queue c) (one_queue c')"
    by simp_all
  from composed_step_refines [OF step.hyps(2) c(1)] c(2) show ?case by (auto intro: rtranclp.rtrancl_into_rtrancl)
qed simp

lemma start_composed:
  assumes "dispatcher_start L s"
  shows "composed_ok (executor_init, s)" "one_queue (executor_init, s) = s"
  using executor_ok_init [where 'a = task] dispatcher_start_fields [OF assms]
  by (simp_all add: composed_ok_def one_queue_def executor_init_def)

text \<open>
  C14: the dispatcher over the executor of the code, with its locked queue, its atomic size
  and its worker, does nothing that the dispatcher with one queue does not do: every state
  that the two reach together, in any interleaving of requests, readings and steps of the
  worker, is a reachable state of the dispatcher with the tasks of the batch and of the
  locked queue in this order; and when the worker has ended no task is left.
\<close>

theorem executor_refines_queue:
  assumes "dispatcher_start L s" and "(composed_step L JP JS)\<^sup>*\<^sup>* (executor_init, s) c"
  shows "(dispatcher_step L JP JS)\<^sup>*\<^sup>* s (one_queue c) \<and>
    (point (fst c) = Exited \<longrightarrow> outbox (one_queue c) = [])"
proof -
  from composed_steps_refine [OF assms(2) start_composed(1) [OF assms(1)]]
  have "composed_ok c" "(dispatcher_step L JP JS)\<^sup>*\<^sup>* s (one_queue c)"
    by (simp_all add: start_composed(2) [OF assms(1)])
  then show ?thesis by (auto simp: composed_ok_def executor_ok_def one_queue_def)
qed

text \<open>A request that the worker has taken from the locked queue.\<close>

theorem executor_refines_queue_witness:
  "(dispatcher_step sim_lib (one_json empty_profile) (one_json (makeDefaultSettings 0)))\<^sup>*\<^sup>* sample_dispatcher
     (sample_dispatcher\<lparr>outbox := [Discard TogglePower]\<rparr>)"
proof -
  let ?c0 = "(executor_init, sample_dispatcher)"
    and ?step = "composed_step sim_lib (one_json empty_profile) (one_json (makeDefaultSettings 0))"
  let ?c1 = "performs togglePowerState ?c0"
  let ?c2 = "((fst ?c1)\<lparr>point := Woken\<rparr>, snd ?c1)" let ?c3 = "(take_queue (fst ?c2), snd ?c2)"
  note d = performs_def togglePowerState_def executeDiscardResult_def push_def act_def
    executor_init_def enqueue_def worker_def take_queue_def sample_dispatcher_def sample_manager_def
    state_manager.defs
  have "?step ?c0 ?c1" by (rule composed_step.request) (simp_all add: requests_def executor_init_def)
  moreover have "?step ?c1 ?c2" by (rule composed_step.take) (simp_all add: d)
  moreover have "?step ?c2 ?c3" by (rule composed_step.take) (simp_all add: d)
  ultimately have "?step\<^sup>*\<^sup>* ?c0 ?c3" by simp
  from executor_refines_queue [OF sample_dispatcher_start this] show ?thesis
    by (simp add: one_queue_def) (simp add: d)
qed

end
