(* ===== verification/Clients.thy ===== *)
theory Clients
  imports Service EventsReactor
begin

text \<open>
  The dispatcher together with the event streams that it feeds: the life of a stream from
  the remote call that opens it to its destruction, and what its client reads. The sinks of
  the dispatcher are the reactors of \<open>EventsReactor\<close>; what the dispatcher tells a sink
  (\<open>m_eventsSinks\<close>) is pushed into it event by event by the worker thread of the dispatcher,
  which takes its next task when it has pushed and counted everything.
\<close>

section \<open>Requests that concern streams\<close>

primrec procedure_of :: "task \<Rightarrow> procedure" where
  "procedure_of (Discard p) = p"
| "procedure_of (WithCallback _ p) = p"
| "procedure_of (WithFuture _ p) = p"

fun added_by :: "procedure \<Rightarrow> nat list" where
  "added_by (AddReactor i) = [i]"
| "added_by _ = []"

fun released_by :: "procedure \<Rightarrow> nat list" where
  "released_by (ReleaseReactor i) = [i]"
| "released_by _ = []"

text \<open>The streams that wait in the queue to be added, and those that wait to be released.\<close>

definition adds :: "task list \<Rightarrow> nat list" where
  "adds ts = concat (map (\<lambda>t. added_by (procedure_of t)) ts)"

definition releases :: "task list \<Rightarrow> nat list" where
  "releases ts = concat (map (\<lambda>t. released_by (procedure_of t)) ts)"

lemma adds_simps [simp]:
  "adds [] = []" "adds (t # ts) = added_by (procedure_of t) @ adds ts" "adds (ts @ us) = adds ts @ adds us"
  "adds (map note_of xs) = []"
  by (simp_all add: adds_def note_of_def comp_def)

lemma releases_simps [simp]:
  "releases [] = []" "releases (t # ts) = released_by (procedure_of t) @ releases ts"
  "releases (ts @ us) = releases ts @ releases us" "releases (map note_of xs) = []"
  by (simp_all add: releases_def note_of_def comp_def)

text \<open>No stream is added behind its release.\<close>

fun in_order :: "task list \<Rightarrow> bool" where
  "in_order [] = True"
| "in_order (t # ts) = (set (released_by (procedure_of t)) \<inter> set (adds ts) = {} \<and> in_order ts)"

lemma in_order_append:
  "in_order (ts @ us) \<longleftrightarrow> in_order ts \<and> in_order us \<and> set (releases ts) \<inter> set (adds us) = {}"
  by (induction ts) auto

lemma in_order_notes [simp]: "in_order (map note_of xs)"
  by (induction xs) (simp_all add: note_of_def)

section \<open>What a task does to the sinks\<close>

definition tells :: "('d, 'z) dispatcher_scheme \<Rightarrow> ('d, 'z) dispatcher_scheme \<Rightarrow> bool" where
  "tells s t \<longleftrightarrow> (\<exists>es. m_eventsSinks t = map (\<lambda>(i, q). (i, q @ es)) (m_eventsSinks s))"

lemma tells_refl: "reflp tells"
  by (auto simp: reflp_def tells_def intro!: exI [of _ "[]"] map_idI [symmetric])

lemma tells_trans: "transp tells"
proof (rule transpI)
  fix s t u :: "('a, 'b) dispatcher_scheme"
  assume "tells s t" and "tells t u"
  then obtain es fs where "m_eventsSinks t = map (\<lambda>(i, q). (i, q @ es)) (m_eventsSinks s)"
    "m_eventsSinks u = map (\<lambda>(i, q). (i, q @ fs)) (m_eventsSinks t)"
    unfolding tells_def by blast
  then have "m_eventsSinks u = map (\<lambda>(i, q). (i, q @ es @ fs)) (m_eventsSinks s)"
    by (simp add: comp_def split_def)
  then show "tells s u" unfolding tells_def by blast
qed

lemma tells_same: "m_eventsSinks t = m_eventsSinks s \<Longrightarrow> tells s t"
  by (auto simp: tells_def intro!: exI [of _ "[]"] map_idI [symmetric])

lemma tells_announces: "moves announces m \<Longrightarrow> moves tells m"
  by (simp add: moves_def announces_def tells_same)

lemmas telling =
  moves_simple [OF tells_refl] moves_branch moves_if moves_bindp [OF tells_trans]
  moves_block_Cons [OF tells_trans]

lemma tells_basic:
  "moves tells (notifyChanged e)" "moves tells (on_profiles m)" "moves tells (on_settings n)"
  by (auto simp: moves_def tells_same on_profiles_def on_settings_def zoom_def split_def)
    (auto simp: tells_def notifyChanged_def act_def)

lemmas tells_operations = announces_operations [THEN tells_announces]

lemma tells_apply: "moves tells (applyBrewProfile L m)" "moves tells (applySettings L n)"
  unfolding applyBrewProfile_def applyAutoStopCondition_eq applySettings_def
  by (intro telling tells_operations)+

lemma tells_switching: "moves tells (doSetPowerState L b)" "moves tells (doSetSteamModeState L b)"
  unfolding doSetPowerState_def doSetSteamModeState_def
  by (intro telling tells_operations tells_basic)+

lemma tells_reading:
  "moves tells (\<lambda>s. doSetPowerState L (\<not> getPowerState s) s)"
  "moves tells (\<lambda>s. doSetSteamModeState L (\<not> getSteamModeState s) s)"
  "moves tells (\<lambda>s. applyBrewProfile L (m_brewProfileManager s) s)"
  "moves tells (\<lambda>s. applySettings L (m_userSettings s) s)"
  "moves tells (\<lambda>s. unregisterBrewProfileCallback L (m_brewCallback s) s)"
  unfolding moves_def
  by (auto intro: movesD [OF tells_switching(1)] movesD [OF tells_switching(2)]
      movesD [OF tells_apply(1)] movesD [OF tells_apply(2)] movesD [OF tells_operations(11)])

lemma tells_procedure:
  "added_by p = [] \<Longrightarrow> released_by p = [] \<Longrightarrow> moves tells (run_procedure L JP JS p)"
  by (cases p; simp only: run_procedure.simps finish_def doStartBrew_def doStopBrew_def
      notifyHeatingStatusChange_def doNotifyBrewStepChange_def doSetBrewProfile_def
      doSetUserSettings_def remoteStopBrew_def shutdown_def added_by.simps released_by.simps list.distinct)
    (intro telling tells_operations tells_basic tells_reading tells_switching)+

lemma run_task_part:
  "\<exists>rs. fst (run_task L JP JS t s) = (fst (run_procedure L JP JS (procedure_of t) s))\<lparr>results := rs\<rparr>"
  by (intro exI [of _ "results (fst (run_task L JP JS t s))"], cases t)
    (simp_all add: run_task.simps packaged_def prog_defs deliver_def split: sum.split)

text \<open>One round of the worker, seen from the streams.\<close>

lemma worker_step_sinks:
  fixes L :: "'d lib" and JP JS and s :: "('d, 'z) dispatcher_scheme"
  assumes "m_callback s = heating_callback" and "outbox s = t # ts"
  defines "s' \<equiv> fst (worker_step L JP JS s)"
  shows "m_callback s' = heating_callback" and "\<exists>xs. outbox s' = ts @ map note_of xs"
    and "added_by (procedure_of t) = [] \<Longrightarrow> released_by (procedure_of t) = [] \<Longrightarrow> tells s s'"
    and "procedure_of t = AddReactor i \<Longrightarrow>
      m_eventsSinks s' = m_eventsSinks s @ [(i, sendInitialState L (s\<lparr>outbox := ts\<rparr>) [])]"
    and "procedure_of t = ReleaseReactor i \<Longrightarrow>
      m_eventsSinks s' = filter (\<lambda>(j, q). j \<noteq> i) (m_eventsSinks s)"
proof -
  let ?p = "run_procedure L JP JS (procedure_of t)" and ?s = "s\<lparr>outbox := ts\<rparr>"
  obtain rs where w: "s' = (fst (?p ?s))\<lparr>results := rs\<rparr>"
    using run_task_part [of L JP JS t ?s] assms(2) by (auto simp: s'_def worker_step_def)
  have "queues ?s (fst (?p ?s))" by (rule movesD [OF queues_procedure])
  then show "m_callback s' = heating_callback" and "\<exists>xs. outbox s' = ts @ map note_of xs"
    using assms(1) by (auto simp: w queues_def)
  show "tells s s'" if "added_by (procedure_of t) = []" "released_by (procedure_of t) = []"
    using movesD [OF tells_procedure [OF that], of ?s L JP JS] by (simp add: w tells_def)
  show "m_eventsSinks s' = m_eventsSinks s @ [(i, sendInitialState L (s\<lparr>outbox := ts\<rparr>) [])]"
    if "procedure_of t = AddReactor i"
    using that by (simp add: w finish_result addReactor_def act_def)
  show "m_eventsSinks s' = filter (\<lambda>(j, q). j \<noteq> i) (m_eventsSinks s)"
    if "procedure_of t = ReleaseReactor i"
    using that by (simp add: w finish_result removeReactor_def act_def)
qed

section \<open>The dispatcher and its streams\<close>

text \<open>
  \<open>open_streams\<close> holds the reactors that exist: a stream is created by the remote call and is
  owned first by the task that adds it, then by the dispatcher. Its number stands for its
  address, which may be used again once the stream is destroyed.
\<close>

record 'd clients =
  machine :: "'d dispatcher"
  open_streams :: "nat \<rightharpoonup> Event reactor"

definition clients_init :: "'d dispatcher \<Rightarrow> 'd clients" where
  "clients_init s = \<lparr>machine = s, open_streams = Map.empty\<rparr>"

definition owned :: "'d dispatcher \<Rightarrow> nat set" where
  "owned s = set (adds (outbox s)) \<union> fst ` set (m_eventsSinks s)"

text \<open>What the dispatcher has told a stream, and whether it has pushed all of it to all.\<close>

definition told_to :: "'d dispatcher \<Rightarrow> nat \<Rightarrow> Event list" where
  "told_to s i = (case map_of (m_eventsSinks s) i of None \<Rightarrow> [] | Some es \<Rightarrow> es)"

definition all_pushed :: "'d clients \<Rightarrow> bool" where
  "all_pushed c \<longleftrightarrow> (\<forall>i \<in> fst ` set (m_eventsSinks (machine c)).
     case open_streams c i of
       None \<Rightarrow> True
     | Some r \<Rightarrow> pushed r = told_to (machine c) i \<and> uncounted r = 0)"

text \<open>
  The steps of one stream that has been told \<open>es\<close>: the next event is pushed and counted by
  the worker of the dispatcher, the thread of the stream works, gRPC completes a write.
\<close>

inductive served_step :: "'e list \<Rightarrow> 'e reactor \<Rightarrow> 'e reactor \<Rightarrow> bool" for es where
  push_next: "uncounted r = 0 \<Longrightarrow> length (pushed r) < length es \<Longrightarrow>
    served_step es r (push_event (es ! length (pushed r)) r)"
| count_pushed: "0 < uncounted r \<Longrightarrow> served_step es r (count_event r)"
| complete: "reactor.point r = Writing \<Longrightarrow> reactor.m_writeStatus r = InProgress \<Longrightarrow>
    served_step es r (EventsReactor.OnWriteDone ok r)"
| thread: "EventsReactor.worker r = Some r' \<Longrightarrow> served_step es r r'"

text \<open>
  The whole: a client opens a stream (\<open>service_events\<close>), cancels it, or its end is reported by
  gRPC (\<open>OnDone\<close>); other requests, readings and changes of the world; the streams are served;
  and the worker runs a task, after which the streams that nobody owns any more are gone.
\<close>

inductive clients_step ::
    "'d lib \<Rightarrow> BrewProfile json \<Rightarrow> UserSettings json \<Rightarrow> 'd clients \<Rightarrow> 'd clients \<Rightarrow> bool"
  for L JP JS where
  open_stream: "open_streams c i = None \<Longrightarrow>
    clients_step L JP JS c \<lparr>machine = fst (service_events i (machine c)),
      open_streams = (open_streams c)(i \<mapsto> reactor_init)\<rparr>"
| request: "m \<in> requests \<Longrightarrow> m \<notin> range addEventsStreamReactor \<union> range releaseEventsStreamReactor \<Longrightarrow>
    clients_step L JP JS c (c\<lparr>machine := fst (m (machine c))\<rparr>)"
| task: "all_pushed c \<Longrightarrow> s = fst (worker_step L JP JS (machine c)) \<Longrightarrow>
    clients_step L JP JS c \<lparr>machine = s, open_streams = open_streams c |` owned s\<rparr>"
| reading: "clients_step L JP JS c (c\<lparr>machine := fst (deliverTemperature L t (machine c))\<rparr>)"
| world: "clients_step L JP JS c (c\<lparr>machine := (machine c)\<lparr>dev := d\<rparr>\<rparr>)"
| serve: "open_streams c i = Some r \<Longrightarrow> served_step (told_to (machine c) i) r r' \<Longrightarrow>
    clients_step L JP JS c (c\<lparr>open_streams := (open_streams c)(i \<mapsto> r')\<rparr>)"
| cancel: "open_streams c i = Some r \<Longrightarrow> \<not> released r \<Longrightarrow>
    clients_step L JP JS c (c\<lparr>open_streams := (open_streams c)(i \<mapsto> EventsReactor.OnCancel r)\<rparr>)"
| done_stream: "open_streams c i = Some r \<Longrightarrow> reactor.point r = Finished \<Longrightarrow> \<not> released r \<Longrightarrow>
    clients_step L JP JS c \<lparr>machine = fst (releaseEventsStreamReactor i (machine c)),
      open_streams = (open_streams c)(i \<mapsto> EventsReactor.OnDone r)\<rparr>"

section \<open>What always holds\<close>

text \<open>
  Of each stream: the dispatcher has pushed a beginning of what it told it, one event at a
  time. Of the ownership: every stream has one owner. Of the queue: the streams whose end
  was reported are those that wait to be released.
\<close>

definition stream_told :: "'e list \<Rightarrow> 'e reactor \<Rightarrow> bool" where
  "stream_told es r \<longleftrightarrow> reactor_ok False r \<and> uncounted r \<le> 1 \<and> prefix (pushed r) es"

definition owners_ok :: "'d clients \<Rightarrow> bool" where
  "owners_ok c \<longleftrightarrow>
     distinct (adds (outbox (machine c)) @ map fst (m_eventsSinks (machine c))) \<and>
     dom (open_streams c) = owned (machine c)"

definition releases_ok :: "'d clients \<Rightarrow> bool" where
  "releases_ok c \<longleftrightarrow>
     distinct (releases (outbox (machine c))) \<and> in_order (outbox (machine c)) \<and>
     (\<forall>i. i \<in> set (releases (outbox (machine c))) \<longleftrightarrow>
        (\<exists>r. open_streams c i = Some r \<and> released r))"

definition clients_ok :: "'d clients \<Rightarrow> bool" where
  "clients_ok c \<longleftrightarrow>
     m_callback (machine c) = heating_callback \<and> owners_ok c \<and> releases_ok c \<and>
     (\<forall>i r. open_streams c i = Some r \<longrightarrow> stream_told (told_to (machine c) i) r)"

lemma clients_ok_alt:
  assumes "clients_ok c"
  shows "m_callback (machine c) = heating_callback" "owners_ok c" "releases_ok c"
    "open_streams c i = Some r \<Longrightarrow> stream_told (told_to (machine c) i) r"
  using assms by (auto simp: clients_ok_def)

lemma worker_keeps:
  assumes "EventsReactor.worker r = Some r'"
  shows "uncounted r' = uncounted r" "pushed r' = pushed r" "released r' = released r"
    "cancels r' = cancels r"
  using assms by (cases "reactor.point r";
      auto simp: EventsReactor.worker_def stream_step_defs split: if_splits)+

lemma served_told: "served_step es r r' \<Longrightarrow> stream_told es r \<Longrightarrow> stream_told es r'"
proof (induction rule: served_step.induct)
  case (push_next r)
  then have "reactor_ok False (push_event (es ! length (pushed r)) r)"
    by (intro reactor_ok_step [OF reactor_step.push]) (simp add: stream_told_def)
  moreover have "prefix (pushed r @ [es ! length (pushed r)]) es"
    using push_next by (intro append_one_prefix) (simp_all add: stream_told_def)
  ultimately show ?case using push_next by (simp add: stream_told_def push_event_def)
next
  case (count_pushed r)
  then have "reactor_ok False (count_event r)"
    by (intro reactor_ok_step [OF reactor_step.count]) (simp_all add: stream_told_def)
  then show ?case using count_pushed by (simp add: stream_told_def count_event_def)
next
  case (complete r ok)
  then have "reactor_ok False (EventsReactor.OnWriteDone ok r)"
    by (intro reactor_ok_step [OF reactor_step.write_done]) (simp_all add: stream_told_def)
  then show ?case using complete by (simp add: stream_told_def EventsReactor.OnWriteDone_def)
next
  case (thread r r')
  then have "reactor_ok False r'"
    using stream_worker_ok [of False r r'] by (simp add: stream_told_def)
  moreover have "uncounted r' = uncounted r" "pushed r' = pushed r"
    using thread.hyps worker_keeps by blast+
  ultimately show ?case using thread by (simp add: stream_told_def)
qed

lemma served_released: "served_step es r r' \<Longrightarrow> released r' = released r"
  by (induction rule: served_step.induct)
    (simp_all add: push_event_def count_event_def EventsReactor.OnWriteDone_def worker_keeps)

text \<open>Where only the machine or only one stream changes.\<close>

lemma clients_ok_machine:
  assumes "clients_ok c" and "m_callback s = heating_callback"
    and "adds (outbox s) = adds (outbox (machine c))"
    and "releases (outbox s) = releases (outbox (machine c))" and "in_order (outbox s)"
    and "m_eventsSinks s = m_eventsSinks (machine c)"
  shows "clients_ok (c\<lparr>machine := s\<rparr>)"
  using assms by (simp add: clients_ok_def owners_ok_def releases_ok_def owned_def told_to_def)

lemma clients_ok_stream:
  assumes "clients_ok c" and "open_streams c i = Some r" and "released r' = released r"
    and "stream_told (told_to (machine c) i) r \<Longrightarrow> stream_told (told_to (machine c) i) r'"
  shows "clients_ok (c\<lparr>open_streams := (open_streams c)(i \<mapsto> r')\<rparr>)"
  using assms by (auto simp: clients_ok_def owners_ok_def releases_ok_def)

lemma request_pushes:
  assumes "m \<in> requests" and "m \<notin> range addEventsStreamReactor \<union> range releaseEventsStreamReactor"
  obtains t where "m = push t" and "added_by (procedure_of t) = []" and "released_by (procedure_of t) = []"
  using assms
  by (auto simp: requests_def togglePowerState_def toggleBrew_def button_startBrew_def
      button_stopBrew_def toggleSteamModeState_def button_setPowerState_def
      button_setSteamModeState_def resetWeight_def getBrewProfile_def setBrewProfile_def
      remote_getPowerState_def remote_setPowerState_def remote_getBrewState_def
      remote_startBrew_def remote_stopBrew_def remote_getSteamModeState_def
      remote_setSteamModeState_def getUserSettings_def setUserSettings_def brewCallback_def
      executeDiscardResult_def executeWithCallback_def split: option.splits)

section \<open>A task and the streams\<close>

lemma told_to_more:
  "m_eventsSinks t = map (\<lambda>(i, q). (i, q @ es)) (m_eventsSinks s) \<Longrightarrow> prefix (told_to s i) (told_to t i)"
  by (simp add: told_to_def map_of_map split: option.split)

lemma sinks_after_filter:
  "map fst (filter (\<lambda>(j, q). j \<noteq> i) xs) = filter (\<lambda>j. j \<noteq> i) (map fst xs)"
  by (induction xs) auto

lemma map_of_filter_fst:
  "map_of (filter (\<lambda>(j, q). j \<noteq> i) xs) k = (if k = i then None else map_of xs k)"
  by (induction xs) auto

lemma restrict_owned:
  "dom m = A \<Longrightarrow> m |` A = m" "dom m = A \<Longrightarrow> m |` (A - {i}) = m(i := None)"
  by (auto simp: restrict_map_def fun_eq_iff domIff)

lemma stream_told_more: "stream_told es r \<Longrightarrow> prefix es fs \<Longrightarrow> stream_told fs r"
  by (auto simp: stream_told_def intro: prefix_order.trans)

lemma clients_ok_after:
  assumes "clients_ok c" and "m_callback (machine c') = heating_callback" and "owners_ok c'"
    and "releases_ok c'"
    and "\<And>i r. open_streams c' i = Some r \<Longrightarrow>
      open_streams c i = Some r \<and> prefix (told_to (machine c) i) (told_to (machine c') i)"
  shows "clients_ok c'"
  unfolding clients_ok_def
  using assms(2-5) clients_ok_alt(4) [OF assms(1)] stream_told_more by blast

lemma task_tells_ok:
  assumes "clients_ok c" and "m_callback s = heating_callback" and "tells (machine c) s"
    and "adds (outbox s) = adds (outbox (machine c))"
    and "releases (outbox s) = releases (outbox (machine c))" and "in_order (outbox s)"
  shows "clients_ok \<lparr>machine = s, open_streams = open_streams c |` owned s\<rparr>"
proof -
  obtain es where es: "m_eventsSinks s = map (\<lambda>(i, q). (i, q @ es)) (m_eventsSinks (machine c))"
    using assms(3) by (auto simp: tells_def)
  then have k: "map fst (m_eventsSinks s) = map fst (m_eventsSinks (machine c))"
    by (simp add: comp_def split_def)
  then have f: "fst ` set (m_eventsSinks s) = fst ` set (m_eventsSinks (machine c))"
    by (metis list.set_map)
  have "dom (open_streams c) = owned s"
    using clients_ok_alt(2) [OF assms(1)] by (simp add: owners_ok_def owned_def assms(4) f)
  then have d: "open_streams c |` owned s = open_streams c" by (rule restrict_owned)
  show ?thesis
  proof (rule clients_ok_after [OF assms(1)])
    show "owners_ok \<lparr>machine = s, open_streams = open_streams c |` owned s\<rparr>"
      using clients_ok_alt(2) [OF assms(1)] by (simp add: owners_ok_def d owned_def assms(4) k f)
    show "releases_ok \<lparr>machine = s, open_streams = open_streams c |` owned s\<rparr>"
      using clients_ok_alt(3) [OF assms(1)] assms(5,6) by (simp add: releases_ok_def d)
  qed (simp_all add: assms(2) d told_to_more [OF es])
qed

lemma task_adds_ok:
  assumes "clients_ok c" and "m_callback s = heating_callback"
    and "outbox (machine c) = t # ts" and "procedure_of t = AddReactor i"
    and "outbox s = ts @ map note_of xs" and "m_eventsSinks s = m_eventsSinks (machine c) @ [(i, es)]"
  shows "clients_ok \<lparr>machine = s, open_streams = open_streams c |` owned s\<rparr>"
proof -
  have o: "owners_ok c" "releases_ok c" using assms(1) by (simp_all add: clients_ok_def)
  then have i: "i \<notin> fst ` set (m_eventsSinks (machine c))"
    using assms(3,4) by (auto simp: owners_ok_def)
  have ow: "owned s = owned (machine c)" using assms(3-6) by (auto simp: owned_def)
  then have d: "open_streams c |` owned s = open_streams c"
    using o(1) by (simp add: owners_ok_def restrict_owned)
  have n: "map_of (m_eventsSinks (machine c)) i = None" using i by (simp add: map_of_eq_None_iff)
  show ?thesis
  proof (rule clients_ok_after [OF assms(1)])
    show "owners_ok \<lparr>machine = s, open_streams = open_streams c |` owned s\<rparr>"
      using o(1) assms(3-6) i by (auto simp: owners_ok_def d ow)
    show "releases_ok \<lparr>machine = s, open_streams = open_streams c |` owned s\<rparr>"
      using o(2) assms(3-5) by (simp add: releases_ok_def d in_order_append)
  qed (simp_all add: assms(2,6) d told_to_def map_add_def n split: option.split)
qed

lemma task_releases_ok:
  assumes "clients_ok c" and "m_callback s = heating_callback"
    and "outbox (machine c) = t # ts" and "procedure_of t = ReleaseReactor i"
    and "outbox s = ts @ map note_of xs"
    and "m_eventsSinks s = filter (\<lambda>(j, q). j \<noteq> i) (m_eventsSinks (machine c))"
  shows "clients_ok \<lparr>machine = s, open_streams = open_streams c |` owned s\<rparr>"
    and "open_streams c |` owned s = (open_streams c)(i := None)"
proof -
  have o: "owners_ok c" "releases_ok c" using assms(1) by (simp_all add: clients_ok_def)
  then have i: "i \<notin> set (adds ts)" "i \<notin> set (releases ts)"
    using assms(3,4) by (auto simp: releases_ok_def)
  have k: "map fst (m_eventsSinks s) = filter (\<lambda>j. j \<noteq> i) (map fst (m_eventsSinks (machine c)))"
    by (simp add: assms(6) sinks_after_filter)
  have ow: "owned s = owned (machine c) - {i}" using assms(3-6) i(1) by (auto simp: owned_def)
  show d: "open_streams c |` owned s = (open_streams c)(i := None)"
    using o(1) by (simp add: owners_ok_def ow restrict_owned)
  show "clients_ok \<lparr>machine = s, open_streams = open_streams c |` owned s\<rparr>"
  proof (rule clients_ok_after [OF assms(1)])
    show "owners_ok \<lparr>machine = s, open_streams = open_streams c |` owned s\<rparr>"
      using o(1) assms(3-5) k ow unfolding owners_ok_def d by auto
    show "releases_ok \<lparr>machine = s, open_streams = open_streams c |` owned s\<rparr>"
      using o(2) assms(3-5) i(2) unfolding releases_ok_def d by (auto simp: in_order_append)
  qed (auto simp: assms(2,6) d told_to_def map_of_filter_fst split: if_splits)
qed

section \<open>Every reachable state\<close>

lemma clients_ok_init: "dispatcher_start L s \<Longrightarrow> clients_ok (clients_init s)"
  by (simp add: clients_ok_def clients_init_def owners_ok_def releases_ok_def owned_def
      dispatcher_start_fields)

lemma clients_ok_task:
  assumes "clients_ok c" and "s = fst (worker_step L JP JS (machine c))"
  shows "clients_ok \<lparr>machine = s, open_streams = open_streams c |` owned s\<rparr>"
proof (cases "outbox (machine c)")
  case Nil
  then have s: "s = machine c" using assms(2) by (simp add: worker_step_def)
  have "open_streams c |` owned s = open_streams c"
    using clients_ok_alt(2) [OF assms(1)] by (simp add: s owners_ok_def restrict_owned)
  with assms(1) s show ?thesis by (cases c) simp
next
  case (Cons t ts)
  note cb = clients_ok_alt(1) [OF assms(1)]
  note w = worker_step_sinks [OF cb Cons, where L = L and JP = JP and JS = JS, folded assms(2)]
  obtain xs where xs: "outbox s = ts @ map note_of xs" using w(2) by blast
  have o: "in_order (outbox s)"
    using clients_ok_alt(3) [OF assms(1)] by (simp add: releases_ok_def Cons xs in_order_append)
  consider (add) i where "procedure_of t = AddReactor i"
    | (release) i where "procedure_of t = ReleaseReactor i"
    | (tell) "added_by (procedure_of t) = []" "released_by (procedure_of t) = []"
    by (cases "procedure_of t") simp_all
  then show ?thesis
  proof cases
    case add
    from task_adds_ok [OF assms(1) w(1) Cons this xs w(4) [OF this]] show ?thesis .
  next
    case release
    from task_releases_ok(1) [OF assms(1) w(1) Cons this xs w(5) [OF this]] show ?thesis .
  next
    case tell
    then show ?thesis
      by (intro task_tells_ok [OF assms(1) w(1,3)] o) (simp_all add: Cons xs)
  qed
qed

lemma clients_ok_open:
  assumes "clients_ok c" and "open_streams c i = None"
  shows "clients_ok \<lparr>machine = fst (service_events i (machine c)),
    open_streams = (open_streams c)(i \<mapsto> reactor_init)\<rparr>"
proof -
  have i: "i \<notin> owned (machine c)" using assms by (auto simp: clients_ok_def owners_ok_def)
  then have "told_to (machine c) i = []"
    by (simp add: told_to_def owned_def flip: map_of_eq_None_iff)
  moreover have "stream_told [] reactor_init"
    by (simp add: stream_told_def reactor_ok_init) (simp add: reactor_init_def)
  moreover have "\<not> released (reactor_init :: Event reactor)" by (simp add: reactor_init_def)
  ultimately show ?thesis
    using assms i
    by (auto simp: clients_ok_def owners_ok_def releases_ok_def owned_def service_events_def
        addEventsStreamReactor_def executeDiscardResult_def push_def act_def told_to_def in_order_append)
qed

lemma clients_ok_done:
  assumes "clients_ok c" and "open_streams c i = Some r" and "reactor.point r = Finished" "\<not> released r"
  shows "clients_ok \<lparr>machine = fst (releaseEventsStreamReactor i (machine c)),
    open_streams = (open_streams c)(i \<mapsto> EventsReactor.OnDone r)\<rparr>"
proof -
  have "stream_told (told_to (machine c) i) r" by (rule clients_ok_alt(4) [OF assms(1,2)])
  then have "stream_told (told_to (machine c) i) (EventsReactor.OnDone r)"
    using reactor_ok_step [OF reactor_step.finish, of r False] assms(3,4)
    by (simp add: stream_told_def EventsReactor.OnDone_def)
  moreover have "i \<notin> set (releases (outbox (machine c)))"
    using assms by (auto simp: clients_ok_def releases_ok_def)
  moreover have "released (EventsReactor.OnDone r)" by (simp add: EventsReactor.OnDone_def)
  ultimately show ?thesis
    using assms(1,2)
    by (auto simp: clients_ok_def owners_ok_def releases_ok_def owned_def
        releaseEventsStreamReactor_def executeDiscardResult_def push_def act_def told_to_def in_order_append)
qed

lemma clients_ok_step: "clients_step L JP JS c c' \<Longrightarrow> clients_ok c \<Longrightarrow> clients_ok c'"
proof (induction rule: clients_step.induct)
  case (open_stream c i)
  then show ?case by (intro clients_ok_open)
next
  case (request m c)
  from request_pushes [OF request(1,2)] obtain t where t: "m = push t"
    "added_by (procedure_of t) = []" "released_by (procedure_of t) = []" .
  have "in_order (outbox (machine c))" using request(3) by (simp add: clients_ok_def releases_ok_def)
  with t request(3) show ?case
    by (intro clients_ok_machine)
      (simp_all add: push_def act_def clients_ok_alt(1) in_order_append)
next
  case (task c s)
  then show ?case by (intro clients_ok_task)
next
  case (reading c t)
  have a: "announces (machine c) (fst (deliverTemperature L t (machine c)))"
    by (rule movesD, rule announces_operations)
  have "in_order (outbox (machine c))" using reading by (simp add: clients_ok_def releases_ok_def)
  with a reading show ?case
    by (intro clients_ok_machine) (auto simp: announces_def clients_ok_alt(1) in_order_append)
next
  case (world c d)
  then show ?case
    by (intro clients_ok_machine) (simp_all add: clients_ok_def releases_ok_def)
next
  case (serve c i r r')
  then show ?case
    by (intro clients_ok_stream) (assumption | erule served_released | erule (1) served_told)+
next
  case (cancel c i r)
  have "stream_told es r \<Longrightarrow> stream_told es (EventsReactor.OnCancel r)" for es
    using reactor_ok_step [OF reactor_step.cancel, of False r]
    by (simp add: stream_told_def EventsReactor.OnCancel_def)
  with cancel show ?case by (intro clients_ok_stream [of c i r]) (auto simp: EventsReactor.OnCancel_def)
next
  case (done_stream c i r)
  then show ?case by (intro clients_ok_done)
qed

interpretation clients: safety "\<lambda>c. \<exists>s. dispatcher_start L s \<and> c = clients_init s"
    "clients_step L JP JS" clients_ok for L JP JS
  by unfold_locales (auto intro: clients_ok_init clients_ok_step)

text \<open>Without its streams the dispatcher takes steps that it takes alone.\<close>

lemma clients_step_machine:
  "clients_step L JP JS c c' \<Longrightarrow> (dispatcher_step L JP JS)\<^sup>=\<^sup>= (machine c) (machine c')"
proof (induction rule: clients_step.induct)
  case (open_stream c i)
  have "addEventsStreamReactor i \<in> requests" by (simp add: requests_def)
  then show ?case by (auto simp: service_events_def intro: dispatcher_step.request)
next
  case (done_stream c i r)
  have "releaseEventsStreamReactor i \<in> requests" by (simp add: requests_def)
  then show ?case by (auto intro: dispatcher_step.request)
qed (auto intro: dispatcher_step.intros)

lemma clients_steps_machine:
  "(clients_step L JP JS)\<^sup>*\<^sup>* c c' \<Longrightarrow> (dispatcher_step L JP JS)\<^sup>*\<^sup>* (machine c) (machine c')"
  by (induction rule: rtranclp_induct)
    (auto dest!: clients_step_machine intro: rtranclp.rtrancl_into_rtrancl)

lemma clients_reachable:
  assumes "dispatcher_start L s" and "(clients_step L JP JS)\<^sup>*\<^sup>* (clients_init s) c"
  shows "clients_ok c" and "(dispatcher_step L JP JS)\<^sup>*\<^sup>* s (machine c)"
  using clients.reachable_inv [OF _ assms(2)] assms(1) clients_steps_machine [OF assms(2)]
  by (auto simp: clients_init_def)

lemma told_to_registered:
  "i \<in> fst ` set (m_eventsSinks s) \<Longrightarrow> (i, told_to s i) \<in> set (m_eventsSinks s)"
  by (auto simp: told_to_def split: option.split dest: map_of_SomeD)
    (metis fst_conv image_eqI map_of_eq_None_iff)

section \<open>What a client reads\<close>

text \<open>
  C10: what the client of an event stream reads, whatever requests, readings and other clients
  there are and in whatever order the threads take their steps. It reads a beginning of what
  the dispatcher has told the stream, in order, without gap or repetition; an event whose
  write is under way is the next one. And what the dispatcher has told a registered stream
  ends with the power and steam mode that the machine is in, and once no notification is
  waiting in the queue with its heating status: a client that has read all of it knows the
  state of the machine.
\<close>

theorem client_reads_state:
  assumes "dispatcher_start L s" and "(clients_step L JP JS)\<^sup>*\<^sup>* (clients_init s) c"
    and "open_streams c i = Some r"
  shows "prefix (written r) (told_to (machine c) i) \<and>
    (reactor.point r = Writing \<longrightarrow> prefix (written r @ [hd (batch r)]) (told_to (machine c) i)) \<and>
    (i \<in> fst ` set (m_eventsSinks (machine c)) \<longrightarrow>
       seen of_power (told_to (machine c) i) = Some (getPowerState (machine c)) \<and>
       seen of_steam (told_to (machine c) i) = Some (getSteamModeState (machine c)) \<and>
       seen of_heater (told_to (machine c) i @ pending (outbox (machine c))) =
         Some (heatingStatus (machine c)))"
proof -
  have "stream_told (told_to (machine c) i) r"
    using clients_ok_alt(4) [OF clients_reachable(1) [OF assms(1,2)] assms(3)] .
  then have p: "prefix (pushed r) (told_to (machine c) i)" and r: "reactor_ok False r"
    by (simp_all add: stream_told_def)
  have w: "pushed r = written r @ batch r @ m_eventsQueue r"
    "reactor.point r = Writing \<Longrightarrow> batch r = hd (batch r) # tl (batch r)"
    using r by (simp_all add: reactor_ok_def)
  then have "prefix (written r) (pushed r)"
    "reactor.point r = Writing \<Longrightarrow> prefix (written r @ [hd (batch r)]) (pushed r)"
    by (simp, metis append.assoc append_Cons append_Nil prefixI)
  then show ?thesis
    using p prefix_order.trans streams_show_state [OF assms(1) clients_reachable(2) [OF assms(1,2)]]
      told_to_registered [of i "machine c"] by blast
qed

section \<open>What is told is read\<close>

definition serving_rank :: "'e list \<Rightarrow> 'e reactor \<Rightarrow> nat" where
  "serving_rank es r = 9 * (length es - length (pushed r)) + flushing_rank r"

text \<open>A client may cancel meanwhile.\<close>

definition cancel_call :: "'e reactor \<Rightarrow> 'e reactor \<Rightarrow> bool" where
  "cancel_call r r' \<longleftrightarrow> \<not> released r \<and> r' = EventsReactor.OnCancel r"

definition count_exceeded :: "'e reactor \<Rightarrow> bool" where
  "count_exceeded r \<longleftrightarrow> 2 ^ 64 \<le> length (m_eventsQueue r) + cancels r"

lemma serving_rank_less:
  assumes "stream_told es r" and "served_step es r r'"
  shows "serving_rank es r' < serving_rank es r"
  using assms(2)
proof (cases rule: served_step.cases)
  case push_next
  then show ?thesis
    by (cases "reactor.point r") (simp_all add: serving_rank_def flushing_rank_def push_event_def)
next
  case count_pushed
  then show ?thesis
    by (cases "reactor.point r") (simp_all add: serving_rank_def flushing_rank_def count_event_def)
next
  case (complete ok)
  then have "closing_step True r r'" by (auto intro: closing_step.written)
  moreover have "pushed r' = pushed r" using complete by (simp add: EventsReactor.OnWriteDone_def)
  ultimately show ?thesis
    using flushing_rank_less assms(1) by (auto simp: serving_rank_def stream_told_def)
next
  case thread
  then show ?thesis
    using flushing_rank_less [OF _ closing_step.worked [OF thread]] assms(1) worker_keeps(2) [OF thread]
    by (simp add: serving_rank_def stream_told_def)
qed

lemma served_not_stuck:
  assumes "stream_told es r" and "\<not> count_exceeded r"
    and "\<not> (reactor.point r = Finished \<or> written r = es)"
  shows "\<exists>r'. served_step es r r'"
proof (rule ccontr)
  assume n: "\<nexists>r'. served_step es r r'"
  have u: "uncounted r = 0" using n by (auto intro: served_step.count_pushed)
  then have "\<not> length (pushed r) < length es" using n by (auto intro: served_step.push_next)
  then have p: "pushed r = es" using assms(1) by (auto simp: stream_told_def prefix_def)
  have w: "EventsReactor.worker r = None" "\<not> (reactor.point r = Writing \<and> reactor.m_writeStatus r = InProgress)"
    using n served_step.thread [of r _ es] served_step.complete [of r es] by (fastforce, blast)
  then have z: "reactor.point r = Waiting" "m_queueSize r = 0"
    using assms(3) by (auto simp: EventsReactor.worker_def split: stream_point.splits if_splits)
  have ok: "reactor_ok False r" using assms(1) by (simp add: stream_told_def)
  then have "of_nat (length (m_eventsQueue r) + cancels r) = (0 :: 64 word)"
    using z u by (simp add: reactor_ok_def)
  then have "2 ^ 64 dvd length (m_eventsQueue r) + cancels r"
    by (simp add: word_of_nat_eq_0_iff del: of_nat_add)
  moreover have "length (m_eventsQueue r) + cancels r < 2 ^ 64"
    using assms(2) by (simp add: count_exceeded_def)
  ultimately have "length (m_eventsQueue r) + cancels r = 0"
    using nat_dvd_not_less by blast
  then have "written r = es" using ok z(1) p by (auto simp: reactor_ok_def)
  with assms(3) show False by simp
qed

interpretation served: stoppable "served_step es" cancel_call "stream_told es" "serving_rank es"
  count_exceeded "\<lambda>r. reactor.point r = Finished \<or> written r = es" for es
proof unfold_locales
  fix r r' :: "'a reactor"
  assume "stream_told es r" and "cancel_call r r'"
  then show "stream_told es r'"
    using reactor_ok_step [OF reactor_step.cancel, of False r]
    by (simp add: stream_told_def cancel_call_def EventsReactor.OnCancel_def)
  show "serving_rank es r' \<le> serving_rank es r"
    using \<open>cancel_call r r'\<close>
    by (cases "reactor.point r")
      (simp_all add: cancel_call_def serving_rank_def flushing_rank_def EventsReactor.OnCancel_def)
qed (auto intro: served_told serving_rank_less dest: served_not_stuck)

lemma serving_rank_bound:
  assumes "stream_told es r"
  shows "serving_rank es r \<le> 9 * (length es - length (written r)) + 8"
proof -
  have "pushed r = written r @ batch r @ m_eventsQueue r" "uncounted r \<le> 1" "prefix (pushed r) es"
    using assms by (auto simp: stream_told_def reactor_ok_def)
  then have "length (pushed r) = length (written r) + length (batch r) + length (m_eventsQueue r)"
    "uncounted r \<le> 1" "length (pushed r) \<le> length es"
    using prefix_length_le [of "pushed r" es] by simp_all
  moreover from this(3) obtain k where "length es = length (pushed r) + k" using le_Suc_ex by blast
  ultimately show ?thesis
    by (cases "reactor.point r") (auto simp: serving_rank_def flushing_rank_def)
qed

text \<open>Serving one stream is a run of the whole.\<close>

lemma served_run:
  assumes "counted_run (served_step (told_to (machine c) i)) cancel_call n r r'"
    and "open_streams c i = Some r"
  shows "(clients_step L JP JS)\<^sup>*\<^sup>* c (c\<lparr>open_streams := (open_streams c)(i \<mapsto> r')\<rparr>)"
  using assms
proof (induction rule: counted_run.induct)
  case (start r)
  then have e: "c\<lparr>open_streams := (open_streams c)(i \<mapsto> r)\<rparr> = c"
    by (cases c) (simp add: fun_upd_idem)
  show ?case unfolding e by (rule rtranclp.rtrancl_refl)
next
  case (own n r t u)
  let ?c = "c\<lparr>open_streams := (open_streams c)(i \<mapsto> t)\<rparr>"
  have "clients_step L JP JS ?c (c\<lparr>open_streams := (open_streams c)(i \<mapsto> u)\<rparr>)"
    using own.hyps(2) clients_step.serve [of ?c i t u] by simp
  with own.IH [OF own.prems] show ?case by (rule rtranclp.rtrancl_into_rtrancl)
next
  case (other n r t u)
  let ?c = "c\<lparr>open_streams := (open_streams c)(i \<mapsto> t)\<rparr>"
  have "clients_step L JP JS ?c (c\<lparr>open_streams := (open_streams c)(i \<mapsto> u)\<rparr>)"
    using other.hyps(2) clients_step.cancel [of ?c i t] by (simp add: cancel_call_def)
  with other.IH [OF other.prems] show ?case by (rule rtranclp.rtrancl_into_rtrancl)
qed

text \<open>
  C23: what a client is told it gets to read. From every reachable state, when the worker of the
  dispatcher, the thread of a registered stream and gRPC are left to serve the stream, they
  need at most nine steps for each event that the client has not read and eight more, also
  when the client cancels meanwhile; and when there is no step left, the client has read
  everything it was told, so that it knows the power switch of the machine, or the stream
  has ended. (Ended it may have after a cancellation, a failed write or the early end that
  \<open>stream_end_reasons\<close> describes. More than \<open>2 ^ 64\<close> events and cancellations are left aside.)
\<close>

theorem client_catches_up:
  assumes "dispatcher_start L s" and "(clients_step L JP JS)\<^sup>*\<^sup>* (clients_init s) c"
    and "open_streams c i = Some r" and "i \<in> fst ` set (m_eventsSinks (machine c))"
    and "counted_run (served_step (told_to (machine c) i)) cancel_call n r r'"
  shows "n \<le> 9 * (length (told_to (machine c) i) - length (written r)) + 8 \<and>
    (clients_step L JP JS)\<^sup>*\<^sup>* c (c\<lparr>open_streams := (open_streams c)(i \<mapsto> r')\<rparr>) \<and>
    ((\<nexists>u. served_step (told_to (machine c) i) r' u) \<longrightarrow>
       written r' = told_to (machine c) i \<and> seen of_power (written r') = Some (getPowerState (machine c)) \<or>
       reactor.point r' = Finished \<or> count_exceeded r')"
proof -
  have "stream_told (told_to (machine c) i) r"
    using clients_ok_alt(4) [OF clients_reachable(1) [OF assms(1,2)] assms(3)] .
  note e = served.run_ends [OF assms(5) this] serving_rank_bound [OF this]
  have "seen of_power (told_to (machine c) i) = Some (getPowerState (machine c))"
    using streams_show_state [OF assms(1) clients_reachable(2) [OF assms(1,2)]]
      told_to_registered [OF assms(4)] by blast
  with e show ?thesis using served_run [OF assms(5,3)] by auto
qed

section \<open>The end of a stream\<close>

lemma owned_after_task:
  assumes "clients_ok c" and "s = fst (worker_step L JP JS (machine c))"
  shows "owned (machine c) \<subseteq> owned s \<union> set (releases (outbox (machine c)))"
proof (cases "outbox (machine c)")
  case Nil
  then show ?thesis using assms(2) by (simp add: worker_step_def)
next
  case (Cons t ts)
  note w = worker_step_sinks [OF clients_ok_alt(1) [OF assms(1)] Cons,
      where L = L and JP = JP and JS = JS, folded assms(2)]
  have a: "adds (outbox s) = adds ts" using w(2) by auto
  consider (add) i where "procedure_of t = AddReactor i"
    | (release) i where "procedure_of t = ReleaseReactor i"
    | (tell) "added_by (procedure_of t) = []" "released_by (procedure_of t) = []"
    by (cases "procedure_of t") simp_all
  then show ?thesis
  proof cases
    case add
    from w(4) [OF this] this show ?thesis by (auto simp: owned_def Cons a)
  next
    case release
    from w(5) [OF this] this show ?thesis by (auto simp: owned_def Cons a)
  next
    case tell
    from w(3) [OF this] obtain es where
      "m_eventsSinks s = map (\<lambda>(i, q). (i, q @ es)) (m_eventsSinks (machine c))" by (auto simp: tells_def)
    with tell show ?thesis by (force simp: owned_def Cons a)
  qed
qed

lemma stream_gone:
  assumes "clients_step L JP JS c c'" and "clients_ok c"
    and "open_streams c i = Some r" and "open_streams c' i = None"
  shows "i \<in> set (releases (outbox (machine c)))"
  using assms(1)
proof cases
  case (task s)
  have "i \<in> owned (machine c)" using assms(2,3) by (auto simp: clients_ok_def owners_ok_def)
  moreover have "i \<notin> owned s" using assms(3,4) task by (auto simp: restrict_map_def split: if_splits)
  ultimately show ?thesis using owned_after_task [OF assms(2) task(3)] by auto
qed (use assms(3,4) in \<open>auto split: if_splits\<close>)

text \<open>
  C12: no stream is destroyed too early and none is forgotten. A step destroys only streams
  whose thread has left its loop and whose end gRPC has reported; every sink that the
  dispatcher pushes events to exists; and the streams whose end was reported and that still
  exist are exactly those whose release waits in the queue, each once.
\<close>

theorem streams_destroyed_when_done:
  assumes "dispatcher_start L s" and "(clients_step L JP JS)\<^sup>*\<^sup>* (clients_init s) c"
    and "clients_step L JP JS c c'"
  shows "(\<forall>i r. open_streams c i = Some r \<and> open_streams c' i = None \<longrightarrow>
        released r \<and> reactor.point r = Finished) \<and>
    (\<forall>i \<in> fst ` set (m_eventsSinks (machine c')). open_streams c' i \<noteq> None) \<and>
    distinct (releases (outbox (machine c'))) \<and>
    set (releases (outbox (machine c'))) = {i. \<exists>r. open_streams c' i = Some r \<and> released r}"
proof -
  have c: "clients_ok c" "clients_ok c'"
    using clients_reachable(1) [OF assms(1,2)] clients_ok_step [OF assms(3)] by blast+
  have "released r \<and> reactor.point r = Finished" if "open_streams c i = Some r" "open_streams c' i = None" for i r
  proof -
    have "released r"
      using stream_gone [OF assms(3) c(1) that] that(1) clients_ok_alt(3) [OF c(1)] by (auto simp: releases_ok_def)
    moreover have "reactor_ok False r" using clients_ok_alt(4) [OF c(1) that(1)] by (simp add: stream_told_def)
    ultimately show ?thesis by (simp add: reactor_ok_def)
  qed
  moreover have "fst ` set (m_eventsSinks (machine c')) \<subseteq> dom (open_streams c')"
    using clients_ok_alt(2) [OF c(2)] by (simp add: owners_ok_def owned_def)
  moreover have "distinct (releases (outbox (machine c')))"
    "set (releases (outbox (machine c'))) = {i. \<exists>r. open_streams c' i = Some r \<and> released r}"
    using clients_ok_alt(3) [OF c(2)] unfolding releases_ok_def by blast+
  ultimately show ?thesis unfolding dom_def by blast
qed

section \<open>A client that reads\<close>

text \<open>A stream is opened and added, and its first event is pushed, counted and written.\<close>

abbreviation sample_clients_step :: "sim clients \<Rightarrow> sim clients \<Rightarrow> bool" where
  "sample_clients_step \<equiv> clients_step sim_lib (one_json (makeDefaultProfile 95000 9000))
     (one_json (makeDefaultSettings 155000))"

definition sample_opened :: "sim clients" where
  "sample_opened = \<lparr>machine = fst (service_events 7 sample_dispatcher), open_streams = [7 \<mapsto> reactor_init]\<rparr>"

definition sample_added :: "sim clients" where
  "sample_added = \<lparr>machine = sample_work (machine sample_opened), open_streams = [7 \<mapsto> reactor_init]\<rparr>"

lemma sample_added_sinks:
  "\<exists>es. m_eventsSinks (machine sample_added) = [(7, PowerEvent False # es)]"
  "getPowerState (machine sample_added) = False" "outbox (machine sample_added) = []"
  by (simp_all add: sample_added_def sample_opened_def service_events_def addEventsStreamReactor_def
      executeDiscardResult_def push_def worker_step_def run_task.simps packaged_def finish_def
      addReactor_def prog_defs sendInitialState_def getPowerState_def sample_dispatcher_def
      sample_manager_def state_manager.defs)

lemma sample_clients_steps:
  "sample_clients_step (clients_init sample_dispatcher) sample_opened"
  "sample_clients_step sample_opened sample_added"
proof -
  show "sample_clients_step (clients_init sample_dispatcher) sample_opened"
    using clients_step.open_stream [of "clients_init sample_dispatcher" 7]
    by (simp add: clients_init_def sample_opened_def)
  have "m_eventsSinks (machine sample_opened) = []"
    by (simp add: sample_opened_def service_events_def addEventsStreamReactor_def
        executeDiscardResult_def push_def act_def sample_dispatcher_def state_manager.defs)
  then have "all_pushed sample_opened" by (simp add: all_pushed_def)
  moreover have "7 \<in> owned (machine sample_added)"
    using sample_added_sinks(1) by (auto simp: owned_def)
  then have "open_streams sample_opened |` owned (machine sample_added) = [7 \<mapsto> reactor_init]"
    by (simp add: sample_opened_def restrict_map_def fun_eq_iff)
  moreover have "machine sample_added = sample_work (machine sample_opened)"
    by (simp add: sample_added_def)
  ultimately show "sample_clients_step sample_opened sample_added"
    using clients_step.task [of sample_opened "machine sample_added" sim_lib] sample_added_def by metis
qed

definition read_one :: "Event reactor" where
  "read_one = reactor_init\<lparr>pushed := [PowerEvent False], written := [PowerEvent False]\<rparr>"

lemma read_one_run:
  assumes "es = PowerEvent False # fs"
  shows "counted_run (served_step es) other 8 reactor_init read_one"
proof -
  let ?r0 = "reactor_init :: Event reactor"
  let ?r1 = "push_event (es ! length (pushed ?r0)) ?r0" let ?r2 = "count_event ?r1"
  let ?r3 = "?r2\<lparr>reactor.point := Woken\<rparr>" let ?r4 = "take_events ?r3" let ?r5 = "subtract_batch ?r4"
  let ?r6 = "start_write ?r5" let ?r7 = "EventsReactor.OnWriteDone True ?r6" let ?r8 = "end_write ?r7"
  note d = assms reactor_init_def push_event_def count_event_def EventsReactor.worker_def stream_step_defs
  have s1: "served_step es ?r0 ?r1" by (rule served_step.push_next) (simp_all add: d)
  have s2: "served_step es ?r1 ?r2" by (rule served_step.count_pushed) (simp add: d)
  have s3: "served_step es ?r2 ?r3" "served_step es ?r3 ?r4" "served_step es ?r4 ?r5" "served_step es ?r5 ?r6"
    by (rule served_step.thread, simp add: d)+
  have s4: "served_step es ?r6 ?r7" by (rule served_step.complete) (simp_all add: d)
  have s5: "served_step es ?r7 ?r8" by (rule served_step.thread) (simp add: d)
  have "counted_run (served_step es) other (Suc (Suc (Suc (Suc (Suc (Suc (Suc (Suc 0)))))))) ?r0 ?r8"
    by (rule counted_run.own)+ (rule counted_run.start s1 s2 s3 s4 s5)+
  moreover have "?r8 = read_one" by (simp add: read_one_def d)
  ultimately show ?thesis by (simp add: numeral_eq_Suc)
qed

lemma sample_added_reached: "sample_clients_step\<^sup>*\<^sup>* (clients_init sample_dispatcher) sample_added"
  using sample_clients_steps by (meson converse_rtranclp_into_rtranclp rtranclp.rtrancl_refl)

lemma sample_added_fields:
  "open_streams sample_added 7 = Some reactor_init" "7 \<in> fst ` set (m_eventsSinks (machine sample_added))"
  using sample_added_sinks(1) by (auto simp: sample_added_def)

lemma sample_read_run:
  "counted_run (served_step (told_to (machine sample_added) 7)) cancel_call 8 reactor_init read_one"
proof -
  obtain es where "m_eventsSinks (machine sample_added) = [(7, PowerEvent False # es)]"
    using sample_added_sinks(1) by blast
  then have "told_to (machine sample_added) 7 = PowerEvent False # es" by (simp add: told_to_def)
  then show ?thesis by (rule read_one_run)
qed

theorem client_catches_up_witness:
  "sample_clients_step\<^sup>*\<^sup>* sample_added
     (sample_added\<lparr>open_streams := (open_streams sample_added)(7 \<mapsto> read_one)\<rparr>)"
  using client_catches_up [OF sample_dispatcher_start sample_added_reached sample_added_fields
      sample_read_run] by blast

theorem client_reads_state_witness:
  "prefix [PowerEvent False] (told_to (machine sample_added) 7) \<and>
   seen of_power (told_to (machine sample_added) 7) = Some False"
proof -
  let ?c = "sample_added\<lparr>open_streams := (open_streams sample_added)(7 \<mapsto> read_one)\<rparr>"
  have r: "sample_clients_step\<^sup>*\<^sup>* (clients_init sample_dispatcher) ?c"
    using sample_added_reached served_run [OF sample_read_run sample_added_fields(1)] by (rule rtranclp_trans)
  show ?thesis
    using client_reads_state [OF sample_dispatcher_start r, of 7 read_one] sample_added_fields(2)
      sample_added_sinks(2) by (simp add: read_one_def)
qed

theorem streams_destroyed_when_done_witness:
  "open_streams sample_added 7 \<noteq> None \<and> set (releases (outbox (machine sample_added))) = {} \<and>
   \<not> (\<exists>r. open_streams sample_added 7 = Some r \<and> released r)"
  using streams_destroyed_when_done [OF sample_dispatcher_start
      r_into_rtranclp [of sample_clients_step, OF sample_clients_steps(1)] sample_clients_steps(2)]
    sample_added_fields(2) sample_added_sinks(3) by auto

end
