(* ===== verification/ConfigTypes.thy ===== *)
theory ConfigTypes
  imports ConfigMaker
begin

text \<open>
  \<^verbatim>\<open>config/openpressod_config.hpp\<close>: the getters of the configuration with the types they are
  declared to return, and what every one of them does with a file: the value it returns is
  of its type, and it returns one unless a key that it needs is missing or the value is one
  it refuses.
\<close>

section \<open>The getters and their types\<close>

datatype cpp_type =
    Cpp_Path | Cpp_Size | Cpp_DevAddr | Cpp_Pin | Cpp_Bool | Cpp_String | Cpp_Level | Cpp_TimeDelta
  | Cpp_Millidegrees | Cpp_PinPull | Cpp_I2cAddr | Cpp_Uint32 | Cpp_Float
  | Cpp_Micrograms | Cpp_Millibars | Cpp_Pid | Cpp_Flow

datatype cpp_value = Text string | Flag bool | Num int | Real32 float32 | PidValue pid_settings

text \<open>Name, declared type and result of every getter, in the order of the class.\<close>

definition getters :: "'c toml \<Rightarrow> 'c \<Rightarrow> (string \<times> cpp_type \<times> (exn + cpp_value)) list" where
  "getters T c =
     [(''brewProfilePath'', Cpp_Path, map_sum id Text (brewProfilePath T c)),
      (''userSettingsPath'', Cpp_Path, map_sum id Text (userSettingsPath T c)),
      (''mainsFrequency'', Cpp_Size, map_sum id Num (mainsFrequency T c)),
      (''i2cBus'', Cpp_DevAddr, map_sum id Text (i2cBus T c)),
      (''gpioChip'', Cpp_DevAddr, map_sum id Text (gpioChip T c)),
      (''mainsZeroCrossPin'', Cpp_Pin, map_sum id Num (mainsZeroCrossPin T c)),
      (''pidStateMonitoringEnabled'', Cpp_Bool, map_sum id Flag (pidStateMonitoringEnabled T c)),
      (''socketPath'', Cpp_Path, map_sum id Text (socketPath T c)),
      (''tcpEnable'', Cpp_Bool, map_sum id Flag (tcpEnable T c)),
      (''tcpBindAddress'', Cpp_String, map_sum id Text (tcpBindAddress T c)),
      (''logMessagePattern'', Cpp_String, map_sum id Text (logMessagePattern T c)),
      (''logLevel'', Cpp_Level, map_sum id Text (logLevel T c)),
      (''watchdogEnabled'', Cpp_Bool, map_sum id Flag (watchdogEnabled T c)),
      (''watchdogDevice'', Cpp_DevAddr, map_sum id Text (watchdogDevice T c)),
      (''watchdogTimeout'', Cpp_TimeDelta, map_sum id Num (watchdogTimeout T c)),
      (''watchdogTemperatureLimit'', Cpp_Millidegrees,
       map_sum id Num (watchdogTemperatureLimit T c)),
      (''buttonsLogicInverted'', Cpp_Bool, map_sum id Flag (buttonsLogicInverted T c)),
      (''powerButtonBistable'', Cpp_Bool, map_sum id Flag (powerButtonBistable T c)),
      (''brewButtonBistable'', Cpp_Bool, map_sum id Flag (brewButtonBistable T c)),
      (''steamButtonBistable'', Cpp_Bool, map_sum id Flag (steamButtonBistable T c)),
      (''buttonsPullMode'', Cpp_PinPull, map_sum id Text (buttonsPullMode T c)),
      (''buttonsDebouncePeriod'', Cpp_TimeDelta, map_sum id Num (buttonsDebouncePeriod T c)),
      (''powerButtonSignalPin'', Cpp_Pin, map_sum id Num (powerButtonSignalPin T c)),
      (''brewButtonSignalPin'', Cpp_Pin, map_sum id Num (brewButtonSignalPin T c)),
      (''steamButtonSignalPin'', Cpp_Pin, map_sum id Num (steamButtonSignalPin T c)),
      (''ledsLogicInverted'', Cpp_Bool, map_sum id Flag (ledsLogicInverted T c)),
      (''powerLedOutputPin'', Cpp_Pin, map_sum id Num (powerLedOutputPin T c)),
      (''brewLedOutputPin'', Cpp_Pin, map_sum id Num (brewLedOutputPin T c)),
      (''steamLedOutputPin'', Cpp_Pin, map_sum id Num (steamLedOutputPin T c)),
      (''pressureSensorSignalPin'', Cpp_Pin, map_sum id Num (pressureSensorSignalPin T c)),
      (''pressureSensorI2cAddr'', Cpp_I2cAddr, map_sum id Num (pressureSensorI2cAddr T c)),
      (''weightSensorScale'', Cpp_Uint32, map_sum id Num (weightSensorScale T c)),
      (''weightSensorFilterTiming'', Cpp_TimeDelta,
       map_sum id Num (weightSensorFilterTiming T c)),
      (''weightSensorSignalPin'', Cpp_Pin, map_sum id Num (weightSensorSignalPin T c)),
      (''weightSensorI2cAddr'', Cpp_I2cAddr, map_sum id Num (weightSensorI2cAddr T c)),
      (''temperatureSensorFilterTiming'', Cpp_TimeDelta,
       map_sum id Num (temperatureSensorFilterTiming T c)),
      (''temperatureSensorSpiAddr'', Cpp_DevAddr, map_sum id Text (temperatureSensorSpiAddr T c)),
      (''temperatureSensorSignalPin'', Cpp_Pin, map_sum id Num (temperatureSensorSignalPin T c)),
      (''flowControllerMultiplier'', Cpp_Float, map_sum id Real32 (flowControllerMultiplier T c)),
      (''pumpOutputPin'', Cpp_Pin, map_sum id Num (pumpOutputPin T c)),
      (''pumpVolumePerPulse'', Cpp_Micrograms, map_sum id Num (pumpVolumePerPulse T c)),
      (''pumpStallPressure'', Cpp_Millibars, map_sum id Num (pumpStallPressure T c)),
      (''valveOutputPin'', Cpp_Pin, map_sum id Num (valveOutputPin T c)),
      (''heaterOutputPin'', Cpp_Pin, map_sum id Num (heaterOutputPin T c)),
      (''heaterReadyHysteresisPeriod'', Cpp_TimeDelta,
       map_sum id Num (heaterReadyHysteresisPeriod T c)),
      (''brewTemperature'', Cpp_Millidegrees, map_sum id Num (brewTemperature T c)),
      (''brewPressure'', Cpp_Millibars, map_sum id Num (brewPressure T c)),
      (''brewTemperatureWindow'', Cpp_Millidegrees, map_sum id Num (brewTemperatureWindow T c)),
      (''brewTemperatureControllerPidSettings'', Cpp_Pid,
       map_sum id PidValue (brewTemperatureControllerPidSettings T c)),
      (''steamPressureThreshold'', Cpp_Millibars, map_sum id Num (steamPressureThreshold T c)),
      (''steamTemperature'', Cpp_Millidegrees, map_sum id Num (steamTemperature T c)),
      (''steamRefillFlow'', Cpp_Flow, map_sum id Num (steamRefillFlow T c)),
      (''steamTemperatureWindow'', Cpp_Millidegrees, map_sum id Num (steamTemperatureWindow T c)),
      (''steamPreheatTemperatureControllerPidSettings'', Cpp_Pid,
       map_sum id PidValue (steamPreheatTemperatureControllerPidSettings T c)),
      (''steamActiveTemperatureControllerPidSettings'', Cpp_Pid,
       map_sum id PidValue (steamActiveTemperatureControllerPidSettings T c))]"

text \<open>What a getter may return for its type: the width of an unsigned type, a known name.\<close>

definition has_type :: "'c toml \<Rightarrow> cpp_type \<Rightarrow> cpp_value \<Rightarrow> bool" where
  "has_type T ty v =
     (case v of
        Text x \<Rightarrow> ty \<in> {Cpp_Path, Cpp_DevAddr, Cpp_String} \<or>
          ty = Cpp_Level \<and> x \<in> level_names T \<or> ty = Cpp_PinPull \<and> x \<in> pull_names T
      | Flag _ \<Rightarrow> ty = Cpp_Bool
      | Num n \<Rightarrow> ty \<in> {Cpp_Pin, Cpp_TimeDelta, Cpp_Millidegrees, Cpp_I2cAddr, Cpp_Micrograms,
          Cpp_Millibars, Cpp_Flow} \<or>
          ty = Cpp_Size \<and> 0 \<le> n \<and> n < 2 ^ 64 \<or> ty = Cpp_Uint32 \<and> 0 \<le> n \<and> n < 2 ^ 32
      | Real32 _ \<Rightarrow> ty = Cpp_Float
      | PidValue _ \<Rightarrow> ty = Cpp_Pid)"

section \<open>What the getters promise\<close>

text \<open>
  The keys without which a getter throws, those that it reads with a default, whether it
  accepts what it finds, and what it throws if not.
\<close>

record getter_spec =
  spec_needs :: "(string list \<times> toml_type) list"
  spec_reads :: "(string list \<times> toml_type) list"
  spec_accepts :: bool
  spec_refuses :: exn

definition spec_checked :: "string list \<Rightarrow> toml_type \<Rightarrow> bool \<Rightarrow> exn \<Rightarrow> getter_spec" where
  "spec_checked p ty a e =
     \<lparr>spec_needs = [], spec_reads = [(p, ty)], spec_accepts = a, spec_refuses = e\<rparr>"

definition spec_default :: "string list \<Rightarrow> toml_type \<Rightarrow> getter_spec" where
  "spec_default p ty = spec_checked p ty True BadOptionalAccess"

definition spec_needed :: "string list \<Rightarrow> toml_type \<Rightarrow> getter_spec" where
  "spec_needed p ty =
     \<lparr>spec_needs = [(p, ty)], spec_reads = [], spec_accepts = True, spec_refuses = BadOptionalAccess\<rparr>"

definition spec_pid :: "string list \<Rightarrow> string list \<Rightarrow> getter_spec" where
  "spec_pid p ks =
     \<lparr>spec_needs = map (\<lambda>k. (p @ [k], FloatType)) ks,
      spec_reads = [([''temperature_sensor'', ''filter_timing''], TimeType)],
      spec_accepts = True, spec_refuses = BadOptionalAccess\<rparr>"

text \<open>An enumerator must be known, and the hysteresis period must not be negative.\<close>

definition level_known :: "'c toml \<Rightarrow> 'c \<Rightarrow> bool" where
  "level_known T c =
     (case entry T c [''log'', ''console_log_level''] of
        Some (TString x) \<Rightarrow> x \<in> level_names T
      | _ \<Rightarrow> DEFAULT_CONSOLE_LOG_LEVEL \<in> level_names T)"

definition pull_known :: "'c toml \<Rightarrow> 'c \<Rightarrow> bool" where
  "pull_known T c =
     (case entry T c [''buttons'', ''pull_mode''] of
        Some (TString x) \<Rightarrow> x \<in> pull_names T
      | _ \<Rightarrow> DEFAULT_BUTTONS_PULL_MODE \<in> pull_names T)"

definition period_accepted :: "'c toml \<Rightarrow> 'c \<Rightarrow> bool" where
  "period_accepted T c =
     (case entry T c [''heater'', ''ready_hysteresis_period''] of
        Some (TTime ns) \<Rightarrow> 0 \<le> cdiv (ns * ticks T) 1000000000
      | _ \<Rightarrow> True)"

definition negative_period :: exn where
  "negative_period = InvalidArgument ''Heater ready hysteresis period cannot be negative''"

definition getter_specs :: "'c toml \<Rightarrow> 'c \<Rightarrow> (string \<times> getter_spec) list" where
  "getter_specs T c =
     [(''brewProfilePath'', spec_default [''global'', ''brew_profile_path''] StringType),
      (''userSettingsPath'', spec_default [''global'', ''user_settings_path''] StringType),
      (''mainsFrequency'', spec_needed [''global'', ''mains_frequency''] IntType),
      (''i2cBus'', spec_default [''global'', ''i2c_bus''] StringType),
      (''gpioChip'', spec_default [''global'', ''gpio_chip''] StringType),
      (''mainsZeroCrossPin'', spec_needed [''global'', ''mains_zc_pin''] IntType),
      (''pidStateMonitoringEnabled'',
        spec_default [''global'', ''pid_state_monitoring_enabled''] BoolType),
      (''socketPath'', spec_default [''service'', ''socket_path''] StringType),
      (''tcpEnable'', spec_default [''service'', ''tcp_enable''] BoolType),
      (''tcpBindAddress'', spec_default [''service'', ''tcp_bind_address''] StringType),
      (''logMessagePattern'', spec_default [''log'', ''console_log_pattern''] StringType),
      (''logLevel'',
        spec_checked [''log'', ''console_log_level''] StringType
          (level_known T c) BadOptionalAccess),
      (''watchdogEnabled'', spec_default [''watchdog'', ''enabled''] BoolType),
      (''watchdogDevice'', spec_default [''watchdog'', ''device_path''] StringType),
      (''watchdogTimeout'', spec_default [''watchdog'', ''timeout''] TimeType),
      (''watchdogTemperatureLimit'', spec_default [''watchdog'', ''temperature_limit''] IntType),
      (''buttonsLogicInverted'', spec_default [''buttons'', ''inverted''] BoolType),
      (''powerButtonBistable'', spec_default [''buttons'', ''power_bistable''] BoolType),
      (''brewButtonBistable'', spec_default [''buttons'', ''brew_bistable''] BoolType),
      (''steamButtonBistable'', spec_default [''buttons'', ''steam_bistable''] BoolType),
      (''buttonsPullMode'',
        spec_checked [''buttons'', ''pull_mode''] StringType
          (pull_known T c) BadOptionalAccess),
      (''buttonsDebouncePeriod'', spec_default [''buttons'', ''debounce_period''] TimeType),
      (''powerButtonSignalPin'', spec_needed [''buttons'', ''power_pin''] IntType),
      (''brewButtonSignalPin'', spec_needed [''buttons'', ''brew_pin''] IntType),
      (''steamButtonSignalPin'', spec_needed [''buttons'', ''steam_pin''] IntType),
      (''ledsLogicInverted'', spec_default [''leds'', ''inverted''] BoolType),
      (''powerLedOutputPin'', spec_needed [''leds'', ''power_pin''] IntType),
      (''brewLedOutputPin'', spec_needed [''leds'', ''brew_pin''] IntType),
      (''steamLedOutputPin'', spec_needed [''leds'', ''steam_pin''] IntType),
      (''pressureSensorSignalPin'', spec_needed [''pressure_sensor'', ''signal_pin''] IntType),
      (''pressureSensorI2cAddr'', spec_default [''pressure_sensor'', ''i2c_addr''] IntType),
      (''weightSensorScale'', spec_needed [''weight_sensor'', ''scale''] IntType),
      (''weightSensorFilterTiming'',
        spec_default [''weight_sensor'', ''filter_timing''] TimeType),
      (''weightSensorSignalPin'', spec_needed [''weight_sensor'', ''signal_pin''] IntType),
      (''weightSensorI2cAddr'', spec_default [''weight_sensor'', ''i2c_addr''] IntType),
      (''temperatureSensorFilterTiming'',
        spec_default [''temperature_sensor'', ''filter_timing''] TimeType),
      (''temperatureSensorSpiAddr'',
        spec_default [''temperature_sensor'', ''spi_addr''] StringType),
      (''temperatureSensorSignalPin'',
        spec_needed [''temperature_sensor'', ''signal_pin''] IntType),
      (''flowControllerMultiplier'',
        spec_needed [''pump'', ''flow_controller_multiplier''] FloatType),
      (''pumpOutputPin'', spec_needed [''pump'', ''control_pin''] IntType),
      (''pumpVolumePerPulse'', spec_needed [''pump'', ''volume_per_pulse''] IntType),
      (''pumpStallPressure'', spec_needed [''pump'', ''stall_pressure''] IntType),
      (''valveOutputPin'', spec_needed [''valve'', ''control_pin''] IntType),
      (''heaterOutputPin'', spec_needed [''heater'', ''control_pin''] IntType),
      (''heaterReadyHysteresisPeriod'',
        spec_checked [''heater'', ''ready_hysteresis_period''] TimeType
          (period_accepted T c) negative_period),
      (''brewTemperature'', spec_default [''brew'', ''temperature''] IntType),
      (''brewPressure'', spec_default [''brew'', ''pressure''] IntType),
      (''brewTemperatureWindow'', spec_default [''brew'', ''brew_temperature_window''] IntType),
      (''brewTemperatureControllerPidSettings'', spec_pid [''brew'', ''pid_settings'']
        [''p'', ''d'', ''d_relax'', ''i'', ''i_relax'', ''f'', ''w'', ''w_decay'']),
      (''steamPressureThreshold'', spec_default [''steam'', ''pressure_threshold''] IntType),
      (''steamTemperature'', spec_default [''steam'', ''temperature''] IntType),
      (''steamRefillFlow'', spec_default [''steam'', ''refill_flow''] IntType),
      (''steamTemperatureWindow'',
        spec_default [''steam'', ''steam_temperature_window''] IntType),
      (''steamPreheatTemperatureControllerPidSettings'',
        spec_pid [''steam'', ''preheat_pid_settings'']
        [''p'', ''d'', ''d_relax'', ''i'', ''i_relax'']),
      (''steamActiveTemperatureControllerPidSettings'',
        spec_pid [''steam'', ''active_pid_settings'']
        [''p'', ''d'', ''d_relax'', ''i'', ''i_relax''])]"

text \<open>The file holds values of the right types at the keys that the getter reads.\<close>

definition keys_typed :: "'c toml \<Rightarrow> 'c \<Rightarrow> (string list \<times> toml_type) list \<Rightarrow> bool" where
  "keys_typed T c ks \<longleftrightarrow> (\<forall>(p, ty) \<in> set ks. \<forall>v. entry T c p = Some v \<longrightarrow> type_of v = ty)"

definition keys_present :: "'c toml \<Rightarrow> 'c \<Rightarrow> (string list \<times> toml_type) list \<Rightarrow> bool" where
  "keys_present T c ks \<longleftrightarrow> (\<forall>(p, ty) \<in> set ks. entry T c p \<noteq> None)"

definition outcome_ok ::
    "'c toml \<Rightarrow> 'c \<Rightarrow> (string list \<times> toml_type) list \<Rightarrow> bool \<Rightarrow> exn \<Rightarrow> (cpp_value \<Rightarrow> bool) \<Rightarrow>
     exn + cpp_value \<Rightarrow> bool" where
  "outcome_ok T c needed accepted refused P r \<longleftrightarrow>
     (case r of
        Inr v \<Rightarrow> keys_present T c needed \<and> accepted \<and> P v
      | Inl e \<Rightarrow> if keys_present T c needed then \<not> accepted \<and> e = refused
                 else \<exists>m. e = OutOfRange m)"

lemma typed_present:
  assumes "keys_typed T c ks" and "(p, ty) \<in> set ks" and "entry T c p = Some v"
  shows "type_of v = ty"
  using assms by (auto simp: keys_typed_def)

text \<open>One rule for each kind of lookup.\<close>

lemma outcome_default:
  assumes "toml_laws T" and "keys_typed T c [(p, ty)]"
  shows "ty = StringType \<Longrightarrow> (\<And>x. P (Text x)) \<Longrightarrow>
      outcome_ok T c [] True e P (map_sum id Text (find_or_string T c p s))"
    "ty = BoolType \<Longrightarrow> (\<And>x. P (Flag x)) \<Longrightarrow>
      outcome_ok T c [] True e P (map_sum id Flag (find_or_bool T c p b))"
    "ty = IntType \<Longrightarrow> (\<And>x. P (Num x)) \<Longrightarrow>
      outcome_ok T c [] True e P (map_sum id Num (find_or_int T c p n))"
    "ty = TimeType \<Longrightarrow> (\<And>x. P (Num x)) \<Longrightarrow>
      outcome_ok T c [] True e P (map_sum id Num (find_or_duration T c p u n))"
  using toml_absent [OF assms(1), of c p] toml_present [OF assms(1), of c p]
    typed_present [OF assms(2), of p ty]
  by (cases "entry T c p"; auto simp: outcome_ok_def keys_present_def type_of_cases find_or_duration_def)+

lemma outcome_needed:
  assumes "toml_laws T" and "keys_typed T c [(p, ty)]"
  shows "ty = IntType \<Longrightarrow> (\<And>x. P (Num x)) \<Longrightarrow>
      outcome_ok T c [(p, ty)] True e P (map_sum id Num (find_int T c p))"
    "ty = IntType \<Longrightarrow> (\<And>x. 0 \<le> x \<Longrightarrow> x < 2 ^ w \<Longrightarrow> P (Num x)) \<Longrightarrow>
      outcome_ok T c [(p, ty)] True e P (map_sum id Num (find_unsigned w T c p))"
    "ty = FloatType \<Longrightarrow> (\<And>x. P (Real32 x)) \<Longrightarrow>
      outcome_ok T c [(p, ty)] True e P (map_sum id Real32 (find_float T c p))"
  using toml_absent [OF assms(1), of c p] toml_present [OF assms(1), of c p]
    typed_present [OF assms(2), of p ty]
  by (cases "entry T c p"; auto simp: outcome_ok_def keys_present_def type_of_cases find_unsigned_def)+

lemma outcome_checked:
  assumes "toml_laws T" and "keys_typed T c [(p, StringType)]"
  shows "outcome_ok T c []
    (case entry T c p of Some (TString x) \<Rightarrow> x \<in> names | _ \<Rightarrow> s \<in> names) BadOptionalAccess
    (\<lambda>v. \<exists>x \<in> names. v = Text x) (map_sum id Text (bindr (find_or_string T c p s) (enum_cast names)))"
  using toml_absent(3) [OF assms(1), of c p] toml_present(4) [OF assms(1), of c p]
    typed_present [OF assms(2), of p StringType]
  by (cases "entry T c p")
    (auto simp: outcome_ok_def keys_present_def type_of_cases enum_cast_def split: toml_entry.splits)

lemma outcome_period:
  assumes "toml_laws T" and "0 \<le> ticks T"
    and "keys_typed T c [([''heater'', ''ready_hysteresis_period''], TimeType)]"
  shows "outcome_ok T c [] (period_accepted T c) negative_period (\<lambda>v. \<exists>n. v = Num n)
    (map_sum id Num (heaterReadyHysteresisPeriod T c))"
proof -
  let ?p = "[''heater'', ''ready_hysteresis_period'']"
  have "0 \<le> time_ticks T DEFAULT_HEATER_READY_HYSTERESIS_PERIOD 1"
    using assms(2) by (simp add: time_ticks_def DEFAULT_HEATER_READY_HYSTERESIS_PERIOD_def)
  then show ?thesis
    using toml_absent(6) [OF assms(1), of c ?p] toml_present(6) [OF assms(1), of c ?p]
      typed_present [OF assms(3), of ?p TimeType]
    by (cases "entry T c ?p")
      (auto simp: outcome_ok_def keys_present_def type_of_cases heaterReadyHysteresisPeriod_def
        period_accepted_def negative_period_def)
qed

text \<open>The controller settings: the first missing key decides.\<close>

lemma outcome_pid_float:
  assumes "toml_laws T" and "keys_typed T c [(p, FloatType)]"
    and k: "\<And>x. outcome_ok T c ks True e P (map_sum id PidValue (k x))"
  shows "outcome_ok T c ((p, FloatType) # ks) True e P (map_sum id PidValue (bindr (find_float T c p) k))"
proof (cases "entry T c p")
  case None
  with toml_absent(2) [OF assms(1) this] show ?thesis
    by (auto simp: outcome_ok_def keys_present_def)
next
  case (Some v)
  with typed_present [OF assms(2), of p FloatType] obtain x where x: "entry T c p = Some (TFloat x)"
    by (auto simp: type_of_cases)
  then have "keys_present T c ((p, FloatType) # ks) = keys_present T c ks"
    by (simp add: keys_present_def)
  then show ?thesis
    using toml_present(3) [OF assms(1) x] k [of x]
    by (auto simp: outcome_ok_def split: sum.splits if_splits)
qed

lemma outcome_pid_time:
  assumes "toml_laws T" and t: "keys_typed T c [([''temperature_sensor'', ''filter_timing''], TimeType)]"
    and k: "\<And>x. outcome_ok T c ks True e P (map_sum id PidValue (k x))"
  shows "outcome_ok T c ks True e P (map_sum id PidValue (bindr (temperatureSensorFilterTiming T c) k))"
proof -
  have "outcome_ok T c [] True e (\<lambda>_. True) (map_sum id Num (temperatureSensorFilterTiming T c))"
    unfolding temperatureSensorFilterTiming_def by (rule outcome_default(4) [OF assms(1) t]) simp_all
  then obtain x where "temperatureSensorFilterTiming T c = Inr x"
    by (cases "temperatureSensorFilterTiming T c") (auto simp: outcome_ok_def keys_present_def)
  with k show ?thesis by simp
qed

lemma outcome_pid_made: "P (PidValue v) \<Longrightarrow> outcome_ok T c [] True e P (map_sum id PidValue (Inr v))"
  by (simp add: outcome_ok_def keys_present_def)

definition getter_meets ::
    "'c toml \<Rightarrow> 'c \<Rightarrow> string \<times> cpp_type \<times> (exn + cpp_value) \<Rightarrow> string \<times> getter_spec \<Rightarrow> bool" where
  "getter_meets T c = (\<lambda>(name, ty, r) (name', spec). name = name' \<and>
     (keys_typed T c (spec_needs spec @ spec_reads spec) \<longrightarrow>
        outcome_ok T c (spec_needs spec) (spec_accepts spec) (spec_refuses spec) (has_type T ty) r))"

lemma keys_typed_Cons:
  "keys_typed T c (k # ks) \<longleftrightarrow> keys_typed T c [k] \<and> keys_typed T c ks" "keys_typed T c []"
  by (simp_all add: keys_typed_def)

text \<open>The rows by the kind of their specification.\<close>

lemma meets_default:
  assumes "toml_laws T"
  shows "ty \<in> {Cpp_Path, Cpp_DevAddr, Cpp_String} \<Longrightarrow>
      getter_meets T c (n, ty, map_sum id Text (find_or_string T c p s)) (n, spec_default p StringType)"
    "getter_meets T c (n, Cpp_Bool, map_sum id Flag (find_or_bool T c p b)) (n, spec_default p BoolType)"
    "\<forall>x. has_type T ty (Num x) \<Longrightarrow>
      getter_meets T c (n, ty, map_sum id Num (find_or_int T c p i)) (n, spec_default p IntType)"
    "\<forall>x. has_type T ty (Num x) \<Longrightarrow>
      getter_meets T c (n, ty, map_sum id Num (find_or_duration T c p u i)) (n, spec_default p TimeType)"
  by (simp_all add: getter_meets_def spec_default_def spec_checked_def)
    (intro impI outcome_default [OF assms]; (blast | simp add: has_type_def))+

lemma meets_needed:
  assumes "toml_laws T"
  shows "\<forall>x. has_type T ty (Num x) \<Longrightarrow>
      getter_meets T c (n, ty, map_sum id Num (find_int T c p)) (n, spec_needed p IntType)"
    "getter_meets T c (n, Cpp_Size, map_sum id Num (find_unsigned 64 T c p)) (n, spec_needed p IntType)"
    "getter_meets T c (n, Cpp_Uint32, map_sum id Num (find_unsigned 32 T c p)) (n, spec_needed p IntType)"
    "getter_meets T c (n, Cpp_Float, map_sum id Real32 (find_float T c p)) (n, spec_needed p FloatType)"
  by (simp_all add: getter_meets_def spec_needed_def)
    (intro impI outcome_needed [OF assms]; (blast | simp add: has_type_def))+

lemma outcome_weaken:
  "outcome_ok T c ks a e P r \<Longrightarrow> (\<And>v. P v \<Longrightarrow> Q v) \<Longrightarrow> outcome_ok T c ks a e Q r"
  by (auto simp: outcome_ok_def split: sum.splits)

lemma meets_checked:
  assumes "toml_laws T" and "0 \<le> ticks T"
  shows "getter_meets T c (n, Cpp_Level, map_sum id Text (logLevel T c))
      (n, spec_checked [''log'', ''console_log_level''] StringType (level_known T c) BadOptionalAccess)"
    "getter_meets T c (n, Cpp_PinPull, map_sum id Text (buttonsPullMode T c))
      (n, spec_checked [''buttons'', ''pull_mode''] StringType (pull_known T c) BadOptionalAccess)"
    "getter_meets T c (n, Cpp_TimeDelta, map_sum id Num (heaterReadyHysteresisPeriod T c))
      (n, spec_checked [''heater'', ''ready_hysteresis_period''] TimeType (period_accepted T c) negative_period)"
  by (simp_all add: getter_meets_def spec_checked_def level_known_def pull_known_def logLevel_def
      buttonsPullMode_def)
    (intro impI outcome_weaken [OF outcome_checked] outcome_weaken [OF outcome_period] assms;
      auto simp: has_type_def)+

lemma meets_pid:
  assumes "toml_laws T"
  shows "getter_meets T c (n, Cpp_Pid, map_sum id PidValue (brewTemperatureControllerPidSettings T c))
      (n, spec_pid [''brew'', ''pid_settings'']
        [''p'', ''d'', ''d_relax'', ''i'', ''i_relax'', ''f'', ''w'', ''w_decay''])"
    "getter_meets T c (n, Cpp_Pid, map_sum id PidValue (steamPreheatTemperatureControllerPidSettings T c))
      (n, spec_pid [''steam'', ''preheat_pid_settings''] [''p'', ''d'', ''d_relax'', ''i'', ''i_relax''])"
    "getter_meets T c (n, Cpp_Pid, map_sum id PidValue (steamActiveTemperatureControllerPidSettings T c))
      (n, spec_pid [''steam'', ''active_pid_settings''] [''p'', ''d'', ''d_relax'', ''i'', ''i_relax''])"
  unfolding getter_meets_def spec_pid_def brewTemperatureControllerPidSettings_def
    steamPreheatTemperatureControllerPidSettings_def steamActiveTemperatureControllerPidSettings_def
    prod.case getter_spec.simps list.map append.simps
  by (intro conjI refl impI; (intro outcome_pid_float outcome_pid_time outcome_pid_made assms)?;
      simp add: keys_typed_def has_type_def)+

lemmas plain_getters =
  brewProfilePath_def userSettingsPath_def mainsFrequency_def i2cBus_def gpioChip_def
  mainsZeroCrossPin_def pidStateMonitoringEnabled_def socketPath_def tcpEnable_def
  tcpBindAddress_def logMessagePattern_def watchdogEnabled_def watchdogDevice_def
  watchdogTimeout_def watchdogTemperatureLimit_def buttonsLogicInverted_def
  powerButtonBistable_def brewButtonBistable_def steamButtonBistable_def buttonsDebouncePeriod_def
  powerButtonSignalPin_def brewButtonSignalPin_def steamButtonSignalPin_def ledsLogicInverted_def
  powerLedOutputPin_def brewLedOutputPin_def steamLedOutputPin_def pressureSensorSignalPin_def
  pressureSensorI2cAddr_def weightSensorScale_def weightSensorFilterTiming_def
  weightSensorSignalPin_def weightSensorI2cAddr_def temperatureSensorFilterTiming_def
  temperatureSensorSpiAddr_def temperatureSensorSignalPin_def flowControllerMultiplier_def
  pumpOutputPin_def pumpVolumePerPulse_def pumpStallPressure_def valveOutputPin_def
  heaterOutputPin_def brewTemperature_def brewPressure_def brewTemperatureWindow_def
  steamPressureThreshold_def steamTemperature_def steamRefillFlow_def steamTemperatureWindow_def



end
