(* ===== verification/Spec2Isabelle.thy ===== *)
theory Spec2Isabelle
  imports Lifetime Composition Clients ConfigTypes
begin

text \<open>
  Openpresso daemon: a model of the program in \<^verbatim>\<open>src/src\<close> and the theorems about it.

  \<^bold>\<open>The program.\<close> The daemon drives an espresso machine. Buttons and remote calls ask for
  power, brewing and steam; the requests go through one queue to one worker thread that
  alone changes the state of the machine; a sensor closure watches the temperature and
  publishes the heating status; event streams and metric streams report to clients. The
  hardware is behind libopenpresso, whose components the daemon configures at its start and
  then calls through interfaces.

  \<^bold>\<open>How code becomes a definition.\<close> An object is a record of its data members; an operation is
  a function from the state to the new state and a result, \<open>Inl\<close> of an exception or \<open>Inr\<close>
  of a value (\<open>Prelude\<close>: sequences, branches, \<^verbatim>\<open>catch\<close>, zooming on a part of the state).
  The state that an exception leaves behind is kept, as C++ keeps it. What the language
  leaves undefined is the value \<open>UndefinedBehaviour\<close>, which no handler catches. Everything
  outside the repository is a parameter: the record \<open>'d lib\<close> of \<open>Interfaces\<close> has one field
  per operation of libopenpresso, the clock and the file system that the program calls,
  over an abstract outside world \<open>'d\<close>; \<open>toml\<close> and \<open>json\<close> are the records of toml11 and of
  the JSON conversions of protobuf. Theorems name what they need of them (\<open>device_laws\<close>,
  \<open>led_laws\<close>, \<open>lifecycle_laws\<close>, \<open>fs_laws\<close>, \<open>toml_laws\<close>, \<open>json_laws\<close>), and \<open>Simulator\<close> is
  a concrete world that satisfies them and in which the witnesses are evaluated.

  \<^bold>\<open>Which theory models what.\<close>
  \<^item> \<open>Prelude\<close>, \<open>CFloat\<close>, \<open>Progress\<close>: programs, frames, invariants, the locale \<open>safety\<close> of
    invariants of transition systems; binary32 arithmetic, its conversions and its rounding
    error; the locale \<open>stoppable\<close> of systems whose own steps lower a rank that the steps of
    others do not raise, and its products.
  \<^item> \<open>Labels\<close>, \<open>Config\<close>, \<open>ConfigMaker\<close>, \<open>ConfigTypes\<close>: \<^verbatim>\<open>config/*\<close>: component labels, every
    getter with its default, every component of the device configuration, and the table of
    the getters with the types of the class declaration.
  \<^item> \<open>Interfaces\<close>, \<open>Messages\<close>, \<open>Simulator\<close>: the parameters and the protobuf messages.
  \<^item> \<open>Leds\<close>, \<open>StatusManager\<close>, \<open>BrewTimer\<close>, \<open>StateManager\<close>: \<^verbatim>\<open>leds/leds_handler\<close> and
    \<^verbatim>\<open>state_manager/{status_manager,brew_timer,state_manager}\<close>. \<open>state_manager\<close> extends
    \<open>status_manager\<close>, which it owns; the closures given to the sensor are data.
  \<^item> \<open>Stores\<close>, \<open>BrewProfileManager\<close>, \<open>UserSettingsManager\<close>:
    \<^verbatim>\<open>state_manager/{brew_profile_manager,user_settings_manager}\<close>; their common contract is
    the locale \<open>message_store\<close>, interpreted by both.
  \<^item> \<open>Dispatcher\<close>: \<^verbatim>\<open>async_events_dispatcher/async_events_dispatcher\<close>. \<open>dispatcher\<close> extends
    \<open>state_manager\<close>; the closures put into the executor are the datatype \<open>procedure\<close>, the
    queue is \<open>outbox\<close>, one round of the worker is \<open>worker_step\<close>.
  \<^item> \<open>Executor\<close>: \<^verbatim>\<open>async_events_dispatcher/procedures_serial_executor.hpp\<close> with its lock, its
    64-bit size and its worker as steps; \<open>Composition\<close> puts the dispatcher on it.
  \<^item> \<open>Clients\<close>: the dispatcher with the event streams it feeds, from the remote call that opens
    a stream (\<open>service_events\<close>) to its destruction by the task that \<open>OnDone\<close> puts into the queue.
  \<^item> \<open>Buttons\<close>: \<^verbatim>\<open>buttons/*\<close>; the sink interface is the locale \<open>button_sink\<close>, interpreted by
    the dispatcher.
  \<^item> \<open>EventsReactor\<close>, \<open>MetricsReactor\<close>, \<open>Service\<close>, \<open>Server\<close>: \<^verbatim>\<open>service/*\<close>: the two streams, the
    calls, and all open streams together with the destructor that waits for them.
  \<^item> \<open>Daemon\<close>, \<open>Process\<close>: \<^verbatim>\<open>daemon/daemon\<close>, \<^verbatim>\<open>signals_handler/signals_handler\<close>,
    \<^verbatim>\<open>main.cpp\<close>. \<open>stage\<close> is one construction with the destructors that run when it throws.
    \<open>Lifetime\<close> refines \<open>Process\<close> by the wait for the server between the exit signal and the
    destructors.

  \<^bold>\<open>What is shown.\<close>
  \<^item> The machine: \<open>StateProps\<close> states what power, brew and steam switching promise as a machine
    of three switches (\<open>spec_setPower\<close>, \<open>spec_startBrew\<close>, ...) and proves that the code
    refines it, and that the two heaters are never on together.
  \<^item> The heating status: \<open>StatusProps\<close>: hysteresis for both kinds of sensor, the number of
    readings in binary32 and its distance from the exact quotient, what one reading does in
    a reachable state, agreement of LEDs, published and cached status.
  \<^item> The queue: \<open>Executor\<close> (order, nothing lost, termination), \<open>DispatcherProps\<close> (answers,
    event streams), \<open>Composition\<close> (the executor refines the one queue).
  \<^item> The clients: \<open>Buttons\<close> and \<open>Service\<close> prove that presses and remote calls move the machine
    as the abstract machine moves; \<open>EventsReactor\<close> and \<open>MetricsReactor\<close> what one stream
    writes, why it ends and in how many steps after a cancellation; \<open>Clients\<close> that a client
    reads what the dispatcher announced, in order and in bounded time, that what was announced
    is the state of the machine, and that a stream is destroyed when it is done and not before;
    \<open>Server\<close> that the shutdown of the server does not wait for ever.
  \<^item> Profiles and files: \<open>ProfileProps\<close>, \<open>ConfigMaker\<close>; \<open>ConfigTypes\<close> says of every getter what
    it returns or throws, \<open>Config\<close> what becomes of numbers that are out of range.
  \<^item> The whole process: \<open>DaemonProps\<close> (requests keep the agreement of switches and heaters, the
    end switches everything off), \<open>Startup\<close> (a start succeeds exactly for a complete file and
    a valid profile, and leaves nothing behind otherwise; what was saved is found again),
    \<open>Process\<close> (every reachable state, exit codes), \<open>Lifetime\<close> (an exit signal ends the
    process, whatever streams are open).

  \<^bold>\<open>Concurrency, bounds and fuel.\<close> In \<open>Executor\<close>, \<open>EventsReactor\<close> and \<open>MetricsReactor\<close> every
  critical section and every atomic operation is one step and all interleavings are covered;
  above them a task of the worker, a delivery of the sensor and a device operation are
  atomic, as is the sequence of the status notifications that one task pushes. Queue sizes
  are 64-bit words; that the worker ends is shown for queues shorter than \<open>2 ^ 64 - 1\<close>.
  A cancelled event stream needs at most eight steps of its own when its writes fail, and
  otherwise seven per event that is left and seven more; a metrics stream needs five. To
  push, count, take and write what a stream was told takes nine steps per event and eight more.
  Worker runs are counted in rounds: \<open>drain\<close> takes as many rounds as there are tasks in the
  queue, and \<open>drain_shutdown\<close>, \<open>notes_run\<close> show that this serves the last request and the
  notifications behind it. The brew timer keeps its 32-bit word; \<open>size_t\<close> and
  \<open>uint32_t\<close> settings wrap at their width. Units of libopenpresso are integers; \<open>fits_units\<close> and \<open>fits_ticks\<close> say which values a float may be converted to.

  \<^bold>\<open>Not modelled.\<close> Logging (spdlog) is output only. gRPC, protobuf, toml11, CLI11 and
  libopenpresso are third-party and parameters. Of the server its addresses, its absence and
  its shutdown are modelled: \<open>stop_laws\<close> is the documented effect of \<^verbatim>\<open>Shutdown\<close>, that every open
  call is cancelled. In \<open>Process\<close> the wait
  is left out, in \<open>Lifetime\<close> it is modelled; there the streams take their steps independently
  of the dispatcher, which is more than the code allows, while \<open>Clients\<close> couples the two. Data races below the granularity above,
  memory allocation and thread creation failures are not modelled. \<^verbatim>\<open>utils/lambda_overload.hpp\<close>
  is template glue. Unit tests, mocks, build files, packaging and documentation are not part
  of the program.
\<close>

end
